(* ===== verification/Prelude.thy ===== *)
theory Prelude
  imports Main "HOL-Library.List_Lexorder" "HOL-Library.Char_ord" "HOL-Library.Sublist"
begin

text \<open>
  What every component of the server model shares: the exceptions that C++ code can let
  escape, the result type that carries them, the sequencing of fallible steps, the
  characters the parsers look for, and generic facts on lists and on results.

  A value of type \<open>'a result\<close> is \<open>Inr v\<close> where the code returns \<open>v\<close> and \<open>Inl e\<close> where
  an exception leaves the function, or where the C++ standard gives the execution no meaning
  (\<open>Undefined_behaviour\<close>: a read out of range, a call through a null pointer).
\<close>

datatype exn =
    Invalid_argument        \<comment> \<open>std::invalid_argument\<close>
  | Out_of_range            \<comment> \<open>std::out_of_range\<close>
  | Json_error              \<comment> \<open>thrown by the JSON reader or by a missing key\<close>
  | Filesystem_error        \<comment> \<open>boost::filesystem::filesystem_error\<close>
  | System_error            \<comment> \<open>boost::system::system_error\<close>
  | Undefined_behaviour     \<comment> \<open>no meaning by the C++ standard\<close>

type_synonym 'a result = "exn + 'a"

definition and_then :: "'a result \<Rightarrow> ('a \<Rightarrow> 'b result) \<Rightarrow> 'b result" where
  "and_then r f = (case r of Inl e \<Rightarrow> Inl e | Inr v \<Rightarrow> f v)"

definition returns :: "'a result \<Rightarrow> bool" where
  "returns r = (case r of Inl _ \<Rightarrow> False | Inr _ \<Rightarrow> True)"

lemma and_then_simps [simp]:
  "and_then (Inl e) f = Inl e"
  "and_then (Inr v) f = f v"
  by (simp_all add: and_then_def)

lemma returns_simps [simp]: "returns (Inr v)" "\<not> returns (Inl e)"
  by (simp_all add: returns_def)

lemma and_then_Inr_iff: "and_then r f = Inr w \<longleftrightarrow> (\<exists>v. r = Inr v \<and> f v = Inr w)"
  by (cases r) auto

lemma returns_iff: "returns r \<longleftrightarrow> (\<exists>v. r = Inr v)"
  by (cases r) auto

text \<open>A run that ends with a given first component, with the rest of what it returns.\<close>

lemma run_result: "fst r = x \<Longrightarrow> \<exists>s. r = (x, s)"
  by (cases r) auto

lemma status_run: "fst r = x \<Longrightarrow> \<exists>res s. r = (x, res, s)"
  by (cases r) auto

section \<open>Characters\<close>

abbreviation tab :: char where "tab \<equiv> CHR 0x09"
abbreviation newline :: char where "newline \<equiv> CHR 0x0A"
abbreviation vtab :: char where "vtab \<equiv> CHR 0x0B"
abbreviation formfeed :: char where "formfeed \<equiv> CHR 0x0C"
abbreviation creturn :: char where "creturn \<equiv> CHR 0x0D"
abbreviation space :: char where "space \<equiv> CHR '' ''"
abbreviation quote1 :: char where "quote1 \<equiv> CHR 0x27"
abbreviation quote2 :: char where "quote2 \<equiv> CHR 0x22"
abbreviation backslash :: char where "backslash \<equiv> CHR 0x5C"
abbreviation slash :: char where "slash \<equiv> CHR ''/''"

abbreviation crlf :: string where "crlf \<equiv> [creturn, newline]"
abbreviation crlf2 :: string where "crlf2 \<equiv> [creturn, newline, creturn, newline]"

section \<open>Collections of facts\<close>

named_theorems std_simps \<open>evaluation of the standard library model\<close>
named_theorems inv_intros \<open>preservation of the components' invariants\<close>

section \<open>Lists\<close>

lemma butlast_snoc_last [simp]: "xs \<noteq> [] \<Longrightarrow> butlast xs @ last xs # ys = xs @ ys"
  by (metis append_Cons append_Nil append_assoc append_butlast_last_id)

lemma takeWhile_all [simp]: "(\<And>x. x \<in> set xs \<Longrightarrow> P x) \<Longrightarrow> takeWhile P xs = xs"
  by (simp add: takeWhile_eq_all_conv)

lemma dropWhile_none: "xs \<noteq> [] \<Longrightarrow> \<not> P (hd xs) \<Longrightarrow> dropWhile P xs = xs"
  by (cases xs) auto

lemma takeWhile_append_stop:
  "(\<And>x. x \<in> set xs \<Longrightarrow> P x) \<Longrightarrow> \<not> P y \<Longrightarrow> takeWhile P (xs @ y # ys) = xs"
  by (induction xs) auto

lemma takeWhile_append_end:
  "(\<And>x. x \<in> set xs \<Longrightarrow> P x) \<Longrightarrow> ys = [] \<or> \<not> P (hd ys) \<Longrightarrow> takeWhile P (xs @ ys) = xs"
  by (cases ys) (auto simp: takeWhile_append_stop)

end
