(* ===== verification/Cpp_Std.thy ===== *)
theory Cpp_Std
  imports Prelude
begin

text \<open>
  The parts of the C++ standard library the server is written with: positions and substrings
  of \<open>std::string\<close>, the conversions \<open>std::stoi\<close>, \<open>atoi\<close> and \<open>std::to_string\<close>,
  \<open>std::getline\<close>, word extraction from a stream, and \<open>std::map\<close> as an association list in key
  order. Nothing here is code of the repository; every other theory is written with it.

  A position is a \<open>nat option\<close>: \<open>None\<close> is \<open>std::string::npos\<close>, the largest value of
  \<open>size_t\<close>, so that \<open>p + 1\<close> wraps to 0 for \<open>npos\<close> and \<open>0 - 1\<close> wraps to \<open>npos\<close>. An \<open>int\<close> of the
  code is an \<open>int\<close> here, with its 32-bit range checked where a conversion can leave it.
\<close>

section \<open>Positions and substrings\<close>

type_synonym position = "nat option"

definition succ_pos :: "position \<Rightarrow> nat" where
  \<comment> \<open>\<open>p + 1\<close> in \<open>size_t\<close>\<close>
  "succ_pos p = (case p of None \<Rightarrow> 0 | Some i \<Rightarrow> Suc i)"

definition pred_pos :: "nat \<Rightarrow> position" where
  \<comment> \<open>\<open>i - 1\<close> in \<open>size_t\<close>\<close>
  "pred_pos i = (case i of 0 \<Rightarrow> None | Suc j \<Rightarrow> Some j)"

fun find_char :: "char \<Rightarrow> string \<Rightarrow> position" where
  \<comment> \<open>\<open>s.find(c)\<close>\<close>
  "find_char c [] = None"
| "find_char c (x # xs) = (if x = c then Some 0 else map_option Suc (find_char c xs))"

fun rfind_char :: "char \<Rightarrow> string \<Rightarrow> position" where
  \<comment> \<open>\<open>s.find_last_of(c)\<close> and \<open>s.rfind(c)\<close> for a single character\<close>
  "rfind_char c [] = None"
| "rfind_char c (x # xs) =
     (case rfind_char c xs of
        Some i \<Rightarrow> Some (Suc i)
      | None \<Rightarrow> if x = c then Some 0 else None)"

definition rfind_char_from :: "char \<Rightarrow> string \<Rightarrow> position \<Rightarrow> position" where
  \<comment> \<open>\<open>s.find_last_of(c, pos)\<close>: the last occurrence at or before \<open>pos\<close>\<close>
  "rfind_char_from c s p =
     (case p of None \<Rightarrow> rfind_char c s | Some i \<Rightarrow> rfind_char c (take (Suc i) s))"

fun find_str :: "string \<Rightarrow> string \<Rightarrow> position" where
  \<comment> \<open>\<open>s.find(t)\<close>, written \<open>find_str t s\<close>\<close>
  "find_str t [] = (if t = [] then Some 0 else None)"
| "find_str t (x # xs) = (if prefix t (x # xs) then Some 0 else map_option Suc (find_str t xs))"

definition substr :: "string \<Rightarrow> nat \<Rightarrow> position \<Rightarrow> string result" where
  \<comment> \<open>\<open>s.substr(pos, n)\<close>; the count \<open>npos\<close> reaches the end\<close>
  "substr s pos n =
     (if length s < pos then Inl Out_of_range
      else Inr (case n of None \<Rightarrow> drop pos s | Some k \<Rightarrow> take k (drop pos s)))"

definition after_last :: "char \<Rightarrow> string \<Rightarrow> string" where
  "after_last c s = drop (succ_pos (rfind_char c s)) s"

definition upto_last :: "char \<Rightarrow> string \<Rightarrow> string" where
  "upto_last c s = take (succ_pos (rfind_char c s)) s"

lemma succ_pos_simps [simp, std_simps]: "succ_pos None = 0" "succ_pos (Some i) = Suc i"
  by (simp_all add: succ_pos_def)

lemma pred_pos_simps [simp, std_simps]: "pred_pos 0 = None" "pred_pos (Suc i) = Some i"
  by (simp_all add: pred_pos_def)

lemma find_char_None_iff: "find_char c s = None \<longleftrightarrow> c \<notin> set s"
  by (induction s) auto

lemma find_char_None [simp]: "c \<notin> set s \<Longrightarrow> find_char c s = None"
  by (simp add: find_char_None_iff)

lemma find_char_append: "c \<notin> set xs \<Longrightarrow> find_char c (xs @ c # ys) = Some (length xs)"
  by (induction xs) auto

lemma rfind_char_None_iff: "rfind_char c s = None \<longleftrightarrow> c \<notin> set s"
  by (induction s) (auto split: option.splits)

lemma rfind_char_None [simp]: "c \<notin> set s \<Longrightarrow> rfind_char c s = None"
  by (simp add: rfind_char_None_iff)

lemma rfind_char_append:
  "c \<notin> set ys \<Longrightarrow> rfind_char c (xs @ c # ys) = Some (length xs)"
proof (induction xs)
  case Nil
  then have "rfind_char c ys = None" by simp
  then show ?case by simp
next
  case (Cons x xs)
  then show ?case by simp
qed

lemma rfind_char_SomeD:
  "rfind_char c s = Some i \<Longrightarrow> i < length s \<and> s ! i = c \<and> c \<notin> set (drop (Suc i) s)"
proof (induction s arbitrary: i)
  case Nil
  then show ?case by simp
next
  case (Cons x xs)
  show ?case
  proof (cases "rfind_char c xs")
    case None
    with Cons.prems show ?thesis by (auto simp: rfind_char_None_iff split: if_splits)
  next
    case (Some j)
    with Cons.prems have "i = Suc j" by simp
    with Cons.IH [OF Some] show ?thesis by simp
  qed
qed

lemma succ_pos_rfind_le [simp]: "succ_pos (rfind_char c s) \<le> length s"
  by (cases "rfind_char c s") (auto dest: rfind_char_SomeD simp: Suc_le_eq)

lemma substr_after_last [simp]:
  "substr s (succ_pos (rfind_char c s)) None = Inr (after_last c s)"
  by (simp add: substr_def after_last_def not_less)

lemma substr_upto_last [simp]:
  "substr s 0 (Some (succ_pos (rfind_char c s))) = Inr (upto_last c s)"
  by (simp add: substr_def upto_last_def)

lemma upto_after_last: "upto_last c s @ after_last c s = s"
  by (simp add: upto_last_def after_last_def)

lemma after_last_append [simp]:
  "c \<notin> set ys \<Longrightarrow> after_last c (xs @ c # ys) = ys"
  by (simp add: after_last_def rfind_char_append)

lemma upto_last_append [simp]:
  "c \<notin> set ys \<Longrightarrow> upto_last c (xs @ c # ys) = xs @ [c]"
  by (simp add: upto_last_def rfind_char_append)

lemma after_last_none [simp]: "c \<notin> set s \<Longrightarrow> after_last c s = s"
  by (simp add: after_last_def)

lemma find_str_SomeD:
  "find_str t s = Some i \<Longrightarrow> i + length t \<le> length s \<and> take (length t) (drop i s) = t"
proof (induction s arbitrary: i)
  case Nil
  then show ?case by (auto split: if_splits)
next
  case (Cons x xs)
  show ?case
  proof (cases "prefix t (x # xs)")
    case True
    with Cons.prems have "i = 0" by simp
    with True show ?thesis using prefix_length_le [OF True] by (auto simp: prefix_def)
  next
    case False
    with Cons.prems obtain j where "find_str t xs = Some j" "i = Suc j" by auto
    with Cons.IH [of j] show ?thesis by simp
  qed
qed

lemma find_str_None: "find_str t s = None \<Longrightarrow> \<not> sublist t s"
  by (induction s) (auto simp: sublist_Cons_right split: if_splits)

lemma find_str_append:
  "find_str t s = Some i \<Longrightarrow> find_str t (s @ u) = Some i"
proof (induction s arbitrary: i)
  case Nil
  then show ?case by (cases u) (auto split: if_splits)
next
  case (Cons x xs)
  show ?case
  proof (cases "prefix t (x # xs)")
    case True
    with Cons.prems show ?thesis using prefix_prefix [of t "x # xs" u] by simp
  next
    case False
    with Cons.prems obtain j where j: "find_str t xs = Some j" "i = Suc j" by auto
    then have "j + length t \<le> length xs" using find_str_SomeD by blast
    with False have "\<not> prefix t ((x # xs) @ u)"
      by (metis le_Suc_ex length_Cons less_eq_Suc_le nat_less_le not_less_eq_eq
          prefix_length_prefix prefixI trans_le_add2)
    with j Cons.IH [OF j(1)] show ?thesis by simp
  qed
qed

section \<open>Numbers as text\<close>

text \<open>
  \<open>strtol\<close> in base 10 skips white space, takes an optional sign and the longest run of
  digits; without a digit there is no conversion. \<open>std::stoi\<close> turns that into an exception,
  and a value outside the 32-bit range into another one. \<open>atoi\<close> is specified only for
  values that fit; the server runs on glibc, where it is \<open>strtol\<close> (which saturates at the
  64-bit limits) truncated to 32 bits.
\<close>

definition is_space :: "char \<Rightarrow> bool" where
  "is_space c \<longleftrightarrow> c \<in> {space, tab, newline, vtab, formfeed, creturn}"

definition is_digit :: "char \<Rightarrow> bool" where
  "is_digit c \<longleftrightarrow> c \<in> set ''0123456789''"

definition digit_value :: "char \<Rightarrow> nat" where
  "digit_value c = of_char c - 48"

definition digit_char :: "nat \<Rightarrow> char" where
  "digit_char d = ''0123456789'' ! d"

definition digits_value :: "string \<Rightarrow> nat" where
  "digits_value ds = foldl (\<lambda>a c. 10 * a + digit_value c) 0 ds"

definition sign_split :: "string \<Rightarrow> bool \<times> string" where
  "sign_split t =
     (case t of
        [] \<Rightarrow> (False, [])
      | c # cs \<Rightarrow>
          if c = CHR ''-'' then (True, cs)
          else if c = CHR ''+'' then (False, cs)
          else (False, c # cs))"

definition strtol :: "string \<Rightarrow> int option" where
  "strtol s =
     (case sign_split (dropWhile is_space s) of (neg, u) \<Rightarrow>
        let ds = takeWhile is_digit u in
        if ds = [] then None
        else Some (if neg then - int (digits_value ds) else int (digits_value ds)))"

definition in_int_range :: "int \<Rightarrow> bool" where
  "in_int_range i \<longleftrightarrow> - (2 ^ 31) \<le> i \<and> i < 2 ^ 31"

definition stoi :: "string \<Rightarrow> int result" where
  "stoi s =
     (case strtol s of
        None \<Rightarrow> Inl Invalid_argument
      | Some v \<Rightarrow> if in_int_range v then Inr v else Inl Out_of_range)"

definition saturate64 :: "int \<Rightarrow> int" where
  "saturate64 v = max (- (2 ^ 63)) (min (2 ^ 63 - 1) v)"

definition truncate32 :: "int \<Rightarrow> int" where
  "truncate32 v = (v + 2 ^ 31) mod 2 ^ 32 - 2 ^ 31"

definition atoi :: "string \<Rightarrow> int" where
  "atoi s = (case strtol s of None \<Rightarrow> 0 | Some v \<Rightarrow> truncate32 (saturate64 v))"

fun nat_to_string :: "nat \<Rightarrow> string" where
  "nat_to_string n =
     (if n < 10 then [digit_char n]
      else nat_to_string (n div 10) @ [digit_char (n mod 10)])"

declare nat_to_string.simps [simp del]

definition int_to_string :: "int \<Rightarrow> string" where
  \<comment> \<open>\<open>std::to_string\<close>\<close>
  "int_to_string i =
     (if i < 0 then CHR ''-'' # nat_to_string (nat (- i)) else nat_to_string (nat i))"

lemma digit_cases: "d < 10 \<Longrightarrow> d \<in> {0, 1, 2, 3, 4, 5, 6, 7, 8, 9::nat}"
  by auto

lemma digit_char_props [simp]:
  "d < 10 \<Longrightarrow> is_digit (digit_char d)"
  "d < 10 \<Longrightarrow> digit_value (digit_char d) = d"
  by (drule digit_cases, auto simp: digit_char_def is_digit_def digit_value_def)+

lemma is_digit_not [simp]:
  "is_digit c \<Longrightarrow> c \<noteq> CHR ''-''" "is_digit c \<Longrightarrow> c \<noteq> CHR ''+''"
  "is_digit c \<Longrightarrow> c \<noteq> slash" "is_digit c \<Longrightarrow> \<not> is_space c"
  by (auto simp: is_digit_def is_space_def)

lemma nat_to_string_digits: "c \<in> set (nat_to_string n) \<Longrightarrow> is_digit c"
proof (induction n rule: nat_to_string.induct)
  case (1 n)
  then show ?case
    by (subst (asm) (2) nat_to_string.simps) (auto split: if_splits)
qed

lemma nat_to_string_nonempty [simp]: "nat_to_string n \<noteq> []"
  by (subst nat_to_string.simps) simp

lemma digits_value_snoc: "digits_value (ds @ [c]) = 10 * digits_value ds + digit_value c"
  by (simp add: digits_value_def)

lemma digits_value_nat_to_string [simp]: "digits_value (nat_to_string n) = n"
proof (induction n rule: nat_to_string.induct)
  case (1 n)
  show ?case
  proof (cases "n < 10")
    case True
    then show ?thesis by (subst nat_to_string.simps) (simp add: digits_value_def)
  next
    case False
    then have "digits_value (nat_to_string (n div 10)) = n div 10" by (rule "1.IH")
    with False show ?thesis
      by (subst nat_to_string.simps) (simp add: digits_value_snoc)
  qed
qed

lemma sign_split_digit: "t \<noteq> [] \<Longrightarrow> is_digit (hd t) \<Longrightarrow> sign_split t = (False, t)"
  by (cases t) (auto simp: sign_split_def)

lemma hd_nat_to_string [simp]: "is_digit (hd (nat_to_string n))"
  using nat_to_string_digits [of "hd (nat_to_string n)" n] by simp

lemma strtol_nat:
  assumes "rest = [] \<or> \<not> is_digit (hd rest)"
  shows "strtol (nat_to_string n @ rest) = Some (int n)"
proof -
  have "dropWhile is_space (nat_to_string n @ rest) = nat_to_string n @ rest"
    by (rule dropWhile_none) (simp_all add: is_digit_not(4))
  moreover have "takeWhile is_digit (nat_to_string n @ rest) = nat_to_string n"
    by (rule takeWhile_append_end) (use assms nat_to_string_digits in auto)
  ultimately show ?thesis by (simp add: strtol_def sign_split_digit)
qed

lemma strtol_int_to_string [simp]: "strtol (int_to_string i) = Some i"
proof (cases "i < 0")
  case True
  have "takeWhile is_digit (nat_to_string (nat (- i))) = nat_to_string (nat (- i))"
    using nat_to_string_digits by simp
  with True show ?thesis
    by (simp add: int_to_string_def strtol_def sign_split_def is_space_def)
next
  case False
  then show ?thesis using strtol_nat [of "[]" "nat i"] by (simp add: int_to_string_def)
qed

lemma stoi_int_to_string [simp]: "in_int_range i \<Longrightarrow> stoi (int_to_string i) = Inr i"
  by (simp add: stoi_def)

lemma stoi_range: "stoi s = Inr i \<Longrightarrow> in_int_range i"
  by (auto simp: stoi_def split: option.splits if_splits)

lemma int_to_string_no_slash [simp]: "slash \<notin> set (int_to_string i)"
  by (auto simp: int_to_string_def dest!: nat_to_string_digits is_digit_not(3))

lemma int_to_string_nonempty [simp]: "int_to_string i \<noteq> []"
  by (simp add: int_to_string_def)

lemma int_to_string_inj [simp]: "int_to_string i = int_to_string j \<longleftrightarrow> i = j"
  by (metis option.inject strtol_int_to_string)

lemma truncate32_id: "in_int_range i \<Longrightarrow> truncate32 i = i"
  by (simp add: truncate32_def in_int_range_def)

lemma truncate32_range: "in_int_range (truncate32 i)"
  by (simp add: truncate32_def in_int_range_def)

lemma atoi_range: "in_int_range (atoi s)"
  by (auto simp: atoi_def truncate32_range split: option.splits) (simp add: in_int_range_def)

section \<open>Input streams\<close>

text \<open>
  \<open>std::getline\<close> on a string stream: \<open>None\<close> when no character is left (the stream fails),
  otherwise the characters up to the delimiter, which is dropped, and the rest. \<open>>>\<close> into a
  string skips white space and takes a maximal run of other characters.
\<close>

definition getline :: "char \<Rightarrow> string \<Rightarrow> (string \<times> string) option" where
  "getline d s =
     (if s = [] then None else Some (takeWhile (\<lambda>c. c \<noteq> d) s, drop 1 (dropWhile (\<lambda>c. c \<noteq> d) s)))"

definition extract_word :: "string \<Rightarrow> (string \<times> string) option" where
  "extract_word s =
     (let t = dropWhile is_space s in
      if t = [] then None
      else Some (takeWhile (\<lambda>c. \<not> is_space c) t, dropWhile (\<lambda>c. \<not> is_space c) t))"

lemma getline_shorter: "getline d s = Some (l, r) \<Longrightarrow> length r < length s"
  using length_dropWhile_le [of "\<lambda>c. c \<noteq> d" s]
  by (cases s) (auto simp: getline_def split: if_splits)

lemma dropWhile_append_stop:
  "(\<And>x. x \<in> set xs \<Longrightarrow> P x) \<Longrightarrow> \<not> P y \<Longrightarrow> dropWhile P (xs @ y # ys) = y # ys"
  by (induction xs) auto

lemma getline_append:
  "d \<notin> set l \<Longrightarrow> getline d (l @ d # r) = Some (l, r)"
  by (subst getline_def, subst takeWhile_append_stop, auto)
    (subst dropWhile_append_stop, auto)

lemma getline_end:
  assumes "s \<noteq> []" and "d \<notin> set s"
  shows "getline d s = Some (s, [])"
proof -
  have "\<forall>x \<in> set s. x \<noteq> d" using assms(2) by blast
  then have t: "takeWhile (\<lambda>c. c \<noteq> d) s = s" and r: "dropWhile (\<lambda>c. c \<noteq> d) s = []"
    by simp_all
  show ?thesis by (subst getline_def, subst t, subst r) (simp add: assms(1))
qed

end
