(* ===== verification/Config_Lexer.thy ===== *)
theory Config_Lexer
  imports Cpp_Std
begin

text \<open>
  \<open>NginxConfigParser::ParseToken\<close> of \<open>src/config_parser.cc\<close>: the character-level state machine
  that reads one token of a configuration file. The stream is the list of characters still to
  be read; reading past its end ends the loop, as \<open>input->good()\<close> turning false does.
  \<open>unget\<close> after a successful read puts the character back.
\<close>

datatype token_type =
    TOKEN_TYPE_START
  | TOKEN_TYPE_NORMAL
  | TOKEN_TYPE_START_BLOCK
  | TOKEN_TYPE_END_BLOCK
  | TOKEN_TYPE_COMMENT
  | TOKEN_TYPE_STATEMENT_END
  | TOKEN_TYPE_EOF
  | TOKEN_TYPE_ERROR

datatype token_state =
    TOKEN_STATE_INITIAL_WHITESPACE
  | TOKEN_STATE_SINGLE_QUOTE
  | TOKEN_STATE_DOUBLE_QUOTE
  | TOKEN_STATE_TOKEN_TYPE_COMMENT
  | TOKEN_STATE_TOKEN_TYPE_NORMAL

definition delimiter :: "char \<Rightarrow> bool" where
  \<comment> \<open>what ends an unquoted token and must follow a closing quote\<close>
  "delimiter c \<longleftrightarrow> c \<in> {space, tab, newline, CHR '';'', CHR ''{'', CHR ''}''}"

fun close_quote :: "string \<Rightarrow> string \<Rightarrow> token_type \<times> string \<times> string" where
  \<comment> \<open>after the closing quote: one character is read, and put back if it is a delimiter;
      at the end of the file \<open>get\<close> yields \<open>EOF\<close>, which is not one\<close>
  "close_quote [] val = (TOKEN_TYPE_ERROR, val, [])"
| "close_quote (ch # cs) val =
     (if delimiter ch then (TOKEN_TYPE_NORMAL, val, ch # cs) else (TOKEN_TYPE_ERROR, val, cs))"

fun parse_token_loop ::
    "token_state \<Rightarrow> string \<Rightarrow> string \<Rightarrow> token_type \<times> string \<times> string" where
  "parse_token_loop state [] val =
     (if state = TOKEN_STATE_SINGLE_QUOTE \<or> state = TOKEN_STATE_DOUBLE_QUOTE
      then (TOKEN_TYPE_ERROR, val, [])
      else (TOKEN_TYPE_EOF, val, []))"
| "parse_token_loop TOKEN_STATE_INITIAL_WHITESPACE (c # cs) val =
     (if c = CHR ''{'' then (TOKEN_TYPE_START_BLOCK, [c], cs)
      else if c = CHR ''}'' then (TOKEN_TYPE_END_BLOCK, [c], cs)
      else if c = CHR ''#'' then parse_token_loop TOKEN_STATE_TOKEN_TYPE_COMMENT cs [c]
      else if c = quote2 then parse_token_loop TOKEN_STATE_DOUBLE_QUOTE cs [c]
      else if c = quote1 then parse_token_loop TOKEN_STATE_SINGLE_QUOTE cs [c]
      else if c = CHR '';'' then (TOKEN_TYPE_STATEMENT_END, [c], cs)
      else if c = space \<or> c = tab \<or> c = newline \<or> c = creturn
        then parse_token_loop TOKEN_STATE_INITIAL_WHITESPACE cs val
      else parse_token_loop TOKEN_STATE_TOKEN_TYPE_NORMAL cs (val @ [c]))"
| "parse_token_loop TOKEN_STATE_SINGLE_QUOTE (c # cs) val =
     (if c = backslash \<and> cs \<noteq> [] \<and> hd cs = quote1
        then parse_token_loop TOKEN_STATE_SINGLE_QUOTE (tl cs) (val @ [c, quote1])
      else if c = quote1 then close_quote cs (val @ [c])
      else parse_token_loop TOKEN_STATE_SINGLE_QUOTE cs (val @ [c]))"
| "parse_token_loop TOKEN_STATE_DOUBLE_QUOTE (c # cs) val =
     (if c = backslash \<and> cs \<noteq> [] \<and> hd cs = quote2
        then parse_token_loop TOKEN_STATE_DOUBLE_QUOTE (tl cs) (val @ [c, quote2])
      else if c = quote2 then close_quote cs (val @ [c])
      else parse_token_loop TOKEN_STATE_DOUBLE_QUOTE cs (val @ [c]))"
| "parse_token_loop TOKEN_STATE_TOKEN_TYPE_COMMENT (c # cs) val =
     (if c = newline \<or> c = creturn then (TOKEN_TYPE_COMMENT, val, cs)
      else parse_token_loop TOKEN_STATE_TOKEN_TYPE_COMMENT cs (val @ [c]))"
| "parse_token_loop TOKEN_STATE_TOKEN_TYPE_NORMAL (c # cs) val =
     (if delimiter c then (TOKEN_TYPE_NORMAL, val, c # cs)
      else parse_token_loop TOKEN_STATE_TOKEN_TYPE_NORMAL cs (val @ [c]))"

definition parse_token :: "string \<Rightarrow> token_type \<times> string \<times> string" where
  "parse_token input = parse_token_loop TOKEN_STATE_INITIAL_WHITESPACE input []"

section \<open>Progress\<close>

text \<open>
  Every token but the end of the file consumes at least one character, and no token reads
  more than the file holds: this is what makes the parser's loop end.
\<close>

definition leaves :: "nat \<Rightarrow> token_type \<times> string \<times> string \<Rightarrow> bool" where
  \<comment> \<open>at most \<open>n\<close> characters are left\<close>
  "leaves n r \<longleftrightarrow> length (snd (snd r)) \<le> n"

definition ends_scan :: "token_type \<Rightarrow> bool" where
  "ends_scan tt \<longleftrightarrow> tt = TOKEN_TYPE_EOF \<or> tt = TOKEN_TYPE_ERROR"

lemma leaves_if: "leaves n a \<Longrightarrow> leaves n b \<Longrightarrow> leaves n (if c then a else b)"
  by simp

lemma leaves_mono: "leaves m r \<Longrightarrow> m \<le> n \<Longrightarrow> leaves n r"
  by (simp add: leaves_def)

lemma leaves_close_quote: "leaves (length cs) (close_quote cs v)"
  by (cases cs) (simp_all add: leaves_def)

lemma parse_token_loop_leaves: "leaves (length cs) (parse_token_loop st cs v)"
proof (induction "length cs" arbitrary: st cs v rule: less_induct)
  case less
  show ?case
  proof (cases cs)
    case Nil
    then show ?thesis by (simp add: leaves_def)
  next
    case (Cons d ds)
    have ds: "leaves (length cs) (parse_token_loop st' ds w)" for st' w
      by (rule leaves_mono [OF less.hyps]) (simp_all add: Cons)
    have tl: "leaves (length cs) (parse_token_loop st' (tl ds) w)" for st' w
      by (rule leaves_mono [OF less.hyps]) (simp_all add: Cons less_Suc_eq_le)
    have cq: "leaves (length cs) (close_quote ds w)" for w
      by (rule leaves_mono [OF leaves_close_quote]) (simp add: Cons)
    have stop: "leaves (length cs) (tt, w, ds)" "leaves (length cs) (tt, w, d # ds)" for tt w
      by (simp_all add: leaves_def Cons)
    show ?thesis
      by (subst Cons, cases st, simp_all only: parse_token_loop.simps)
        (intro leaves_if ds tl cq stop)+
  qed
qed

lemma parse_token_loop_less:
  assumes "st \<noteq> TOKEN_STATE_TOKEN_TYPE_NORMAL"
  shows "ends_scan (fst (parse_token_loop st cs v)) \<or>
    length (snd (snd (parse_token_loop st cs v))) < length cs"
proof (cases cs)
  case Nil
  then show ?thesis by (simp add: ends_scan_def)
next
  case (Cons d ds)
  have ds: "leaves (length ds) (parse_token_loop st' ds w)" for st' w
    by (rule parse_token_loop_leaves)
  have tl: "leaves (length ds) (parse_token_loop st' (tl ds) w)" for st' w
    by (rule leaves_mono [OF parse_token_loop_leaves]) simp
  have cq: "leaves (length ds) (close_quote ds w)" for w
    by (rule leaves_close_quote)
  have stop: "leaves (length ds) (tt, w, ds)" for tt w
    by (simp add: leaves_def)
  have "leaves (length ds) (parse_token_loop st (d # ds) v)"
    by (insert assms, cases st, simp_all only: parse_token_loop.simps simp_thms)
      (intro leaves_if ds tl cq stop)+
  then show ?thesis by (simp add: Cons leaves_def)
qed

lemma parse_token_less:
  "parse_token s = (tt, tok, rest) \<Longrightarrow> \<not> ends_scan tt \<Longrightarrow> length rest < length s"
  using parse_token_loop_less [of TOKEN_STATE_INITIAL_WHITESPACE s "[]"]
  by (simp add: parse_token_def)

section \<open>The tokens of the lexer\<close>

text \<open>
  \<open>wf_token\<close> describes the text of the tokens of kind \<open>TOKEN_TYPE_NORMAL\<close>: a quoted string up
  to its closing quote, with a backslash before a quote that does not close it, or a run of
  characters without delimiters that does not start like something else. The two directions
  are \<open>parse_token_wf\<close> (only such texts come out) and \<open>parse_token_print\<close> (every such text,
  followed by any delimiter, is read back as one token).
\<close>

fun quoted_tail :: "char \<Rightarrow> string \<Rightarrow> bool" where
  "quoted_tail q [] = False"
| "quoted_tail q (c # cs) =
     (if c = backslash \<and> cs \<noteq> [] \<and> hd cs = q then quoted_tail q (tl cs)
      else if c = q then cs = []
      else quoted_tail q cs)"

definition token_start :: "char \<Rightarrow> bool" where
  "token_start c \<longleftrightarrow>
     c \<notin> {CHR ''{'', CHR ''}'', CHR ''#'', quote2, quote1, CHR '';'', space, tab, newline, creturn}"

definition wf_token :: "string \<Rightarrow> bool" where
  "wf_token t =
     (case t of
        [] \<Rightarrow> False
      | c # cs \<Rightarrow>
          if c = quote2 then quoted_tail quote2 cs
          else if c = quote1 then quoted_tail quote1 cs
          else token_start c \<and> list_all (\<lambda>x. \<not> delimiter x) cs)"

lemma normal_scan:
  "parse_token_loop TOKEN_STATE_TOKEN_TYPE_NORMAL cs v = (TOKEN_TYPE_NORMAL, w, rest) \<Longrightarrow>
   \<exists>u d r. w = v @ u \<and> list_all (\<lambda>x. \<not> delimiter x) u \<and> rest = d # r \<and> delimiter d"
proof (induction cs arbitrary: v)
  case Nil
  then show ?case by simp
next
  case (Cons c cs)
  show ?case
  proof (cases "delimiter c")
    case True
    with Cons.prems show ?thesis by auto
  next
    case False
    with Cons.prems
    have "parse_token_loop TOKEN_STATE_TOKEN_TYPE_NORMAL cs (v @ [c]) = (TOKEN_TYPE_NORMAL, w, rest)"
      by simp
    from Cons.IH [OF this] obtain u d r where "w = v @ c # u" "list_all (\<lambda>x. \<not> delimiter x) u"
      "rest = d # r" "delimiter d" by auto
    with False show ?thesis by (intro exI [of _ "c # u"]) simp
  qed
qed

lemma normal_print:
  "list_all (\<lambda>x. \<not> delimiter x) u \<Longrightarrow> delimiter d \<Longrightarrow>
   parse_token_loop TOKEN_STATE_TOKEN_TYPE_NORMAL (u @ d # r) v = (TOKEN_TYPE_NORMAL, v @ u, d # r)"
  by (induction u arbitrary: v) auto

lemma close_quote_normal:
  "close_quote cs v = (TOKEN_TYPE_NORMAL, w, rest) \<Longrightarrow> w = v \<and> (\<exists>d r. rest = d # r \<and> delimiter d)"
  by (cases cs) (auto split: if_splits)

text \<open>The two quote states are the same machine up to the quote character.\<close>

definition quote_state :: "char \<Rightarrow> token_state" where
  "quote_state q = (if q = quote2 then TOKEN_STATE_DOUBLE_QUOTE else TOKEN_STATE_SINGLE_QUOTE)"

definition is_quote :: "char \<Rightarrow> bool" where
  "is_quote q \<longleftrightarrow> q = quote2 \<or> q = quote1"

lemma quote_step:
  "is_quote q \<Longrightarrow> parse_token_loop (quote_state q) (c # cs) val =
     (if c = backslash \<and> cs \<noteq> [] \<and> hd cs = q
        then parse_token_loop (quote_state q) (tl cs) (val @ [c, q])
      else if c = q then close_quote cs (val @ [c])
      else parse_token_loop (quote_state q) cs (val @ [c]))"
  by (cases "q = quote2") (auto simp: quote_state_def is_quote_def)

lemma quote_cases:
  assumes "is_quote q"
  shows "c = backslash \<and> cs \<noteq> [] \<and> hd cs = q \<Longrightarrow> parse_token_loop (quote_state q) (c # cs) val =
      parse_token_loop (quote_state q) (tl cs) (val @ [c, q])"
    and "\<not> (c = backslash \<and> cs \<noteq> [] \<and> hd cs = q) \<Longrightarrow> c = q \<Longrightarrow>
      parse_token_loop (quote_state q) (c # cs) val = close_quote cs (val @ [c])"
    and "\<not> (c = backslash \<and> cs \<noteq> [] \<and> hd cs = q) \<Longrightarrow> c \<noteq> q \<Longrightarrow>
      parse_token_loop (quote_state q) (c # cs) val =
      parse_token_loop (quote_state q) cs (val @ [c])"
  by (simp_all only: quote_step [OF assms] if_True if_False simp_thms)

lemma quote_end: "fst (parse_token_loop (quote_state q) [] v) = TOKEN_TYPE_ERROR"
  by (simp add: quote_state_def)

lemma quoted_scan:
  "is_quote q \<Longrightarrow> parse_token_loop (quote_state q) cs v = (TOKEN_TYPE_NORMAL, w, rest) \<Longrightarrow>
   \<exists>u d r. w = v @ u \<and> cs = u @ rest \<and> quoted_tail q u \<and> rest = d # r \<and> delimiter d"
proof (induction q cs arbitrary: v rule: quoted_tail.induct)
  case (1 q)
  then show ?case using quote_end [of q v] by simp
next
  case (2 q c cs)
  consider (esc) "c = backslash \<and> cs \<noteq> [] \<and> hd cs = q"
    | (close) "\<not> (c = backslash \<and> cs \<noteq> [] \<and> hd cs = q)" "c = q"
    | (body) "\<not> (c = backslash \<and> cs \<noteq> [] \<and> hd cs = q)" "c \<noteq> q" by blast
  then show ?case
  proof cases
    case esc
    with 2 have "parse_token_loop (quote_state q) (tl cs) (v @ [c, q]) = (TOKEN_TYPE_NORMAL, w, rest)"
      using quote_cases(1) [OF "2.prems"(1) esc] by simp
    with "2.IH"(1) [OF esc "2.prems"(1)] obtain u d r where "w = v @ c # q # u"
      "tl cs = u @ rest" "quoted_tail q u" "rest = d # r" "delimiter d" by fastforce
    with esc show ?thesis by (intro exI [of _ "c # q # u"]) (cases cs, simp_all)
  next
    case close
    with 2 have "close_quote cs (v @ [c]) = (TOKEN_TYPE_NORMAL, w, rest)"
      using quote_cases(2) [OF "2.prems"(1) close] by simp
    with close(2) show ?thesis
      by (intro exI [of _ "[c]"]) (cases cs, auto dest: close_quote_normal split: if_splits)
  next
    case body
    with 2 have "parse_token_loop (quote_state q) cs (v @ [c]) = (TOKEN_TYPE_NORMAL, w, rest)"
      using quote_cases(3) [OF "2.prems"(1) body] by simp
    with "2.IH"(2) [OF body "2.prems"(1)] obtain u d r where u: "w = v @ c # u" "cs = u @ rest"
      "quoted_tail q u" "rest = d # r" "delimiter d" by fastforce
    then have "u \<noteq> []" by auto
    with u body show ?thesis by (intro exI [of _ "c # u"]) auto
  qed
qed

lemma quoted_print:
  "is_quote q \<Longrightarrow> quoted_tail q u \<Longrightarrow> delimiter d \<Longrightarrow>
   parse_token_loop (quote_state q) (u @ d # r) v = (TOKEN_TYPE_NORMAL, v @ u, d # r)"
proof (induction q u arbitrary: v rule: quoted_tail.induct)
  case (1 q)
  then show ?case by simp
next
  case (2 q c cs)
  consider (esc) "c = backslash \<and> cs \<noteq> [] \<and> hd cs = q"
    | (close) "\<not> (c = backslash \<and> cs \<noteq> [] \<and> hd cs = q)" "c = q"
    | (body) "\<not> (c = backslash \<and> cs \<noteq> [] \<and> hd cs = q)" "c \<noteq> q" by blast
  then show ?case
  proof cases
    case esc
    then obtain cs' where "cs = q # cs'" by (cases cs) auto
    with esc "2.IH"(1) [OF esc "2.prems"(1)] "2.prems" show ?thesis by (simp add: quote_step)
  next
    case close
    with "2.prems" have "cs = []" by (auto split: if_splits)
    with close "2.prems" show ?thesis
      by (auto simp: quote_step is_quote_def delimiter_def)
  next
    case body
    with "2.prems" have "quoted_tail q cs" by auto
    moreover from this have "cs \<noteq> []" by auto
    ultimately show ?thesis
      using body "2.IH"(2) [OF body "2.prems"(1)] "2.prems" by (auto simp: quote_step)
  qed
qed

text \<open>White space is skipped; the single-character tokens.\<close>

lemma parse_token_blank [simp]:
  "parse_token (space # s) = parse_token s" "parse_token (tab # s) = parse_token s"
  "parse_token (newline # s) = parse_token s" "parse_token (creturn # s) = parse_token s"
  by (simp_all add: parse_token_def)

lemma parse_token_single [simp]:
  "parse_token [] = (TOKEN_TYPE_EOF, [], [])"
  "parse_token (CHR ''{'' # s) = (TOKEN_TYPE_START_BLOCK, ''{'', s)"
  "parse_token (CHR ''}'' # s) = (TOKEN_TYPE_END_BLOCK, ''}'', s)"
  "parse_token (CHR '';'' # s) = (TOKEN_TYPE_STATEMENT_END, '';'', s)"
  by (simp_all add: parse_token_def)

lemma parse_token_start:
  "token_start c \<Longrightarrow> parse_token (c # s) = parse_token_loop TOKEN_STATE_TOKEN_TYPE_NORMAL s [c]"
  "is_quote q \<Longrightarrow> parse_token (q # s) = parse_token_loop (quote_state q) s [q]"
  by (simp_all add: parse_token_def token_start_def)
    (auto simp: is_quote_def quote_state_def)

lemma comment_scan:
  "fst (parse_token_loop TOKEN_STATE_TOKEN_TYPE_COMMENT cs v) \<in> {TOKEN_TYPE_COMMENT, TOKEN_TYPE_EOF}"
  by (induction cs arbitrary: v) auto

lemma parse_token_comment: "fst (parse_token (CHR ''#'' # s)) \<noteq> TOKEN_TYPE_NORMAL"
  using comment_scan [of s "''#''"] by (auto simp: parse_token_def)

lemma parse_token_wf:
  "parse_token s = (TOKEN_TYPE_NORMAL, w, rest) \<Longrightarrow>
   wf_token w \<and> (\<exists>d r. rest = d # r \<and> delimiter d)"
proof (induction s)
  case Nil
  then show ?case by simp
next
  case (Cons c cs)
  consider (blank) "c \<in> {space, tab, newline, creturn}"
    | (single) "c \<in> {CHR ''{'', CHR ''}'', CHR '';''}" | (comment) "c = CHR ''#''"
    | (quoted) "is_quote c" | (plain) "token_start c"
    by (auto simp: token_start_def is_quote_def)
  then show ?case
  proof cases
    case blank
    with Cons.prems have "parse_token cs = (TOKEN_TYPE_NORMAL, w, rest)" by auto
    then show ?thesis by (rule Cons.IH)
  next
    case single
    with Cons.prems show ?thesis by auto
  next
    case comment
    with Cons.prems parse_token_comment [of cs] show ?thesis by simp
  next
    case quoted
    with Cons.prems have "parse_token_loop (quote_state c) cs [c] = (TOKEN_TYPE_NORMAL, w, rest)"
      by (simp add: parse_token_start)
    from quoted_scan [OF quoted this] obtain u d r
      where "w = c # u" "quoted_tail c u" "rest = d # r" "delimiter d" by auto
    with quoted show ?thesis by (auto simp: wf_token_def is_quote_def)
  next
    case plain
    with Cons.prems
    have "parse_token_loop TOKEN_STATE_TOKEN_TYPE_NORMAL cs [c] = (TOKEN_TYPE_NORMAL, w, rest)"
      by (simp add: parse_token_start)
    from normal_scan [OF this] obtain u d r
      where "w = c # u" "list_all (\<lambda>x. \<not> delimiter x) u" "rest = d # r" "delimiter d" by auto
    with plain show ?thesis by (auto simp: wf_token_def token_start_def)
  qed
qed

lemma parse_token_print:
  assumes "wf_token w" and "delimiter d"
  shows "parse_token (w @ d # r) = (TOKEN_TYPE_NORMAL, w, d # r)"
proof -
  from assms(1) obtain c u where w: "w = c # u"
    and "is_quote c \<and> quoted_tail c u \<or> token_start c \<and> list_all (\<lambda>x. \<not> delimiter x) u"
    by (auto simp: wf_token_def is_quote_def split: list.splits if_splits)
  then show ?thesis
    using quoted_print [OF _ _ assms(2), of c u r "[c]"] normal_print [OF _ assms(2), of u r "[c]"]
    by (auto simp: parse_token_start)
qed

end
