(* ===== verification/Config_Parser.thy ===== *)
theory Config_Parser
  imports Config_Lexer
begin

text \<open>
  The configuration tree, \<open>ToString\<close> and \<open>NginxConfigParser::Parse\<close> of
  \<open>src/config_parser.cc\<close>. The code keeps a stack of pointers to the blocks being filled; each
  block below the top is the child of the last statement of the block under it. The model's
  stack holds, top first, the statements read so far of each of these blocks; \<open>unwind\<close> puts
  every block back as the child of the statement that opened it, which is the tree the
  pointers reach.
\<close>

section \<open>The tree and its text\<close>

datatype stmt = Stmt (tokens: "string list") (child_block: "config option")
  and config = Config (statements: "stmt list")

definition indent :: "nat \<Rightarrow> string" where
  "indent depth = concat (replicate depth ''  '')"

fun join_tokens :: "string list \<Rightarrow> string" where
  "join_tokens [] = []"
| "join_tokens [t] = t"
| "join_tokens (t # ts) = t @ '' '' @ join_tokens ts"

fun stmts_to_string :: "nat \<Rightarrow> stmt list \<Rightarrow> string" where
  "stmts_to_string depth [] = []"
| "stmts_to_string depth (Stmt toks None # ss) =
     indent depth @ join_tokens toks @ '';'' @ [newline] @ stmts_to_string depth ss"
| "stmts_to_string depth (Stmt toks (Some (Config cs)) # ss) =
     indent depth @ join_tokens toks @ '' {'' @ [newline] @
     stmts_to_string (Suc depth) cs @ indent depth @ ''}'' @ [newline] @
     stmts_to_string depth ss"

definition to_string :: "config \<Rightarrow> nat \<Rightarrow> string" where
  "to_string c depth = stmts_to_string depth (statements c)"

section \<open>The parser\<close>

definition add_child :: "stmt list \<Rightarrow> stmt list \<Rightarrow> stmt list" where
  \<comment> \<open>the block \<open>cs\<close> is the child of the last statement\<close>
  "add_child cs ss = butlast ss @ [Stmt (tokens (last ss)) (Some (Config cs))]"

fun unwind :: "stmt list list \<Rightarrow> config" where
  "unwind [] = Config []"
| "unwind [ss] = Config ss"
| "unwind (cs # ss # stk) = unwind (add_child cs ss # stk)"

definition push_token :: "bool \<Rightarrow> string \<Rightarrow> stmt list \<Rightarrow> stmt list" where
  \<comment> \<open>a token of a statement that has begun, or the first of a new one\<close>
  "push_token begun tok ss =
     (if begun then butlast ss @ [Stmt (tokens (last ss) @ [tok]) (child_block (last ss))]
      else ss @ [Stmt [tok] None])"

datatype outcome =
    Go "stmt list list" token_type   \<comment> \<open>the stack and \<open>last_token_type\<close>\<close>
  | Accept
  | Reject

fun parse_step :: "token_type \<Rightarrow> string \<Rightarrow> stmt list list \<Rightarrow> token_type \<Rightarrow> outcome" where
  \<comment> \<open>one turn of the loop, for a token that is not a comment\<close>
  "parse_step TOKEN_TYPE_NORMAL tok stk lst =
     (if lst \<in> {TOKEN_TYPE_START, TOKEN_TYPE_STATEMENT_END, TOKEN_TYPE_START_BLOCK,
                TOKEN_TYPE_END_BLOCK, TOKEN_TYPE_NORMAL}
      then Go (push_token (lst = TOKEN_TYPE_NORMAL) tok (hd stk) # tl stk) TOKEN_TYPE_NORMAL
      else Reject)"
| "parse_step TOKEN_TYPE_STATEMENT_END tok stk lst =
     (if lst \<noteq> TOKEN_TYPE_NORMAL then Reject else Go stk TOKEN_TYPE_STATEMENT_END)"
| "parse_step TOKEN_TYPE_START_BLOCK tok stk lst =
     (if lst \<noteq> TOKEN_TYPE_NORMAL then Reject else Go ([] # stk) TOKEN_TYPE_START_BLOCK)"
| "parse_step TOKEN_TYPE_END_BLOCK tok stk lst =
     (if lst \<notin> {TOKEN_TYPE_STATEMENT_END, TOKEN_TYPE_START_BLOCK, TOKEN_TYPE_END_BLOCK}
      then Reject
      else if length stk = 1 then Reject
      else Go (add_child (hd stk) (hd (tl stk)) # tl (tl stk)) TOKEN_TYPE_END_BLOCK)"
| "parse_step TOKEN_TYPE_EOF tok stk lst =
     (if lst \<notin> {TOKEN_TYPE_STATEMENT_END, TOKEN_TYPE_END_BLOCK, TOKEN_TYPE_START}
      then Reject else Accept)"
| "parse_step _ tok stk lst = Reject"

function parse_loop :: "string \<Rightarrow> stmt list list \<Rightarrow> token_type \<Rightarrow> bool \<times> config" where
  "parse_loop input stk lst =
     (case parse_token input of (tt, tok, rest) \<Rightarrow>
        if tt = TOKEN_TYPE_COMMENT then parse_loop rest stk lst
        else if ends_scan tt then (parse_step tt tok stk lst = Accept, unwind stk)
        else (case parse_step tt tok stk lst of
                Go stk' lst' \<Rightarrow> parse_loop rest stk' lst'
              | Accept \<Rightarrow> (True, unwind stk)
              | Reject \<Rightarrow> (False, unwind stk)))"
  by pat_completeness auto
termination
  by (relation "measure (\<lambda>(input, _, _). length input)")
    (auto dest!: sym [of "(_, _, _)"] parse_token_less simp: ends_scan_def)

declare parse_loop.simps [simp del]

definition parse :: "string \<Rightarrow> bool \<times> config" where
  "parse config_file = parse_loop config_file [[]] TOKEN_TYPE_START"

section \<open>The turns of the loop\<close>

text \<open>
  One turn of \<open>while (true)\<close> that goes on, as a relation on the rest of the file, the stack and
  \<open>last_token_type\<close>, and the answer the loop gives where no turn goes on.
\<close>

inductive parser_turn ::
    "string \<times> stmt list list \<times> token_type \<Rightarrow> string \<times> stmt list list \<times> token_type \<Rightarrow> bool" where
  skip: "parse_token input = (TOKEN_TYPE_COMMENT, tok, rest) \<Longrightarrow> parser_turn (input, stk, lst) (rest, stk, lst)"
| turn: "parse_token input = (tt, tok, rest) \<Longrightarrow> tt \<noteq> TOKEN_TYPE_COMMENT \<Longrightarrow>
    parse_step tt tok stk lst = Go stk' lst' \<Longrightarrow> parser_turn (input, stk, lst) (rest, stk', lst')"

inductive_cases parser_turnE: "parser_turn (input, stk, lst) st"

definition loop_answer :: "string \<times> stmt list list \<times> token_type \<Rightarrow> bool \<times> config" where
  "loop_answer st =
     (case st of (input, stk, lst) \<Rightarrow>
        case parse_token input of (tt, tok, rest) \<Rightarrow> (parse_step tt tok stk lst = Accept, unwind stk))"

lemma go_not_end: "parse_step tt tok stk lst = Go stk' lst' \<Longrightarrow> \<not> ends_scan tt"
  by (cases tt) (auto simp: ends_scan_def split: if_splits)

lemma parser_turn_shorter: "parser_turn st st' \<Longrightarrow> length (fst st') < length (fst st)"
  by (induction rule: parser_turn.induct)
    (auto dest: parse_token_less go_not_end simp: ends_scan_def)

lemma parser_turns_shorter: "(parser_turn ^^ n) st st' \<Longrightarrow> length (fst st') + n \<le> length (fst st)"
proof (induction n arbitrary: st')
  case 0
  then show ?case by simp
next
  case (Suc n)
  from Suc.prems obtain m where "(parser_turn ^^ n) st m" "parser_turn m st'" by (auto elim: relcomppE)
  with Suc.IH parser_turn_shorter show ?case by fastforce
qed

lemma parse_loop_turn: "parser_turn (input, stk, lst) (input', stk', lst') \<Longrightarrow>
  parse_loop input stk lst = parse_loop input' stk' lst'"
  by (erule parser_turnE) (auto simp: parse_loop.simps [of input] dest: go_not_end)

lemma parse_loop_stop:
  assumes "\<nexists>st'. parser_turn (input, stk, lst) st'"
  shows "parse_loop input stk lst = loop_answer (input, stk, lst)"
proof -
  obtain tt tok rest where t: "parse_token input = (tt, tok, rest)" by (cases "parse_token input")
  with assms have c: "tt \<noteq> TOKEN_TYPE_COMMENT" by (blast intro: parser_turn.skip)
  with assms t have "parse_step tt tok stk lst \<noteq> Go stk' lst'" for stk' lst'
    by (blast intro: parser_turn.turn)
  with t c show ?thesis
    by (cases "parse_step tt tok stk lst") (auto simp: parse_loop.simps [of input] loop_answer_def)
qed

lemma parse_loop_reaches:
  "\<exists>n st. (parser_turn ^^ n) (input, stk, lst) st \<and> (\<nexists>st'. parser_turn st st') \<and>
     parse_loop input stk lst = loop_answer st"
proof (induction "length input" arbitrary: input stk lst rule: less_induct)
  case less
  show ?case
  proof (cases "\<exists>st'. parser_turn (input, stk, lst) st'")
    case True
    then obtain input' stk' lst' where one: "parser_turn (input, stk, lst) (input', stk', lst')"
      by (metis prod_cases3)
    then have "length input' < length input" using parser_turn_shorter by fastforce
    from less.hyps [OF this, of stk' lst'] obtain n st where
      "(parser_turn ^^ n) (input', stk', lst') st" "\<nexists>st'. parser_turn st st'"
      "parse_loop input' stk' lst' = loop_answer st" by blast
    moreover from one this(1) have "(parser_turn ^^ Suc n) (input, stk, lst) st" by (rule relpowp_Suc_I2)
    ultimately show ?thesis unfolding parse_loop_turn [OF one] by blast
  next
    case False
    then show ?thesis
      by (intro exI [of _ 0] exI [of _ "(input, stk, lst)"]) (auto simp: parse_loop_stop)
  qed
qed

section \<open>Reading back what was printed\<close>

fun wf_stmts :: "stmt list \<Rightarrow> bool" where
  \<comment> \<open>every statement has a token, and every token is one the lexer reads back\<close>
  "wf_stmts [] = True"
| "wf_stmts (Stmt toks None # ss) = (toks \<noteq> [] \<and> list_all wf_token toks \<and> wf_stmts ss)"
| "wf_stmts (Stmt toks (Some (Config cs)) # ss) =
     (toks \<noteq> [] \<and> list_all wf_token toks \<and> wf_stmts cs \<and> wf_stmts ss)"

definition wf_config :: "config \<Rightarrow> bool" where
  "wf_config c = wf_stmts (statements c)"

lemma parse_token_indent [simp]: "parse_token (indent d @ s) = parse_token s"
  by (induction d) (simp_all add: indent_def)

lemma parse_loop_cong:
  "parse_token s = parse_token t \<Longrightarrow> parse_loop s stk lst = parse_loop t stk lst"
  by (subst (1 2) parse_loop.simps) simp

lemma parse_loop_blank [simp]:
  "parse_loop (indent d @ s) stk lst = parse_loop s stk lst"
  "parse_loop (newline # s) stk lst = parse_loop s stk lst"
  "parse_loop (space # s) stk lst = parse_loop s stk lst"
  by (rule parse_loop_cong, simp)+

lemma parse_loop_go:
  "parse_token s = (tt, tok, rest) \<Longrightarrow> parse_step tt tok stk lst = Go stk' lst' \<Longrightarrow>
   tt \<noteq> TOKEN_TYPE_COMMENT \<Longrightarrow> \<not> ends_scan tt \<Longrightarrow>
   parse_loop s stk lst = parse_loop rest stk' lst'"
  by (subst parse_loop.simps) simp

definition between :: "token_type \<Rightarrow> bool" where
  \<comment> \<open>the last tokens after which a statement can begin\<close>
  "between lst \<longleftrightarrow> lst \<in> {TOKEN_TYPE_START, TOKEN_TYPE_STATEMENT_END,
     TOKEN_TYPE_START_BLOCK, TOKEN_TYPE_END_BLOCK}"

lemma parse_more_tokens:
  "list_all wf_token ts \<Longrightarrow> delimiter d \<Longrightarrow>
   parse_loop (concat (map (\<lambda>t. space # t) ts) @ d # r) ((ss @ [Stmt us None]) # stk) TOKEN_TYPE_NORMAL =
   parse_loop (d # r) ((ss @ [Stmt (us @ ts) None]) # stk) TOKEN_TYPE_NORMAL"
proof (induction ts arbitrary: us)
  case Nil
  then show ?case by simp
next
  case (Cons t ts)
  let ?tail = "concat (map (\<lambda>t. space # t) ts) @ d # r"
  obtain e s where e: "?tail = e # s" "delimiter e"
    using Cons.prems(2) by (cases ts) (auto simp: delimiter_def)
  have "parse_token (t @ ?tail) = (TOKEN_TYPE_NORMAL, t, ?tail)"
    unfolding e(1) by (rule parse_token_print) (use Cons.prems e in auto)
  from parse_loop_go [OF this] have
    "parse_loop (t @ ?tail) ((ss @ [Stmt us None]) # stk) TOKEN_TYPE_NORMAL =
     parse_loop ?tail ((ss @ [Stmt (us @ [t]) None]) # stk) TOKEN_TYPE_NORMAL"
    by (simp add: push_token_def ends_scan_def)
  also have "\<dots> = parse_loop (d # r) ((ss @ [Stmt (us @ t # ts) None]) # stk) TOKEN_TYPE_NORMAL"
    using Cons by simp
  finally show ?case by simp
qed

lemma join_tokens_Cons: "join_tokens (t # ts) = t @ concat (map (\<lambda>t. space # t) ts)"
  by (induction ts arbitrary: t) auto

lemma parse_join_tokens:
  assumes "toks \<noteq> []" and "list_all wf_token toks" and "delimiter d" and "between lst"
  shows "parse_loop (join_tokens toks @ d # r) (ss # stk) lst =
    parse_loop (d # r) ((ss @ [Stmt toks None]) # stk) TOKEN_TYPE_NORMAL"
proof -
  obtain t ts where toks: "toks = t # ts" using assms(1) by (cases toks) auto
  let ?tail = "concat (map (\<lambda>t. space # t) ts) @ d # r"
  obtain e s where e: "?tail = e # s" "delimiter e"
    using assms(3) by (cases ts) (auto simp: delimiter_def)
  have "parse_token (t @ ?tail) = (TOKEN_TYPE_NORMAL, t, ?tail)"
    unfolding e(1) by (rule parse_token_print) (use assms toks e in auto)
  from parse_loop_go [OF this] have
    "parse_loop (t @ ?tail) (ss # stk) lst =
     parse_loop ?tail ((ss @ [Stmt [t] None]) # stk) TOKEN_TYPE_NORMAL"
    using assms(4) by (auto simp: push_token_def ends_scan_def between_def)
  then show ?thesis
    using parse_more_tokens [of ts d r ss "[t]" stk] assms(2,3) by (simp add: toks join_tokens_Cons)
qed

fun end_of :: "token_type \<Rightarrow> stmt list \<Rightarrow> token_type" where
  "end_of lst [] = lst"
| "end_of lst (Stmt toks None # ss) = end_of TOKEN_TYPE_STATEMENT_END ss"
| "end_of lst (Stmt toks (Some _) # ss) = end_of TOKEN_TYPE_END_BLOCK ss"

lemma between_end_of: "between lst \<Longrightarrow> between (end_of lst ss)"
  by (induction lst ss rule: end_of.induct) (auto simp: between_def)

lemma end_of_start: "lst \<noteq> TOKEN_TYPE_START \<Longrightarrow> end_of lst ss \<noteq> TOKEN_TYPE_START"
  by (induction lst ss rule: end_of.induct) auto

lemma end_of_block: "lst \<noteq> TOKEN_TYPE_START_BLOCK \<Longrightarrow> end_of lst ss \<noteq> TOKEN_TYPE_START_BLOCK"
  by (induction lst ss rule: end_of.induct) auto

lemma parse_print_stmts:
  "wf_stmts ss \<Longrightarrow> between lst \<Longrightarrow>
   parse_loop (stmts_to_string d ss @ rest) (us # stk) lst =
   parse_loop rest ((us @ ss) # stk) (end_of lst ss)"
proof (induction d ss arbitrary: us stk lst rest rule: stmts_to_string.induct)
  case (1 d)
  then show ?case by simp
next
  case (2 d toks ss)
  have semi: "parse_loop (CHR '';'' # s) ((us @ [Stmt toks None]) # stk) TOKEN_TYPE_NORMAL =
      parse_loop s ((us @ [Stmt toks None]) # stk) TOKEN_TYPE_STATEMENT_END" for s
    by (rule parse_loop_go [OF parse_token_single(4)]) (simp_all add: ends_scan_def)
  have "delimiter (CHR '';'')" by (simp add: delimiter_def)
  with 2 show ?case
    by (simp add: parse_join_tokens semi between_def)
next
  case (3 d toks cs ss)
  let ?s = "Stmt toks None"
  have op: "parse_loop (CHR ''{'' # s) ((us @ [?s]) # stk) TOKEN_TYPE_NORMAL =
      parse_loop s ([] # (us @ [?s]) # stk) TOKEN_TYPE_START_BLOCK" for s
    by (rule parse_loop_go [OF parse_token_single(2)]) (simp_all add: ends_scan_def)
  have cl: "parse_loop (CHR ''}'' # s) (cs # (us @ [?s]) # stk) (end_of TOKEN_TYPE_START_BLOCK cs) =
      parse_loop s ((us @ [Stmt toks (Some (Config cs))]) # stk) TOKEN_TYPE_END_BLOCK" for s
    using between_end_of [of TOKEN_TYPE_START_BLOCK cs] end_of_start [of TOKEN_TYPE_START_BLOCK cs]
    by (intro parse_loop_go [OF parse_token_single(3)]) (auto simp: ends_scan_def add_child_def between_def)
  have "delimiter space" by (simp add: delimiter_def)
  with 3 show ?case
    by (simp add: parse_join_tokens op cl between_def)
qed

lemma parse_print:
  assumes "wf_config c"
  shows "parse (to_string c d) = (True, c)"
proof -
  obtain ss where c: "c = Config ss" by (cases c)
  let ?lst = "end_of TOKEN_TYPE_START ss"
  have "between ?lst" by (rule between_end_of) (simp add: between_def)
  moreover have "?lst \<noteq> TOKEN_TYPE_START_BLOCK"
    by (rule end_of_block) simp
  ultimately have stop: "parse_loop [] [ss] ?lst = (True, c)"
    by (subst parse_loop.simps) (auto simp: c ends_scan_def between_def)
  have "parse (to_string c d) = parse_loop [] [[] @ ss] ?lst"
    unfolding parse_def to_string_def
    using parse_print_stmts [of ss TOKEN_TYPE_START d "[]" "[]" "[]"] assms
    by (simp add: c wf_config_def between_def)
  then show ?thesis by (simp add: stop)
qed

section \<open>What the parser builds\<close>

lemma wf_stmts_append [simp]: "wf_stmts (xs @ ys) \<longleftrightarrow> wf_stmts xs \<and> wf_stmts ys"
  by (induction xs rule: wf_stmts.induct) auto

lemma wf_stmts_snoc_last:
  "ss \<noteq> [] \<Longrightarrow> wf_stmts ss \<longleftrightarrow> wf_stmts (butlast ss) \<and> wf_stmts [last ss]"
  by (metis append_butlast_last_id wf_stmts_append)

lemma wf_last_tokens:
  "ss \<noteq> [] \<Longrightarrow> wf_stmts ss \<Longrightarrow> tokens (last ss) \<noteq> [] \<and> list_all wf_token (tokens (last ss))"
  by (cases "[last ss]" rule: wf_stmts.cases) (auto simp: wf_stmts_snoc_last)

lemma wf_add_child:
  "ss \<noteq> [] \<Longrightarrow> wf_stmts ss \<Longrightarrow> wf_stmts cs \<Longrightarrow> wf_stmts (add_child cs ss)"
  using wf_last_tokens [of ss] wf_stmts_snoc_last [of ss] by (simp add: add_child_def)

lemma wf_push_token:
  assumes "wf_stmts ss" and "wf_token t" and "b \<Longrightarrow> ss \<noteq> []"
  shows "wf_stmts (push_token b t ss) \<and> push_token b t ss \<noteq> []"
proof (cases b)
  case False
  with assms show ?thesis by (simp add: push_token_def)
next
  case True
  then have ss: "wf_stmts (butlast ss)" "wf_stmts [last ss]" "tokens (last ss) \<noteq> []"
    using assms wf_stmts_snoc_last [of ss] wf_last_tokens [of ss] by auto
  then have "wf_stmts [Stmt (tokens (last ss) @ [t]) (child_block (last ss))]"
    by (cases "[last ss]" rule: wf_stmts.cases) (use assms in auto)
  with True ss show ?thesis by (simp add: push_token_def)
qed

text \<open>
  The invariant of the loop: the stack is never empty, its blocks are well formed, every
  block under the top ends with the statement whose child is open, and so does the top
  block while a statement is being read.
\<close>

definition stack_inv :: "stmt list list \<Rightarrow> token_type \<Rightarrow> bool" where
  "stack_inv stk lst \<longleftrightarrow> stk \<noteq> [] \<and> list_all wf_stmts stk \<and> list_all (\<lambda>ss. ss \<noteq> []) (tl stk) \<and>
     (lst = TOKEN_TYPE_NORMAL \<longrightarrow> hd stk \<noteq> [])"

lemma stack_inv_start [inv_intros]: "stack_inv [[]] TOKEN_TYPE_START"
  by (simp add: stack_inv_def)

lemma stack_inv_step [inv_intros]:
  assumes "stack_inv stk lst" and "parse_step tt tok stk lst = Go stk' lst'"
    and "tt = TOKEN_TYPE_NORMAL \<Longrightarrow> wf_token tok"
  shows "stack_inv stk' lst'"
proof -
  obtain ss rest where stk: "stk = ss # rest" using assms(1) by (cases stk) (auto simp: stack_inv_def)
  show ?thesis
  proof (cases tt)
    case TOKEN_TYPE_NORMAL
    with assms stk show ?thesis
      using wf_push_token [of ss tok "lst = TOKEN_TYPE_NORMAL"]
      by (auto simp: stack_inv_def split: if_splits)
  next
    case TOKEN_TYPE_END_BLOCK
    with assms stk obtain us more where "rest = us # more"
      by (cases rest) (auto split: if_splits)
    with TOKEN_TYPE_END_BLOCK assms stk wf_add_child [of us ss] show ?thesis
      by (auto simp: stack_inv_def split: if_splits)
  qed (use assms stk in \<open>auto simp: stack_inv_def split: if_splits\<close>)
qed

lemma unwind_wf: "stack_inv stk lst \<Longrightarrow> wf_config (unwind stk)"
proof (induction stk arbitrary: lst rule: unwind.induct)
  case (3 cs ss stk)
  then have "stack_inv (add_child cs ss # stk) TOKEN_TYPE_END_BLOCK"
    using wf_add_child [of ss cs] by (simp add: stack_inv_def)
  then show ?case using "3.IH" by simp
qed (auto simp: stack_inv_def wf_config_def)

lemma parse_loop_wf: "stack_inv stk lst \<Longrightarrow> wf_config (snd (parse_loop input stk lst))"
proof (induction input stk lst rule: parse_loop.induct)
  case (1 input stk lst)
  obtain tt tok rest where tok: "parse_token input = (tt, tok, rest)" by (cases "parse_token input")
  have stop: "wf_config (unwind stk)" using "1.prems" by (rule unwind_wf)
  show ?case
  proof (cases "tt = TOKEN_TYPE_COMMENT \<or> ends_scan tt")
    case True
    with 1 tok stop show ?thesis by (subst parse_loop.simps) auto
  next
    case False
    then have tt: "tt \<noteq> TOKEN_TYPE_COMMENT" "\<not> ends_scan tt" by auto
    show ?thesis
    proof (cases "parse_step tt tok stk lst")
      case (Go stk' lst')
      have "stack_inv stk' lst'"
        using stack_inv_step [OF "1.prems" Go] parse_token_wf tok by auto
      with "1.IH"(2) [OF tok [symmetric] _ tt Go] tok tt Go show ?thesis
        by (simp add: parse_loop.simps [of input])
    qed (use tok tt stop in \<open>simp_all add: parse_loop.simps [of input]\<close>)
  qed
qed

lemma parse_wf: "wf_config (snd (parse s))"
  unfolding parse_def by (rule parse_loop_wf) (rule inv_intros)

text \<open>A block that is still open at the end of the file is closed silently.\<close>

lemma parse_open_block:
  assumes "toks \<noteq> []" and "list_all wf_token toks" and "wf_stmts cs" and "cs \<noteq> []"
  shows "parse (join_tokens toks @ '' {'' @ [newline] @ stmts_to_string 1 cs) =
    (True, Config [Stmt toks (Some (Config cs))])"
proof -
  let ?lst = "end_of TOKEN_TYPE_START_BLOCK cs"
  have op: "parse_loop (CHR ''{'' # s) [[Stmt toks None]] TOKEN_TYPE_NORMAL =
      parse_loop s [[], [Stmt toks None]] TOKEN_TYPE_START_BLOCK" for s
    by (rule parse_loop_go [OF parse_token_single(2)]) (simp_all add: ends_scan_def)
  have body: "parse_loop (stmts_to_string (Suc 0) cs) [[], [Stmt toks None]] TOKEN_TYPE_START_BLOCK =
      parse_loop [] [cs, [Stmt toks None]] ?lst"
    using parse_print_stmts [OF assms(3), of TOKEN_TYPE_START_BLOCK 1 "[]" "[]"]
    by (simp add: between_def)
  have "?lst = TOKEN_TYPE_STATEMENT_END \<or> ?lst = TOKEN_TYPE_END_BLOCK"
  proof -
    obtain s ss where cs: "cs = s # ss" using assms(4) by (cases cs) auto
    have "end_of l ss \<noteq> TOKEN_TYPE_START_BLOCK" "end_of l ss \<noteq> TOKEN_TYPE_START" "between (end_of l ss)"
      if "l \<in> {TOKEN_TYPE_STATEMENT_END, TOKEN_TYPE_END_BLOCK}" for l
      using that end_of_block [of l ss] end_of_start [of l ss] between_end_of [of l ss]
      by (auto simp: between_def)
    then show ?thesis
      by (cases "(TOKEN_TYPE_START_BLOCK, cs)" rule: end_of.cases) (auto simp: cs between_def)
  qed
  then have "parse_loop [] [cs, [Stmt toks None]] ?lst =
      (True, Config [Stmt toks (Some (Config cs))])"
    by (subst parse_loop.simps) (auto simp: ends_scan_def add_child_def)
  moreover have "delimiter space" "between TOKEN_TYPE_START"
    by (simp_all add: delimiter_def between_def)
  ultimately show ?thesis
    using parse_join_tokens [OF assms(1,2), of space TOKEN_TYPE_START _ "[]" "[]"]
    by (simp add: parse_def op body)
qed

section \<open>Properties\<close>

definition sample_config :: config where
  "sample_config = Config
     [Stmt [''port'', ''8080''] None,
      Stmt [''location'', ''/static/'', ''StaticHandler'']
        (Some (Config [Stmt [''root'', [quote2] @ ''a b'' @ [quote2]] None])),
      Stmt [''location'', ''/echo'', ''EchoHandler''] (Some (Config []))]"

lemma sample_config_wf: "wf_config sample_config"
  by (simp add: sample_config_def wf_config_def wf_token_def token_start_def delimiter_def)

text \<open>
  C8: printing a configuration with \<open>ToString\<close> at any depth and parsing the text gives back
  exactly that configuration: statements, their tokens and nested blocks, for every
  configuration in which each statement has a token and each token is one the lexer reads
  (quoted strings and escapes included).
\<close>
theorem parse_to_string:
  assumes "wf_config c"
  shows "parse (to_string c d) = (True, c)"
  using assms by (rule parse_print)

theorem parse_to_string_witness:
  "wf_config sample_config \<and> parse (to_string sample_config 1) = (True, sample_config)"
  using sample_config_wf parse_to_string [OF sample_config_wf, of 1] by simp

text \<open>
  C31: whatever the parser leaves in the configuration, for any file, accepted or not, is well
  formed: every statement at every depth has a first token, so that the unchecked
  \<open>tokens_[0]\<close> of the queries is in range; and printing that configuration gives a file that is
  accepted and parses to the same configuration.
\<close>
theorem parse_reprint:
  "wf_config (snd (parse input)) \<and>
   parse (to_string (snd (parse input)) 0) = (True, snd (parse input))"
  using parse_wf [of input] parse_print [of "snd (parse input)" 0] by simp


text \<open>
  A block that is never closed is accepted: for any head of a statement and any nonempty
  list of well-formed statements, the file that opens a block, lists the statements and ends
  there parses successfully, with the statements as the block.
\<close>
lemma parse_accepts_unclosed:
  assumes "toks \<noteq> []" and "list_all wf_token toks" and "wf_stmts cs" and "cs \<noteq> []"
  shows "parse (join_tokens toks @ '' {'' @ [newline] @ stmts_to_string 1 cs) =
    (True, Config [Stmt toks (Some (Config cs))])"
  using assms by (rule parse_open_block)

end
