(* ===== verification/Std_Map.thy ===== *)
theory Std_Map
  imports Cpp_Std
begin

text \<open>
  \<open>std::map\<close>: the entries in increasing key order, as iteration visits them. The interface the
  rest of the model relies on is the locale \<open>keyed_store\<close> (what a lookup returns after an
  insertion, and that insertion keeps the order), with the facts about building a map from a
  list of entries proved once inside it; the association list is its interpretation.
\<close>

section \<open>The interface\<close>

locale keyed_store =
  fixes none :: "'m"
    and put :: "'k \<Rightarrow> 'v \<Rightarrow> 'm \<Rightarrow> 'm"
    and get :: "'m \<Rightarrow> 'k \<Rightarrow> 'v option"
    and ok :: "'m \<Rightarrow> bool"
  assumes ok_none: "ok none"
    and ok_put: "ok m \<Longrightarrow> ok (put k v m)"
    and get_none: "get none k = None"
    and get_put: "ok m \<Longrightarrow> get (put k v m) j = (if j = k then Some v else get m j)"
begin

text \<open>Storing the entries of a list, one by one; a later entry replaces an earlier one.\<close>

primrec put_all :: "('k \<times> 'v) list \<Rightarrow> 'm \<Rightarrow> 'm" where
  "put_all [] m = m"
| "put_all (e # es) m = put_all es (put (fst e) (snd e) m)"

lemma ok_put_all: "ok m \<Longrightarrow> ok (put_all es m)"
  by (induction es arbitrary: m) (auto intro: ok_put)

lemma get_put_all:
  "ok m \<Longrightarrow> get (put_all es m) k =
     (case map_of (rev es) k of None \<Rightarrow> get m k | Some v \<Rightarrow> Some v)"
  by (induction es arbitrary: m) (auto simp: ok_put get_put map_add_def split: option.splits)

lemma stored_iff: "get (put_all es none) k \<noteq> None \<longleftrightarrow> k \<in> fst ` set es"
proof -
  have "get (put_all es none) k = map_of (rev es) k"
    using get_put_all [OF ok_none] by (simp add: get_none split: option.split)
  then show ?thesis by (simp add: map_of_eq_None_iff image_iff)
qed

end

section \<open>The association list\<close>

type_synonym ('k, 'v) std_map = "('k \<times> 'v) list"

fun map_put :: "'k::linorder \<Rightarrow> 'v \<Rightarrow> ('k, 'v) std_map \<Rightarrow> ('k, 'v) std_map" where
  \<comment> \<open>\<open>m[k] = v\<close>\<close>
  "map_put k v [] = [(k, v)]"
| "map_put k v ((a, b) # m) =
     (if k < a then (k, v) # (a, b) # m
      else if k = a then (k, v) # m
      else (a, b) # map_put k v m)"

definition map_get :: "('k, 'v) std_map \<Rightarrow> 'k \<Rightarrow> 'v option" where
  \<comment> \<open>\<open>m.find(k)\<close>\<close>
  "map_get m k = map_of m k"

definition key_order :: "('k::linorder, 'v) std_map \<Rightarrow> bool" where
  "key_order m \<longleftrightarrow> sorted_wrt (<) (map fst m)"

lemma fst_map_put: "fst ` set (map_put k v m) = insert k (fst ` set m)"
  by (induction k v m rule: map_put.induct) auto

lemma key_order_put: "key_order m \<Longrightarrow> key_order (map_put k v m)"
proof (induction k v m rule: map_put.induct)
  case (1 k v)
  then show ?case by (simp add: key_order_def)
next
  case (2 k v a b m)
  have keys: "set (map fst (map_put k v m)) = insert k (set (map fst m))"
    using fst_map_put [of k v m] by simp
  from 2 keys show ?case by (auto simp: key_order_def simp del: set_map)
qed

lemma map_get_put:
  "key_order m \<Longrightarrow> map_get (map_put k v m) j = (if j = k then Some v else map_get m j)"
proof (induction k v m rule: map_put.induct)
  case (1 k v)
  then show ?case by (simp add: map_get_def)
next
  case (2 k v a b m)
  then show ?case by (auto simp: map_get_def key_order_def)
qed

lemma key_order_distinct: "key_order m \<Longrightarrow> distinct (map fst m)"
  unfolding key_order_def using strict_sorted_iff by blast

lemma map_get_Some_iff: "key_order m \<Longrightarrow> map_get m k = Some v \<longleftrightarrow> (k, v) \<in> set m"
  by (simp add: map_get_def key_order_distinct)

lemma map_get_None_iff: "map_get m k = None \<longleftrightarrow> k \<notin> fst ` set m"
  by (simp add: map_get_def map_of_eq_None_iff)

interpretation std_map: keyed_store "[]" map_put map_get key_order
  by unfold_locales (auto simp: key_order_put map_get_put, simp_all add: key_order_def map_get_def)

lemma map_get_put_all: "map_get (std_map.put_all es []) k = map_of (rev es) k"
  using std_map.get_put_all [OF std_map.ok_none, of es k]
  by (simp add: std_map.get_none split: option.splits)

end
