(* ===== verification/Config_Query.thy ===== *)
theory Config_Query
  imports Config_Parser Std_Map
begin

text \<open>
  What the server asks of a parsed configuration (\<open>src/config_parser.cc\<close>): the port number,
  the older list of paths, the argument block and the handler factory of every location, and
  \<open>RequestHandlerFactoryFactory::createHandlerFactory\<close>. The factories are created empty here;
  their state lives in the dispatcher's theory.
\<close>

section \<open>Port number\<close>

definition is_port_stmt :: "string list \<Rightarrow> bool" where
  "is_port_stmt toks \<longleftrightarrow> length toks = 2 \<and> toks ! 0 = ''port''"

fun num_ports :: "stmt list \<Rightarrow> nat" where
  "num_ports [] = 0"
| "num_ports (Stmt toks None # ss) = (if is_port_stmt toks then 1 else 0) + num_ports ss"
| "num_ports (Stmt toks (Some (Config cs)) # ss) = num_ports cs + num_ports ss"

fun own_port :: "stmt list \<Rightarrow> string option" where
  \<comment> \<open>the first loop of \<open>get_port_num\<close>: statements without a child block\<close>
  "own_port [] = None"
| "own_port (Stmt toks None # ss) = (if is_port_stmt toks then Some (toks ! 1) else own_port ss)"
| "own_port (Stmt toks (Some c) # ss) = own_port ss"

definition port_in_range :: "int \<Rightarrow> int" where
  "port_in_range portno = (if portno \<ge> 0 \<and> portno \<le> 65535 then portno else -1)"

function get_port_num :: "stmt list \<Rightarrow> int" and child_port_num :: "stmt list \<Rightarrow> int" where
  "get_port_num ss =
     (if num_ports ss > 1 then -1
      else case own_port ss of
             Some text \<Rightarrow> port_in_range (atoi text)
           | None \<Rightarrow> child_port_num ss)"
| "child_port_num [] = -1"
| "child_port_num (Stmt toks None # ss) = child_port_num ss"
| "child_port_num (Stmt toks (Some (Config cs)) # ss) =
     (let portno = get_port_num cs in if portno \<noteq> -1 then portno else child_port_num ss)"
  by pat_completeness auto
termination
  by (relation "measure (\<lambda>x. case x of Inl ss \<Rightarrow> 2 * size_list size ss + 1 | Inr ss \<Rightarrow> 2 * size_list size ss)") auto

declare get_port_num.simps [simp del]

text \<open>The specification: the values of all port statements, in document order.\<close>

fun port_values :: "stmt list \<Rightarrow> string list" where
  "port_values [] = []"
| "port_values (Stmt toks None # ss) = (if is_port_stmt toks then [toks ! 1] else []) @ port_values ss"
| "port_values (Stmt toks (Some (Config cs)) # ss) = port_values cs @ port_values ss"

definition the_port :: "string list \<Rightarrow> int" where
  "the_port vs = (case vs of [v] \<Rightarrow> port_in_range (atoi v) | _ \<Rightarrow> -1)"

lemma num_ports_values: "num_ports ss = length (port_values ss)"
  by (induction ss rule: num_ports.induct) auto

lemma own_port_values: "own_port ss = Some v \<Longrightarrow> v \<in> set (port_values ss)"
proof (induction ss rule: own_port.induct)
  case (3 toks c ss)
  then show ?case by (cases c) auto
qed (auto split: if_splits)

lemma get_port_num_spec:
  "get_port_num ss = the_port (port_values ss)"
  "length (port_values ss) \<le> 1 \<Longrightarrow> own_port ss = None \<Longrightarrow> child_port_num ss = the_port (port_values ss)"
proof (induction ss and ss rule: get_port_num_child_port_num.induct)
  case (1 ss)
  show ?case
  proof (cases "num_ports ss > 1")
    case True
    then show ?thesis
      by (auto simp: get_port_num.simps the_port_def num_ports_values split: list.splits)
  next
    case False
    then consider (none) "port_values ss = []" | (one) v where "port_values ss = [v]"
      by (auto simp: num_ports_values length_Suc_conv le_Suc_eq not_less)
    then show ?thesis
    proof cases
      case none
      then have "own_port ss = None" using own_port_values [of ss] by (cases "own_port ss") auto
      with 1 none False show ?thesis by (simp add: get_port_num.simps)
    next
      case one
      with 1 False own_port_values [of ss] show ?thesis
        by (cases "own_port ss") (auto simp: get_port_num.simps the_port_def)
    qed
  qed
next
  case (4 toks cs ss)
  consider "port_values cs = []" | v where "port_values cs = [v]" "port_values ss = []"
    using 4(3) by (cases "port_values cs"; cases "port_values ss") auto
  then show ?case
  proof cases
    case 1
    with 4 show ?thesis by (simp add: the_port_def Let_def)
  next
    case 2
    have "own_port ss = None" using 4(4) by simp
    with 2 4 show ?thesis by (auto simp: the_port_def Let_def)
  qed
qed (auto simp: the_port_def split: if_splits)

section \<open>Locations\<close>

function remove_trailing_slashes :: "string \<Rightarrow> string" where
  "remove_trailing_slashes input =
     (if length input > 1 \<and> last input = slash
      then remove_trailing_slashes (butlast input) else input)"
  by pat_completeness auto
termination
  by (relation "measure length") auto

declare remove_trailing_slashes.simps [simp del]

lemma remove_trailing_slashes_stable:
  "\<not> (length s > 1 \<and> last s = slash) \<Longrightarrow> remove_trailing_slashes s = s"
  by (subst remove_trailing_slashes.simps) (simp only: if_False)

text \<open>The loop strips a block of slashes from the end, but never the last character.\<close>

lemma remove_trailing_slashes_spec:
  "\<exists>n. s = remove_trailing_slashes s @ replicate n slash \<and>
     \<not> (length (remove_trailing_slashes s) > 1 \<and> last (remove_trailing_slashes s) = slash)"
proof (induction s rule: remove_trailing_slashes.induct)
  case (1 s)
  show ?case
  proof (cases "length s > 1 \<and> last s = slash")
    case True
    let ?r = "remove_trailing_slashes (butlast s)"
    from "1.IH" [OF True] obtain n where n: "butlast s = ?r @ replicate n slash"
      "\<not> (length ?r > 1 \<and> last ?r = slash)" by blast
    from True have "s = butlast s @ [slash]"
      by (metis append_butlast_last_id length_0_conv not_less_zero)
    with n(1) have "s = ?r @ replicate (Suc n) slash"
      by (metis append.assoc replicate_append_same replicate_Suc)
    moreover have "remove_trailing_slashes s = ?r"
      using True by (subst remove_trailing_slashes.simps) simp
    ultimately show ?thesis using n(2) by metis
  next
    case False
    then show ?thesis
      by (intro exI [of _ 0]) (simp add: remove_trailing_slashes_stable)
  qed
qed

lemma remove_trailing_slashes_idem [simp]:
  "remove_trailing_slashes (remove_trailing_slashes s) = remove_trailing_slashes s"
  using remove_trailing_slashes_spec [of s] by (metis remove_trailing_slashes_stable)

definition token_at :: "string list \<Rightarrow> nat \<Rightarrow> string result" where
  \<comment> \<open>\<open>tokens_[i]\<close>: no check in the code, no meaning out of range\<close>
  "token_at toks i = (if i < length toks then Inr (toks ! i) else Inl Undefined_behaviour)"

datatype factory_kind =
    StaticHandlerFactory
  | EchoHandlerFactory
  | FileNotFoundHandlerFactory
  | CrudHandlerFactory
  | HealthHandlerFactory
  | BlockHandlerFactory
  | MemeHandlerFactory

definition create_handler_factory :: "string \<Rightarrow> factory_kind option" where
  "create_handler_factory name =
     (if name = ''StaticHandler'' then Some StaticHandlerFactory
      else if name = ''EchoHandler'' then Some EchoHandlerFactory
      else if name = ''FileNotFoundHandler'' then Some FileNotFoundHandlerFactory
      else if name = ''CrudHandler'' then Some CrudHandlerFactory
      else if name = ''HealthHandler'' then Some HealthHandlerFactory
      else if name = ''BlockHandler'' then Some BlockHandlerFactory
      else if name = ''MemeHandler'' then Some MemeHandlerFactory
      else None)"

record path =
  endpoint_type :: int
  endpoint :: string
  path_root :: string
  path_map :: "(string, string) std_map"

fun static_paths :: "string \<Rightarrow> stmt list \<Rightarrow> path list result" where
  \<comment> \<open>the inner loop of \<open>getPaths\<close>, over the arguments of a static location\<close>
  "static_paths loc [] = Inr []"
| "static_paths loc (Stmt toks ch # ss) =
     and_then (token_at toks 0) (\<lambda>arg.
     and_then (token_at toks 1) (\<lambda>val.
     and_then (static_paths loc ss) (\<lambda>ps.
       Inr (\<lparr>endpoint_type = 0, endpoint = remove_trailing_slashes loc, path_root = val,
             path_map = map_put arg val []\<rparr> # ps))))"

fun get_paths :: "stmt list \<Rightarrow> path list \<Rightarrow> path list result" where
  \<comment> \<open>\<open>getPaths\<close> appends to the list kept in the configuration object\<close>
  "get_paths [] pd_paths = Inr pd_paths"
| "get_paths (Stmt toks ch # ss) pd_paths =
     and_then (token_at toks 0) (\<lambda>keyword.
       if keyword = ''location'' then
         (case ch of
            Some (Config cs) \<Rightarrow>
              if length toks = 3 \<and> toks ! 2 = ''EchoHandler'' then
                get_paths ss (pd_paths @ [\<lparr>endpoint_type = 1,
                  endpoint = remove_trailing_slashes (toks ! 1), path_root = [], path_map = []\<rparr>])
              else if length toks = 3 \<and> toks ! 2 = ''StaticHandler'' then
                and_then (static_paths (toks ! 1) cs) (\<lambda>ps. get_paths ss (pd_paths @ ps))
              else get_paths ss pd_paths
          | None \<Rightarrow> get_paths ss pd_paths)
       else get_paths ss pd_paths)"

fun get_arguments :: "stmt list \<Rightarrow> (string, config) std_map \<Rightarrow> (string, config) std_map result" where
  "get_arguments [] arguments = Inr arguments"
| "get_arguments (Stmt toks ch # ss) arguments =
     and_then (token_at toks 0) (\<lambda>keyword.
       if keyword = ''location'' then
         (case ch of
            Some c \<Rightarrow>
              if length toks = 3
              then get_arguments ss (map_put (remove_trailing_slashes (toks ! 1)) c arguments)
              else get_arguments ss arguments
          | None \<Rightarrow> get_arguments ss arguments)
       else get_arguments ss arguments)"

fun get_factories ::
    "stmt list \<Rightarrow> (string, factory_kind) std_map \<Rightarrow> (string, factory_kind) std_map result" where
  "get_factories [] factories = Inr factories"
| "get_factories (Stmt toks ch # ss) factories =
     and_then (token_at toks 0) (\<lambda>keyword.
       if keyword = ''location'' then
         (case ch of
            Some c \<Rightarrow>
              if length toks = 3 then
                (case create_handler_factory (toks ! 2) of
                   None \<Rightarrow> get_factories ss factories
                 | Some f \<Rightarrow>
                     get_factories ss (map_put (remove_trailing_slashes (toks ! 1)) f factories))
              else get_factories ss factories
          | None \<Rightarrow> get_factories ss factories)
       else get_factories ss factories)"

section \<open>What the tables hold\<close>

text \<open>The location blocks of a configuration, as the specification of both tables.\<close>

fun location_blocks :: "stmt list \<Rightarrow> (string \<times> string \<times> config) list" where
  "location_blocks [] = []"
| "location_blocks (Stmt [k, loc, handler] (Some c) # ss) =
     (if k = ''location'' then [(remove_trailing_slashes loc, handler, c)] else []) @ location_blocks ss"
| "location_blocks (s # ss) = location_blocks ss"

definition factory_entries :: "(string \<times> string \<times> config) list \<Rightarrow> (string \<times> factory_kind) list" where
  "factory_entries bs = concat (map (\<lambda>(loc, handler, _).
     case create_handler_factory handler of None \<Rightarrow> [] | Some f \<Rightarrow> [(loc, f)]) bs)"

definition argument_entries :: "(string \<times> string \<times> config) list \<Rightarrow> (string \<times> config) list" where
  "argument_entries bs = map (\<lambda>(loc, _, c). (loc, c)) bs"

lemma wf_stmts_Cons [simp]:
  "wf_stmts (Stmt toks ch # ss) \<longleftrightarrow> toks \<noteq> [] \<and> list_all wf_token toks \<and> wf_stmts ss \<and>
     (case ch of None \<Rightarrow> True | Some c \<Rightarrow> wf_config c)"
proof (cases ch)
  case (Some c)
  then show ?thesis by (cases c) (auto simp: wf_config_def)
qed simp

lemma location_blocks_other:
  "\<not> (length toks = 3 \<and> ch \<noteq> None \<and> toks ! 0 = ''location'') \<Longrightarrow>
   location_blocks (Stmt toks ch # ss) = location_blocks ss"
  by (cases "Stmt toks ch # ss" rule: location_blocks.cases) auto

lemma location_blocks_this:
  "length toks = 3 \<Longrightarrow> toks ! 0 = ''location'' \<Longrightarrow>
   location_blocks (Stmt toks (Some c) # ss) =
     (remove_trailing_slashes (toks ! 1), toks ! 2, c) # location_blocks ss"
  by (cases "Stmt toks (Some c) # ss" rule: location_blocks.cases) auto

lemma get_arguments_blocks:
  "wf_stmts ss \<Longrightarrow>
   get_arguments ss m = Inr (std_map.put_all (argument_entries (location_blocks ss)) m)"
proof (induction ss m rule: get_arguments.induct)
  case (1 m)
  then show ?case by (simp add: argument_entries_def)
next
  case (2 toks ch ss m)
  show ?case
  proof (cases "length toks = 3 \<and> ch \<noteq> None \<and> toks ! 0 = ''location''")
    case True
    with 2 show ?thesis
      by (auto simp: token_at_def location_blocks_this argument_entries_def)
  next
    case False
    with 2 show ?thesis
      by (auto simp: token_at_def location_blocks_other split: option.splits)
  qed
qed

lemma get_factories_blocks:
  "wf_stmts ss \<Longrightarrow>
   get_factories ss m = Inr (std_map.put_all (factory_entries (location_blocks ss)) m)"
proof (induction ss m rule: get_factories.induct)
  case (1 m)
  then show ?case by (simp add: factory_entries_def)
next
  case (2 toks ch ss m)
  show ?case
  proof (cases "length toks = 3 \<and> ch \<noteq> None \<and> toks ! 0 = ''location''")
    case True
    with 2 show ?thesis
      by (auto simp: token_at_def location_blocks_this factory_entries_def split: option.splits)
  next
    case False
    with 2 show ?thesis
      by (auto simp: token_at_def location_blocks_other split: option.splits)
  qed
qed

lemma factory_entries_keys: "fst ` set (factory_entries bs) \<subseteq> fst ` set (argument_entries bs)"
  by (force simp: factory_entries_def argument_entries_def split: option.splits)

section \<open>Properties\<close>

text \<open>
  The port number is the one value of the only port statement of the file, at whatever
  depth it stands, when it lies between 0 and 65535; it is -1 when there is no port statement,
  more than one, or a value out of range.
\<close>
lemma get_port_num_value: "get_port_num ss = the_port (port_values ss)"
  by (rule get_port_num_spec)

text \<open>
  C30: on every configuration the parser produces, the tables of arguments and of factories
  are built without reading a token that is not there; a location has the block and the
  factory of the last valid location statement that names it (trailing slashes dropped,
  unknown handler names skipped for the factory); and every location with a factory has an
  argument block, so that the dispatcher never looks up a missing one.
\<close>
theorem location_tables:
  assumes "parse input = (ok, cfg)"
  shows "\<exists>arguments factories.
    get_arguments (statements cfg) [] = Inr arguments \<and>
    get_factories (statements cfg) [] = Inr factories \<and>
    key_order factories \<and>
    (\<forall>loc. map_get arguments loc =
       map_of (rev (argument_entries (location_blocks (statements cfg)))) loc) \<and>
    (\<forall>loc. map_get factories loc =
       map_of (rev (factory_entries (location_blocks (statements cfg)))) loc) \<and>
    (\<forall>loc. map_get factories loc \<noteq> None \<longrightarrow> map_get arguments loc \<noteq> None)"
proof -
  let ?bs = "location_blocks (statements cfg)"
  have wf: "wf_stmts (statements cfg)"
    using parse_wf [of input] assms by (simp add: wf_config_def)
  have "key_order (std_map.put_all (factory_entries ?bs) [])"
    by (rule std_map.ok_put_all [OF std_map.ok_none])
  moreover have "map_get (std_map.put_all (factory_entries ?bs) []) loc \<noteq> None \<longrightarrow>
      map_get (std_map.put_all (argument_entries ?bs) []) loc \<noteq> None" for loc
    by (simp only: std_map.stored_iff) (use factory_entries_keys [of ?bs] in blast)
  ultimately show ?thesis
    by (intro exI [of _ "std_map.put_all (argument_entries ?bs) []"]
        exI [of _ "std_map.put_all (factory_entries ?bs) []"] conjI allI)
      (simp_all only: get_arguments_blocks [OF wf] get_factories_blocks [OF wf] map_get_put_all)
qed

theorem location_tables_witness:
  "\<exists>arguments factories.
    get_arguments (statements sample_config) [] = Inr arguments \<and>
    get_factories (statements sample_config) [] = Inr factories \<and>
    map_get factories ''/static'' = Some StaticHandlerFactory \<and>
    map_get arguments ''/echo'' = Some (Config [])"
proof -
  have "parse (to_string sample_config 0) = (True, sample_config)"
    by (rule parse_print [OF sample_config_wf])
  from location_tables [OF this] obtain arguments factories where
    "get_arguments (statements sample_config) [] = Inr arguments"
    "get_factories (statements sample_config) [] = Inr factories"
    "map_get factories ''/static'' =
       map_of (rev (factory_entries (location_blocks (statements sample_config)))) ''/static''"
    "map_get arguments ''/echo'' =
       map_of (rev (argument_entries (location_blocks (statements sample_config)))) ''/echo''"
    by blast
  then show ?thesis
    by (simp add: sample_config_def factory_entries_def argument_entries_def
        create_handler_factory_def remove_trailing_slashes.simps)
qed

text \<open>
  Dropping trailing slashes removes only slashes, all of them but never the last
  character, and does nothing the second time.
\<close>
lemma remove_trailing_slashes_result:
  "(\<exists>n. s = remove_trailing_slashes s @ replicate n slash) \<and>
   \<not> (length (remove_trailing_slashes s) > 1 \<and> last (remove_trailing_slashes s) = slash) \<and>
   remove_trailing_slashes (remove_trailing_slashes s) = remove_trailing_slashes s"
  using remove_trailing_slashes_spec [of s] remove_trailing_slashes_idem [of s] by blast

end
