(* ===== verification/Config_Trace.thy ===== *)
theory Config_Trace
  imports Config_Parser
begin

text \<open>
  What \<open>Parse\<close> prints while it parses (\<open>src/config_parser.cc\<close>): a line for every token, and a last
  line that names the transition it refused.
\<close>

fun token_type_as_string :: "token_type \<Rightarrow> string" where
  "token_type_as_string TOKEN_TYPE_START = ''TOKEN_TYPE_START''"
| "token_type_as_string TOKEN_TYPE_NORMAL = ''TOKEN_TYPE_NORMAL''"
| "token_type_as_string TOKEN_TYPE_START_BLOCK = ''TOKEN_TYPE_START_BLOCK''"
| "token_type_as_string TOKEN_TYPE_END_BLOCK = ''TOKEN_TYPE_END_BLOCK''"
| "token_type_as_string TOKEN_TYPE_COMMENT = ''TOKEN_TYPE_COMMENT''"
| "token_type_as_string TOKEN_TYPE_STATEMENT_END = ''TOKEN_TYPE_STATEMENT_END''"
| "token_type_as_string TOKEN_TYPE_EOF = ''TOKEN_TYPE_EOF''"
| "token_type_as_string TOKEN_TYPE_ERROR = ''TOKEN_TYPE_ERROR''"

definition c_str :: "string \<Rightarrow> string" where
  \<comment> \<open>what \<open>printf\<close> shows of \<open>token.c_str()\<close>\<close>
  "c_str s = takeWhile (\<lambda>c. c \<noteq> CHR 0x00) s"

definition token_line :: "token_type \<Rightarrow> string \<Rightarrow> string" where
  "token_line tt tok = token_type_as_string tt @ '': '' @ c_str tok @ [newline]"

definition bad_transition :: "token_type \<Rightarrow> token_type \<Rightarrow> string" where
  "bad_transition lst tt =
     ''Bad transition from '' @ token_type_as_string lst @ '' to '' @ token_type_as_string tt @ [newline]"

function loop_trace :: "string \<Rightarrow> stmt list list \<Rightarrow> token_type \<Rightarrow> string" where
  "loop_trace input stk lst =
     (case parse_token input of (tt, tok, rest) \<Rightarrow>
        token_line tt tok @
        (if tt = TOKEN_TYPE_COMMENT then loop_trace rest stk lst
         else if ends_scan tt then (if parse_step tt tok stk lst = Accept then [] else bad_transition lst tt)
         else (case parse_step tt tok stk lst of
                 Go stk' lst' \<Rightarrow> loop_trace rest stk' lst'
               | Accept \<Rightarrow> []
               | Reject \<Rightarrow> bad_transition lst tt)))"
  by pat_completeness auto
termination
  by (relation "measure (\<lambda>(input, _, _). length input)")
    (auto dest!: sym [of "(_, _, _)"] parse_token_less simp: ends_scan_def)

declare loop_trace.simps [simp del]

definition parse_trace :: "string \<Rightarrow> string" where
  "parse_trace config_file =
     token_type_as_string TOKEN_TYPE_START @ [newline] @ loop_trace config_file [[]] TOKEN_TYPE_START"

lemma token_type_as_string_inj: "token_type_as_string t = token_type_as_string u \<Longrightarrow> t = u"
  by (cases t; cases u) simp_all

text \<open>The last line tells whether the file was accepted, and if not, at which transition.\<close>

definition told :: "bool \<Rightarrow> string \<Rightarrow> bool" where
  "told ok trace \<longleftrightarrow>
     (if ok then \<exists>tok. suffix (token_line TOKEN_TYPE_EOF tok) trace
      else \<exists>lst tt. suffix (bad_transition lst tt) trace)"

lemma told_append: "told ok trace \<Longrightarrow> told ok (before @ trace)"
  by (auto simp: told_def intro: suffix_appendI split: if_splits)

lemma accept_eof: "parse_step tt tok stk lst = Accept \<Longrightarrow> tt = TOKEN_TYPE_EOF"
  by (cases "(tt, tok, stk, lst)" rule: parse_step.cases) (auto split: if_splits)

lemma loop_told: "told (fst (parse_loop input stk lst)) (loop_trace input stk lst)"
proof (induction input stk lst rule: loop_trace.induct)
  case (1 input stk lst)
  obtain tt tok rest where t: "parse_token input = (tt, tok, rest)" by (cases "parse_token input")
  note unfold = parse_loop.simps [of input stk lst] loop_trace.simps [of input stk lst] t
  have accepted: "told True (token_line tt tok)" if "parse_step tt tok stk lst = Accept"
    using accept_eof [OF that] by (auto simp: told_def)
  have refused: "told False (token_line tt tok @ bad_transition lst tt)"
    by (auto simp: told_def intro: suffix_appendI)
  show ?case
  proof (cases "tt = TOKEN_TYPE_COMMENT")
    case True
    with 1(1) [OF t [symmetric] refl True] told_append show ?thesis by (simp add: unfold)
  next
    case c: False
    show ?thesis
    proof (cases "ends_scan tt")
      case True
      with c accepted refused show ?thesis by (simp add: unfold)
    next
      case False
      show ?thesis
      proof (cases "parse_step tt tok stk lst")
        case (Go stk' lst')
        with 1(2) [OF t [symmetric] refl c False Go] told_append c False show ?thesis by (simp add: unfold)
      qed (use c False accepted refused in \<open>simp_all add: unfold\<close>)
    qed
  qed
qed

lemma trace_tells: "told (fst (parse config_file)) (parse_trace config_file)"
  using told_append [OF loop_told, of config_file "[[]]" TOKEN_TYPE_START
      "token_type_as_string TOKEN_TYPE_START @ [newline]"]
  by (simp add: parse_def parse_trace_def)

end
