(* ===== verification/Http.thy ===== *)
theory Http
  imports Std_Map
begin

text \<open>
  HTTP data. The messages of Boost.Beast are the attributes the server reads and sets on them
  (method, target, body; version, result, header fields, body). What Beast computes itself is
  not code of the repository and is a parameter, the record \<open>beast\<close>: \<open>prepare_payload\<close>, the
  text of a request and of a response, and the parser that turns the text of a request into a
  request (\<open>None\<close> is an error code). The second half is the repository's own response class
  (\<open>src/http_response.cc\<close>, \<open>src/get_response.cc\<close>) and \<open>src/mime.cc\<close>.
\<close>

section \<open>Messages\<close>

datatype verb = Verb_get | Verb_post | Verb_put | Verb_delete | Verb_other string

datatype status =
    Continue                \<comment> \<open>100\<close>
  | Status_ok               \<comment> \<open>200\<close>
  | Created                 \<comment> \<open>201\<close>
  | Bad_request             \<comment> \<open>400\<close>
  | Not_found               \<comment> \<open>404\<close>
  | Internal_server_error   \<comment> \<open>500\<close>

datatype field = Content_type | Content_length | Other_field string

record request =
  req_method :: verb
  req_target :: string
  req_fields :: "(string \<times> string) list"
  req_body :: string

record response =
  res_version :: nat
  res_result :: status
  res_fields :: "field \<Rightarrow> string option"
  res_body :: string

definition fresh_response :: response where
  \<comment> \<open>a default-constructed \<open>http::response\<close>\<close>
  "fresh_response =
     \<lparr>res_version = 11, res_result = Status_ok, res_fields = (\<lambda>_. None), res_body = []\<rparr>"

definition set_field :: "field \<Rightarrow> string \<Rightarrow> response \<Rightarrow> response" where
  "set_field f v res = res\<lparr>res_fields := (res_fields res)(f \<mapsto> v)\<rparr>"

record beast =
  prepare_payload :: "response \<Rightarrow> response"
  request_text :: "request \<Rightarrow> string"
  response_text :: "response \<Rightarrow> string"
  read_request :: "string \<Rightarrow> request option"

text \<open>
  The documented effect of \<open>prepare_payload\<close> on a response with a string body whose status is
  not informational: it sets the content length to the size of the body and leaves the rest.
\<close>

definition payload_law :: "beast \<Rightarrow> bool" where
  "payload_law b \<longleftrightarrow>
     (\<forall>r. res_result r \<noteq> Continue \<longrightarrow>
        res_version (prepare_payload b r) = res_version r \<and>
        res_result (prepare_payload b r) = res_result r \<and>
        res_body (prepare_payload b r) = res_body r \<and>
        res_fields (prepare_payload b r) Content_type = res_fields r Content_type \<and>
        res_fields (prepare_payload b r) Content_length = Some (nat_to_string (length (res_body r))))"

definition sample_beast :: beast where
  \<comment> \<open>a function for each parameter, used by the concrete examples\<close>
  "sample_beast =
     \<lparr>prepare_payload = (\<lambda>r. set_field Content_length (nat_to_string (length (res_body r))) r),
      request_text = req_body, response_text = res_body,
      read_request = (\<lambda>t. Some \<lparr>req_method = Verb_get, req_target = t, req_fields = [], req_body = []\<rparr>)\<rparr>"

lemma sample_beast_payload: "payload_law sample_beast"
  by (simp add: payload_law_def sample_beast_def set_field_def)

lemma set_field_simps [simp]:
  "res_version (set_field f v r) = res_version r"
  "res_result (set_field f v r) = res_result r"
  "res_body (set_field f v r) = res_body r"
  "res_fields (set_field f v r) g = (if g = f then Some v else res_fields r g)"
  by (simp_all add: set_field_def)

section \<open>The response class of the repository\<close>

record http_response =
  status_code :: int
  http_version :: string
  resp_headers :: "(string, string) std_map"
  resp_body :: string

definition make_http_response :: "int \<Rightarrow> string \<Rightarrow> http_response" where
  "make_http_response code ver =
     \<lparr>status_code = code, http_version = ver, resp_headers = [], resp_body = []\<rparr>"

definition add_header :: "string \<Rightarrow> string \<Rightarrow> http_response \<Rightarrow> http_response" where
  "add_header h v r = r\<lparr>resp_headers := map_put h v (resp_headers r)\<rparr>"

definition set_body :: "string \<Rightarrow> http_response \<Rightarrow> http_response" where
  "set_body b r = r\<lparr>resp_body := b\<rparr>"

definition http_response_to_string :: "http_response \<Rightarrow> string" where
  "http_response_to_string r =
     http_version r @ '' '' @ int_to_string (status_code r) @ crlf @
     concat (map (\<lambda>(h, v). h @ '': '' @ v @ crlf) (resp_headers r)) @ crlf @ resp_body r"

definition http_file :: "string \<Rightarrow> string \<Rightarrow> string" where
  "http_file type body =
     http_response_to_string (set_body body
       (add_header ''Content-Length'' (nat_to_string (length body))
         (add_header ''Content-Type'' type (make_http_response 200 ''HTTP/1.1''))))"

definition http_echo :: "string \<Rightarrow> string" where
  "http_echo text =
     http_response_to_string (set_body text
       (add_header ''Content-Length'' (nat_to_string (length text))
         (add_header ''Content-Type'' ''text/plain'' (make_http_response 200 ''HTTP/1.1''))))"

definition http_client_side_error :: string where
  "http_client_side_error = http_response_to_string (make_http_response 400 ''HTTP/1.1'')"

definition http_not_found :: string where
  "http_not_found = http_response_to_string (make_http_response 404 ''HTTP/1.1'')"

definition http_server_error :: string where
  "http_server_error = http_response_to_string (make_http_response 500 ''HTTP/1.1'')"

lemma header_order: "''Content-Length'' < ''Content-Type''"
  by (simp add: less_char_def)

lemma http_file_text:
  "http_file type body =
     ''HTTP/1.1 200'' @ crlf @
     ''Content-Length: '' @ nat_to_string (length body) @ crlf @
     ''Content-Type: '' @ type @ crlf @ crlf @ body"
  using header_order
  by (simp add: http_file_def http_response_to_string_def set_body_def add_header_def
      make_http_response_def int_to_string_def nat_to_string.simps digit_char_def)

section \<open>MIME types\<close>

definition mime_types :: "string \<Rightarrow> string option" where
  "mime_types = map_of
     [(''.html'', ''text/html''), (''.txt'', ''text/plain''), (''.jpg'', ''image/jpeg''),
      (''.jpeg'', ''image/jpeg''), (''.png'', ''image/png''), (''.gif'', ''image/gif''),
      (''.zip'', ''application/zip'')]"

definition npos_as_index :: "position \<Rightarrow> string \<Rightarrow> nat" where
  \<comment> \<open>\<open>npos\<close> used as an index is larger than any string\<close>
  "npos_as_index p s = (case p of None \<Rightarrow> Suc (length s) | Some i \<Rightarrow> i)"

definition get_mime_type :: "string \<Rightarrow> string result" where
  "get_mime_type file_name =
     and_then (substr file_name (npos_as_index (rfind_char (CHR ''.'') file_name) file_name) None)
       (\<lambda>extension.
          Inr (case mime_types extension of Some t \<Rightarrow> t | None \<Rightarrow> ''application/octet-stream''))"

lemma get_mime_type_no_dot: "CHR ''.'' \<notin> set s \<Longrightarrow> get_mime_type s = Inl Out_of_range"
  by (simp add: get_mime_type_def npos_as_index_def substr_def)

lemma get_mime_type_dot:
  "CHR ''.'' \<notin> set ext \<Longrightarrow>
   get_mime_type (base @ CHR ''.'' # ext) =
     Inr (case mime_types (CHR ''.'' # ext) of Some t \<Rightarrow> t | None \<Rightarrow> ''application/octet-stream'')"
  by (simp add: get_mime_type_def npos_as_index_def substr_def rfind_char_append)

section \<open>Properties\<close>

text \<open>
  The text of a file response is the status line, the two headers in the order of the
  map (content length first, and equal to the size of the body), an empty line and the body.
\<close>
lemma http_file_layout:
  "http_file type body =
     ''HTTP/1.1 200'' @ crlf @
     ''Content-Length: '' @ nat_to_string (length body) @ crlf @
     ''Content-Type: '' @ type @ crlf @ crlf @ body"
  by (rule http_file_text)

text \<open>
  The MIME type is looked up by the text from the last dot on, with the octet-stream
  type for an unknown extension; but a name without any dot does not get the default type:
  \<open>substr\<close> is called with \<open>npos\<close> and throws.
\<close>
lemma mime_type_lookup:
  "get_mime_type name =
     (case rfind_char (CHR ''.'') name of
        None \<Rightarrow> Inl Out_of_range
      | Some i \<Rightarrow>
          Inr (case mime_types (drop i name) of Some t \<Rightarrow> t | None \<Rightarrow> ''application/octet-stream''))"
  by (auto simp: get_mime_type_def npos_as_index_def substr_def dest: rfind_char_SomeD
      split: option.splits)

end
