(* ===== verification/Request_Parser.thy ===== *)
theory Request_Parser
  imports Std_Map
begin

text \<open>
  \<open>HttpRequestParser\<close> (\<open>src/http_request_parser.cc\<close>): the server's own parser of the request
  line and the header lines, used to decide whether a body is still to be read. A failed parse
  leaves what was already stored, as the members of the class do.
\<close>

record request_parser =
  rp_method :: string
  rp_url :: string
  rp_http_version :: string
  rp_header :: string
  rp_body :: string
  rp_headers :: "(string, string) std_map"

definition new_request_parser :: request_parser where
  "new_request_parser =
     \<lparr>rp_method = [], rp_url = [], rp_http_version = [], rp_header = [], rp_body = [], rp_headers = []\<rparr>"

definition get_request :: "request_parser \<Rightarrow> string" where
  "get_request p = rp_header p @ rp_body p"

definition get_header :: "string \<Rightarrow> request_parser \<Rightarrow> string" where
  "get_header h p = (case map_get (rp_headers p) h of Some v \<Rightarrow> v | None \<Rightarrow> [])"

definition set_request_header :: "string \<Rightarrow> request_parser \<Rightarrow> request_parser" where
  "set_request_header h p = p\<lparr>rp_header := h\<rparr>"

definition set_request_body :: "string \<Rightarrow> request_parser \<Rightarrow> request_parser" where
  "set_request_body b p = p\<lparr>rp_body := b\<rparr>"

definition parse_request_line :: "string \<Rightarrow> request_parser \<Rightarrow> bool \<times> request_parser" where
  \<comment> \<open>an extraction that finds no word leaves its variable alone, and so do the ones after it\<close>
  "parse_request_line line p =
     (case extract_word line of
        None \<Rightarrow> (False, p)
      | Some (m, r1) \<Rightarrow>
          (case extract_word r1 of
             None \<Rightarrow> (False, p\<lparr>rp_method := m\<rparr>)
           | Some (u, r2) \<Rightarrow>
               (case extract_word r2 of
                  None \<Rightarrow> (False, p\<lparr>rp_method := m, rp_url := u\<rparr>)
                | Some (v, _) \<Rightarrow>
                    (True, p\<lparr>rp_method := m, rp_url := u, rp_http_version := v\<rparr>))))"

definition parse_header_line :: "string \<Rightarrow> request_parser \<Rightarrow> bool \<times> request_parser" where
  "parse_header_line line p =
     (case find_char (CHR '':'') line of
        None \<Rightarrow> (False, p)
      | Some colon_pos \<Rightarrow>
          (True, p\<lparr>rp_headers :=
             map_put (take colon_pos line) (drop (colon_pos + 1) line) (rp_headers p)\<rparr>))"

function parse_header_lines :: "string \<Rightarrow> request_parser \<Rightarrow> bool \<times> request_parser" where
  "parse_header_lines stream p =
     (case getline newline stream of
        None \<Rightarrow> (True, p)
      | Some (line, rest) \<Rightarrow>
          if line = [creturn] then (True, p)
          else (case parse_header_line line p of
                  (False, p') \<Rightarrow> (False, p')
                | (True, p') \<Rightarrow> parse_header_lines rest p'))"
  by pat_completeness auto
termination
  by (relation "measure (\<lambda>(stream, _). length stream)") (auto dest: getline_shorter)

declare parse_header_lines.simps [simp del]

definition parse_header :: "string \<Rightarrow> request_parser \<Rightarrow> bool \<times> request_parser" where
  \<comment> \<open>\<open>HttpRequestParser::parse\<close>\<close>
  "parse_header request_header p =
     (case getline newline request_header of
        None \<Rightarrow> (False, p)
      | Some (line, rest) \<Rightarrow>
          (case parse_request_line line p of
             (False, p') \<Rightarrow> (False, p')
           | (True, p') \<Rightarrow> parse_header_lines rest p'))"

section \<open>Round trip with the text of a request header\<close>

definition word :: "string \<Rightarrow> bool" where
  "word w \<longleftrightarrow> w \<noteq> [] \<and> list_all (\<lambda>c. \<not> is_space c) w"

definition header_entry :: "string \<times> string \<Rightarrow> bool" where
  "header_entry e \<longleftrightarrow> CHR '':'' \<notin> set (fst e) \<and> newline \<notin> set (fst e) \<and> newline \<notin> set (snd e)"

definition render_header :: "string \<times> string \<Rightarrow> string" where
  "render_header e = fst e @ CHR '':'' # snd e @ crlf"

definition render_request :: "string \<Rightarrow> string \<Rightarrow> string \<Rightarrow> (string \<times> string) list \<Rightarrow> string" where
  "render_request m u v hs = m @ '' '' @ u @ '' '' @ v @ crlf @ concat (map render_header hs) @ crlf"

lemma word_no_space: "word w \<Longrightarrow> is_space c \<Longrightarrow> c \<notin> set w"
  by (auto simp: word_def list_all_iff)

lemma extract_word_word:
  assumes "word w" and "is_space c"
  shows "extract_word (w @ c # r) = Some (w, c # r)"
proof -
  have "w \<noteq> []" "\<And>x. x \<in> set w \<Longrightarrow> \<not> is_space x"
    using assms(1) by (auto simp: word_def list_all_iff)
  then have "dropWhile is_space (w @ c # r) = w @ c # r"
    by (intro dropWhile_none) simp_all
  with \<open>\<And>x. x \<in> set w \<Longrightarrow> \<not> is_space x\<close> assms(2) show ?thesis
    by (simp add: extract_word_def takeWhile_append_stop dropWhile_append_stop)
qed

lemma extract_word_space: "is_space c \<Longrightarrow> extract_word (c # r) = extract_word r"
  by (simp add: extract_word_def)

lemma parse_request_line_words:
  assumes "word m" and "word u" and "word v"
  shows "parse_request_line (m @ '' '' @ u @ '' '' @ v @ [creturn]) p =
    (True, p\<lparr>rp_method := m, rp_url := u, rp_http_version := v\<rparr>)"
proof -
  have "is_space space" "is_space creturn" by (simp_all add: is_space_def)
  with assms show ?thesis
    by (simp add: parse_request_line_def extract_word_word extract_word_space)
qed

lemma parse_header_lines_render:
  assumes "list_all header_entry hs"
  shows "parse_header_lines (concat (map render_header hs) @ crlf) p =
    (True, p\<lparr>rp_headers := std_map.put_all (map (\<lambda>(n, v). (n, v @ [creturn])) hs) (rp_headers p)\<rparr>)"
  using assms
proof (induction hs arbitrary: p)
  case Nil
  have "getline newline crlf = Some ([creturn], [])" by (simp add: getline_def)
  then show ?case by (simp add: parse_header_lines.simps)
next
  case (Cons e hs)
  obtain n v where e: "e = (n, v)" by (cases e)
  let ?line = "n @ CHR '':'' # v @ [creturn]"
  let ?rest = "concat (map render_header hs) @ crlf"
  have ok: "CHR '':'' \<notin> set n" "newline \<notin> set ?line"
    using Cons.prems by (simp_all add: e header_entry_def)
  have "getline newline (?line @ newline # ?rest) = Some (?line, ?rest)"
    using ok(2) by (rule getline_append)
  moreover have "?line \<noteq> [creturn]" by (cases n) auto
  moreover have "parse_header_line ?line p =
      (True, p\<lparr>rp_headers := map_put n (v @ [creturn]) (rp_headers p)\<rparr>)"
    using ok(1) by (simp add: parse_header_line_def find_char_append)
  ultimately have "parse_header_lines (?line @ newline # ?rest) p =
      parse_header_lines ?rest (p\<lparr>rp_headers := map_put n (v @ [creturn]) (rp_headers p)\<rparr>)"
    by (subst parse_header_lines.simps) simp
  with Cons show ?case by (simp add: e render_header_def [of "(n, v)"])
qed

lemma parse_header_render:
  assumes "word m" and "word u" and "word v" and "list_all header_entry hs"
  shows "parse_header (render_request m u v hs) p =
    (True, p\<lparr>rp_method := m, rp_url := u, rp_http_version := v,
       rp_headers := std_map.put_all (map (\<lambda>(n, x). (n, x @ [creturn])) hs) (rp_headers p)\<rparr>)"
proof -
  let ?line = "m @ '' '' @ u @ '' '' @ v @ [creturn]"
  let ?rest = "concat (map render_header hs) @ crlf"
  have "newline \<notin> set m" "newline \<notin> set u" "newline \<notin> set v"
    using assms word_no_space [of _ newline] by (simp_all add: is_space_def)
  then have "newline \<notin> set ?line" by simp
  then have "getline newline (?line @ newline # ?rest) = Some (?line, ?rest)"
    by (rule getline_append)
  moreover have "render_request m u v hs = ?line @ newline # ?rest"
    by (simp add: render_request_def)
  ultimately show ?thesis
    by (simp only: parse_header_def option.case prod.case parse_request_line_words [OF assms(1-3)]
        bool.case parse_header_lines_render [OF assms(4)]) simp
qed

text \<open>
  The value of a header keeps the blank after the colon and the carriage return before the
  line feed; \<open>std::stoi\<close> reads a number through both.
\<close>

lemma stoi_header_value:
  assumes "in_int_range (int n)"
  shows "stoi (space # nat_to_string n @ [creturn]) = Inr (int n)"
proof -
  have "strtol (space # nat_to_string n @ [creturn]) = strtol (nat_to_string n @ [creturn])"
    by (simp add: strtol_def is_space_def)
  also have "\<dots> = Some (int n)"
    by (rule strtol_nat) (simp add: is_digit_def)
  finally show ?thesis using assms by (simp add: stoi_def)
qed

section \<open>Properties\<close>

text \<open>
  C34: a request header written as a request line of three words and header lines \<open>name:value\<close>
  is parsed back: method, URL and version, and for every header name the value of its last
  line, with the carriage return that the line ends with still on it.
\<close>
theorem request_header_roundtrip:
  assumes "word m" and "word u" and "word v" and "list_all header_entry hs"
  shows "\<exists>p. parse_header (render_request m u v hs) new_request_parser = (True, p) \<and>
    rp_method p = m \<and> rp_url p = u \<and> rp_http_version p = v \<and>
    (\<forall>n. get_header n p =
       (case map_of (rev hs) n of Some x \<Rightarrow> x @ [creturn] | None \<Rightarrow> []))"
proof -
  have "map_of (rev (map (\<lambda>(n, x). (n, x @ [creturn])) hs)) n =
      map_option (\<lambda>x. x @ [creturn]) (map_of (rev hs) n)" for n
    by (simp only: rev_map map_of_map comp_apply)
  then show ?thesis
    using parse_header_render [OF assms, of new_request_parser]
    by (auto simp: get_header_def new_request_parser_def map_get_put_all split: option.split)
qed

theorem request_header_roundtrip_witness:
  "\<exists>p. parse_header (render_request ''POST'' ''/echo'' ''HTTP/1.0'' [(''Content-Length'', '' 30'')])
      new_request_parser = (True, p) \<and> get_header ''Content-Length'' p = '' 30'' @ [creturn]"
proof -
  have h: "word ''POST''" "word ''/echo''" "word ''HTTP/1.0''"
    "list_all header_entry [(''Content-Length'', '' 30'')]"
    by (simp_all add: word_def is_space_def header_entry_def)
  from request_header_roundtrip [OF h] show ?thesis by (force simp: word_def)
qed

end
