(* ===== verification/Session.thy ===== *)
theory Session
  imports Http Request_Parser
begin

text \<open>
  One connection (\<open>src/session.cc\<close>). A session is the members of the class and \<open>pending\<close>, the
  completion handler the last asynchronous call registered; \<open>Finished\<close> is a session that has
  deleted itself. The completion handlers are functions of the session and of the state behind
  the dispatcher; the dispatcher is an argument. An exception that leaves a handler leaves
  \<open>io_service::run\<close>, and with it the thread: it is the result. What a session logs is in \<open>Activity_Log\<close>.
\<close>

section \<open>State\<close>

datatype pending = Reading_header | Reading_body | Writing | Finished

record session =
  content_length :: int
  request_header :: string
  request_body :: string
  request_string :: string
  response_string :: string
  parser :: request_parser
  response_of :: response
  pending :: pending
  shut_down :: bool

type_synonym 'd dispatcher = "request \<Rightarrow> response \<Rightarrow> 'd \<Rightarrow> response result \<times> 'd"

definition new_session :: session where
  \<comment> \<open>after \<open>start\<close> has asked for the first read\<close>
  "new_session =
     \<lparr>content_length = 0, request_header = [], request_body = [], request_string = [],
      response_string = [], parser = new_request_parser, response_of = fresh_response,
      pending = Reading_header, shut_down = False\<rparr>"

section \<open>Responses\<close>

definition error_page :: "status \<Rightarrow> string \<Rightarrow> response \<Rightarrow> response" where
  "error_page st text res =
     (set_field Content_type ''text/plain'' (res\<lparr>res_version := 11, res_result := st\<rparr>))\<lparr>res_body := text\<rparr>"

abbreviation text_400 :: string where "text_400 \<equiv> ''400 Bad Request'' @ crlf2"
abbreviation text_404 :: string where "text_404 \<equiv> ''404 Not Found'' @ crlf2"
abbreviation text_500 :: string where "text_500 \<equiv> ''500 Internal Server Error'' @ crlf2"

definition write_response :: "beast \<Rightarrow> response \<Rightarrow> session \<Rightarrow> session" where
  "write_response b res s =
     s\<lparr>response_of := res, response_string := response_text b res, pending := Writing\<rparr>"

definition respond_to_request ::
    "beast \<Rightarrow> 'd dispatcher \<Rightarrow> session \<Rightarrow> 'd \<Rightarrow> session result \<times> 'd" where
  "respond_to_request b dispatch s d =
     (case read_request b (request_header s @ request_body s) of
        None \<Rightarrow> (Inr (write_response b (error_page Bad_request text_400 (response_of s)) s), d)
      | Some req \<Rightarrow>
          let req' = (if req_body req \<noteq> [] then req\<lparr>req_body := req_body req @ crlf2\<rparr> else req) in
          (case dispatch req' (response_of s) d of
             (Inl e, d') \<Rightarrow> (Inl e, d')
           | (Inr res, d') \<Rightarrow> (Inr (write_response b res s), d')))"

definition respond_to_request_client_error :: "beast \<Rightarrow> session \<Rightarrow> session" where
  "respond_to_request_client_error b s =
     write_response b (error_page Bad_request text_400 (response_of s)) s"

definition respond_to_request_server_error :: "beast \<Rightarrow> session \<Rightarrow> session" where
  "respond_to_request_server_error b s =
     write_response b (error_page Internal_server_error text_500 (response_of s)) s"

section \<open>Completion handlers\<close>

datatype read_event = Got string | Read_failed
datatype write_event = Written | Write_failed

definition body_complete :: "string \<Rightarrow> int \<Rightarrow> bool" where
  \<comment> \<open>\<open>request_body_.size() >= content_length_\<close>: the \<open>int\<close> is converted to \<open>size_t\<close>\<close>
  "body_complete body n \<longleftrightarrow> (if n < 0 then n + 2 ^ 64 else n) \<le> int (length body)"

definition expects_body :: "request_parser \<Rightarrow> bool" where
  "expects_body p \<longleftrightarrow> rp_method p = ''POST'' \<or> rp_method p = ''PUT''"

definition read_content_length :: "request_parser \<Rightarrow> int \<Rightarrow> int result" where
  "read_content_length p old =
     (let text = get_header ''Content-Length'' p in if text \<noteq> [] then stoi text else Inr old)"

definition handle_read_header ::
    "beast \<Rightarrow> 'd dispatcher \<Rightarrow> read_event \<Rightarrow> session \<Rightarrow> 'd \<Rightarrow> session result \<times> 'd" where
  "handle_read_header b dispatch ev s d =
     (case ev of
        Read_failed \<Rightarrow> (Inr (respond_to_request_server_error b s), d)
      | Got str \<Rightarrow>
          let s = s\<lparr>request_string := request_string s @ str\<rparr> in
          (case find_str crlf2 (request_string s) of
             None \<Rightarrow> (Inr (s\<lparr>pending := Reading_header\<rparr>), d)
           | Some header_pos \<Rightarrow>
               let s = s\<lparr>request_header := take (header_pos + 4) (request_string s),
                        request_body := take (length str) (drop (header_pos + 4) (request_string s))\<rparr>;
                   (ok, p) = parse_header (request_header s) (parser s);
                   s = s\<lparr>parser := p\<rparr>
               in if \<not> ok then (Inr (respond_to_request_client_error b s), d)
                  else if expects_body p then
                    (case read_content_length p (content_length s) of
                       Inl e \<Rightarrow> (Inl e, d)
                     | Inr n \<Rightarrow>
                         let s = s\<lparr>content_length := n\<rparr> in
                         if body_complete (request_body s) n then respond_to_request b dispatch s d
                         else (Inr (s\<lparr>pending := Reading_body\<rparr>), d))
                  else respond_to_request b dispatch s d))"

definition handle_read_body ::
    "beast \<Rightarrow> 'd dispatcher \<Rightarrow> read_event \<Rightarrow> session \<Rightarrow> 'd \<Rightarrow> session result \<times> 'd" where
  "handle_read_body b dispatch ev s d =
     (case ev of
        Read_failed \<Rightarrow> (Inr (respond_to_request_server_error b s), d)
      | Got str \<Rightarrow>
          let s = s\<lparr>request_body := request_body s @ str\<rparr> in
          if body_complete (request_body s) (content_length s) then respond_to_request b dispatch s d
          else (Inr (s\<lparr>pending := Reading_body\<rparr>), d))"

definition handle_write :: "write_event \<Rightarrow> session \<Rightarrow> session" where
  "handle_write ev s = s\<lparr>shut_down := (ev = Written), pending := Finished\<rparr>"

section \<open>Runs\<close>

text \<open>Every completion goes to the handler that is pending; a finished session has none.\<close>

datatype event = Read read_event | Write write_event

inductive session_run ::
    "beast \<Rightarrow> 'd dispatcher \<Rightarrow> 'd \<Rightarrow> event list \<Rightarrow> session \<Rightarrow> 'd \<Rightarrow> bool"
  for b dispatch d0 where
  start: "session_run b dispatch d0 [] new_session d0"
| read_header: "session_run b dispatch d0 evs s d \<Longrightarrow> pending s = Reading_header \<Longrightarrow>
    handle_read_header b dispatch ev s d = (Inr s', d') \<Longrightarrow>
    session_run b dispatch d0 (evs @ [Read ev]) s' d'"
| read_body: "session_run b dispatch d0 evs s d \<Longrightarrow> pending s = Reading_body \<Longrightarrow>
    handle_read_body b dispatch ev s d = (Inr s', d') \<Longrightarrow>
    session_run b dispatch d0 (evs @ [Read ev]) s' d'"
| written: "session_run b dispatch d0 evs s d \<Longrightarrow> pending s = Writing \<Longrightarrow>
    session_run b dispatch d0 (evs @ [Write ev]) (handle_write ev s) d"

fun feed :: "beast \<Rightarrow> 'd dispatcher \<Rightarrow> session \<Rightarrow> 'd \<Rightarrow> string list \<Rightarrow> session result \<times> 'd" where
  \<comment> \<open>the reads the network delivers, for as long as the session asks for one\<close>
  "feed b dispatch s d [] = (Inr s, d)"
| "feed b dispatch s d (c # cs) =
     (case pending s of
        Reading_header \<Rightarrow>
          (case handle_read_header b dispatch (Got c) s d of
             (Inl e, d') \<Rightarrow> (Inl e, d')
           | (Inr s', d') \<Rightarrow> feed b dispatch s' d' cs)
      | Reading_body \<Rightarrow>
          (case handle_read_body b dispatch (Got c) s d of
             (Inl e, d') \<Rightarrow> (Inl e, d')
           | (Inr s', d') \<Rightarrow> feed b dispatch s' d' cs)
      | _ \<Rightarrow> (Inr s, d))"

section \<open>Handlers leave the rest of the session alone\<close>

lemma write_response_simps [simp]:
  "pending (write_response b r s) = Writing" "response_of (write_response b r s) = r"
  "response_string (write_response b r s) = response_text b r"
  "request_header (write_response b r s) = request_header s"
  "request_body (write_response b r s) = request_body s"
  "request_string (write_response b r s) = request_string s"
  by (simp_all add: write_response_def)

lemma respond_writes:
  "respond_to_request b disp s d = (Inr s', d') \<Longrightarrow>
   pending s' = Writing \<and> request_header s' = request_header s \<and> request_body s' = request_body s"
  by (auto simp: respond_to_request_def Let_def split: option.splits prod.splits sum.splits if_splits)

text \<open>What the client can see of the outcome of a handler.\<close>

definition visible :: "session result \<times> 'd \<Rightarrow> (response \<times> string) result \<times> 'd" where
  "visible r = (map_sum id (\<lambda>s. (response_of s, response_string s)) (fst r), snd r)"

lemma visible_respond:
  "request_header s = request_header t \<Longrightarrow> request_body s = request_body t \<Longrightarrow>
   response_of s = response_of t \<Longrightarrow>
   visible (respond_to_request b disp s d) = visible (respond_to_request b disp t d)"
  by (auto simp: respond_to_request_def Let_def visible_def split: option.splits prod.splits sum.splits)

section \<open>The body arrives whole, however the stream is cut\<close>

text \<open>A header block: it ends with the first empty line it contains.\<close>

definition header_block :: "string \<Rightarrow> bool" where
  "header_block h \<longleftrightarrow> 4 \<le> length h \<and> find_str crlf2 h = Some (length h - 4)"

lemma header_found:
  assumes "header_block h" and "find_str crlf2 (pre @ c) = Some pos"
    and "pre @ c @ rest = h @ body" and "find_str crlf2 pre = None"
  shows "pos + 4 = length h" and "length pre < length h" and "length h \<le> length (pre @ c)"
    and "body = drop (length h) (pre @ c) @ rest"
proof -
  from assms(1) have h: "find_str crlf2 h = Some (length h - 4)" "4 \<le> length h"
    by (simp_all add: header_block_def)
  have "find_str crlf2 ((pre @ c) @ rest) = Some pos" using assms(2) by (rule find_str_append)
  moreover have "find_str crlf2 (h @ body) = Some (length h - 4)" using h(1) by (rule find_str_append)
  ultimately have pos: "pos = length h - 4" using assms(3) by simp
  with h show p4: "pos + 4 = length h" by simp
  have "pos + length crlf2 \<le> length (pre @ c)" using find_str_SomeD [OF assms(2)] by blast
  with p4 show le: "length h \<le> length (pre @ c)" by simp
  show "length pre < length h"
  proof (rule ccontr)
    assume "\<not> length pre < length h"
    then have "take (length h) (pre @ c @ rest) = take (length h) pre" by simp
    then have "pre = h @ drop (length h) pre"
      using assms(3) by (metis append_eq_conv_conj append_take_drop_id)
    then have "find_str crlf2 pre = Some (length h - 4)" using find_str_append [OF h(1)] by metis
    with assms(4) show False by simp
  qed
  have "h @ body = (pre @ c) @ rest" using assms(3) by simp
  with le show "body = drop (length h) (pre @ c) @ rest"
    by (metis append_eq_append_conv_if append_eq_conv_conj append_take_drop_id drop_append diff_is_0_eq drop0)
qed

lemma concat_nonempty: "[] \<notin> set cs \<Longrightarrow> concat cs = [] \<Longrightarrow> cs = []"
  by (cases cs) auto

lemma feed_body:
  assumes "pending s = Reading_body" and "[] \<notin> set cs"
    and "request_body s @ concat cs = body" and "length (request_body s) < length body"
    and "content_length s = int (length body)"
  shows "visible (feed b disp s d cs) =
    visible (respond_to_request b disp (s\<lparr>request_body := body\<rparr>) d)"
  using assms
proof (induction cs arbitrary: s)
  case Nil
  then show ?case by simp
next
  case (Cons c cs)
  let ?s = "s\<lparr>request_body := request_body s @ c\<rparr>"
  show ?case
  proof (cases "length (request_body ?s) < length body")
    case True
    then have nc: "\<not> body_complete (request_body s @ c) (content_length s)"
      using Cons.prems by (simp add: body_complete_def)
    have "visible (feed b disp (?s\<lparr>pending := Reading_body\<rparr>) d cs) =
        visible (respond_to_request b disp ((?s\<lparr>pending := Reading_body\<rparr>)\<lparr>request_body := body\<rparr>) d)"
      using Cons.prems True by (intro Cons.IH) auto
    also have "\<dots> = visible (respond_to_request b disp (s\<lparr>request_body := body\<rparr>) d)"
      by (rule visible_respond) simp_all
    finally show ?thesis using Cons.prems nc by (simp add: handle_read_body_def Let_def)
  next
    case False
    have "length (request_body ?s) + length (concat cs) = length body"
      using arg_cong [OF Cons.prems(3), of length] by simp
    with False have "length (concat cs) = 0" by linarith
    then have "concat cs = []" by (simp only: length_0_conv)
    with Cons.prems have cs: "cs = []" "request_body s @ c = body"
      using concat_nonempty [of cs] by auto
    then have "body_complete (request_body s @ c) (content_length s)"
      using Cons.prems by (simp add: body_complete_def)
    with Cons.prems cs show ?thesis
      by (auto simp: handle_read_body_def visible_def split: prod.split sum.split)
  qed
qed

text \<open>The parsed header asks for a body of this length; without POST or PUT for none.\<close>

definition announces :: "request_parser \<Rightarrow> int \<Rightarrow> nat \<Rightarrow> bool" where
  "announces p old n \<longleftrightarrow>
     (if expects_body p then read_content_length p old = Inr (int n) else n = 0)"

lemma announcesI: "expects_body p \<Longrightarrow> read_content_length p old = Inr (int n) \<Longrightarrow> announces p old n"
  by (simp add: announces_def)

lemma feed_header:
  fixes h body :: string
  assumes h: "header_block h" and p: "parse_header h (parser s) = (True, p)"
    and n: "announces p (content_length s) (length body)"
    and s: "pending s = Reading_header" "find_str crlf2 (request_string s) = None"
    and cs: "[] \<notin> set cs" "request_string s @ concat cs = h @ body"
  shows "visible (feed b disp s d cs) =
    visible (respond_to_request b disp (s\<lparr>request_header := h, request_body := body\<rparr>) d)"
  using s cs p n
proof (induction cs arbitrary: s)
  case Nil
  then have "request_string s = h @ body" by simp
  moreover have "find_str crlf2 (h @ body) = Some (length h - 4)"
    using h by (intro find_str_append) (simp add: header_block_def)
  ultimately show ?case using Nil.prems(2) by simp
next
  case (Cons c cs)
  let ?pre = "request_string s"
  show ?case
  proof (cases "find_str crlf2 (?pre @ c)")
    case None
    let ?s = "s\<lparr>request_string := ?pre @ c, pending := Reading_header\<rparr>"
    have "visible (feed b disp ?s d cs) =
        visible (respond_to_request b disp (?s\<lparr>request_header := h, request_body := body\<rparr>) d)"
      using Cons.prems None by (intro Cons.IH) auto
    also have "\<dots> = visible (respond_to_request b disp (s\<lparr>request_header := h, request_body := body\<rparr>) d)"
      by (rule visible_respond) simp_all
    finally show ?thesis using Cons.prems None by (simp add: handle_read_header_def Let_def)
  next
    case (Some pos)
    have whole: "?pre @ c @ concat cs = h @ body" using Cons.prems(4) by simp
    note found = header_found [OF h Some whole Cons.prems(2)]
    let ?body0 = "drop (length h) (?pre @ c)"
    let ?s = "s\<lparr>request_string := ?pre @ c, request_header := h, request_body := ?body0,
      parser := p, content_length := int (length body)\<rparr>"
    have hdr: "take (pos + 4) (?pre @ c) = h"
    proof -
      have "take (length h) ((?pre @ c) @ concat cs) = take (length h) (h @ body)"
        using whole by simp
      with found(3) show ?thesis by (simp add: found(1))
    qed
    have bdy: "take (length c) (drop (pos + 4) (?pre @ c)) = ?body0"
      using found(1,2) by simp
    have all_read: "cs = [] \<and> ?body0 = body" if "\<not> length ?body0 < length body"
    proof -
      have "length ?body0 + length (concat cs) = length body"
        using arg_cong [OF found(4), of length] by simp
      with that have "length (concat cs) = 0" by linarith
      then have "concat cs = []" by (simp only: length_0_conv)
      with Cons.prems(3) found(4) show ?thesis using concat_nonempty [of cs] by auto
    qed
    show ?thesis
    proof (cases "expects_body p")
      case False
      with Cons.prems(6) have "\<not> length ?body0 < length body" by (simp add: announces_def)
      with all_read have cs: "cs = []" "?body0 = body" by blast+
      have "handle_read_header b disp (Got c) s d =
          respond_to_request b disp (?s\<lparr>content_length := content_length s\<rparr>) d"
        using Cons.prems(5) False Some hdr bdy by (simp add: handle_read_header_def Let_def)
      then have "visible (feed b disp s d (c # cs)) =
          visible (respond_to_request b disp (?s\<lparr>content_length := content_length s\<rparr>) d)"
        using Cons.prems(1) cs(1) by (auto simp: visible_def split: prod.split sum.split)
      also have "\<dots> = visible (respond_to_request b disp (s\<lparr>request_header := h, request_body := body\<rparr>) d)"
        using cs(2) by (intro visible_respond) simp_all
      finally show ?thesis .
    next
      case True
      with Cons.prems(6) have "read_content_length p (content_length s) = Inr (int (length body))"
        by (simp add: announces_def)
      with Cons.prems True Some hdr bdy have step: "handle_read_header b disp (Got c) s d =
          (if body_complete ?body0 (int (length body)) then respond_to_request b disp ?s d
           else (Inr (?s\<lparr>pending := Reading_body\<rparr>), d))"
        by (simp add: handle_read_header_def Let_def)
      show ?thesis
      proof (cases "length ?body0 < length body")
        case True
        then have nc: "\<not> body_complete ?body0 (int (length body))" by (simp add: body_complete_def)
        have "visible (feed b disp (?s\<lparr>pending := Reading_body\<rparr>) d cs) =
            visible (respond_to_request b disp ((?s\<lparr>pending := Reading_body\<rparr>)\<lparr>request_body := body\<rparr>) d)"
          using Cons.prems True found(4) by (intro feed_body) auto
        also have "\<dots> = visible (respond_to_request b disp (s\<lparr>request_header := h, request_body := body\<rparr>) d)"
          by (rule visible_respond) simp_all
        finally show ?thesis using Cons.prems(1) step nc by simp
      next
        case False
        with all_read have cs: "cs = []" and b0: "?body0 = body" by blast+
        then have "body_complete ?body0 (int (length body))" by (simp add: body_complete_def)
        then have "visible (feed b disp s d (c # cs)) = visible (respond_to_request b disp ?s d)"
          using Cons.prems(1) step cs by (auto simp: visible_def split: prod.split sum.split)
        also have "\<dots> = visible (respond_to_request b disp (s\<lparr>request_header := h, request_body := body\<rparr>) d)"
          using b0 by (intro visible_respond) simp_all
        finally show ?thesis .
      qed
    qed
  qed
qed

text \<open>A negative content length is a huge \<open>size_t\<close>: the body is never complete.\<close>

lemma feed_never_complete:
  assumes "pending s = Reading_body" and "content_length s < 0"
    and "int (length (request_body s @ concat cs)) < content_length s + 2 ^ 64"
  shows "\<exists>s'. feed b disp s d cs = (Inr s', d) \<and> pending s' = Reading_body \<and>
    content_length s' = content_length s \<and> request_body s' = request_body s @ concat cs"
  using assms
proof (induction cs arbitrary: s)
  case Nil
  then show ?case by simp
next
  case (Cons c cs)
  let ?s = "s\<lparr>request_body := request_body s @ c, pending := Reading_body\<rparr>"
  have "handle_read_body b disp (Got c) s d = (Inr ?s, d)"
    using Cons.prems by (simp add: handle_read_body_def body_complete_def)
  then show ?case using Cons.IH [of ?s] Cons.prems by simp
qed

section \<open>Invariants of a run\<close>

fun received :: "event list \<Rightarrow> string" where
  "received [] = []"
| "received (Read (Got c) # evs) = c @ received evs"
| "received (_ # evs) = received evs"

lemma received_append [simp]: "received (xs @ ys) = received xs @ received ys"
  by (induction xs rule: received.induct) auto

definition read_failed :: "event list \<Rightarrow> bool" where
  "read_failed evs \<longleftrightarrow> Read Read_failed \<in> set evs"

definition writes :: "event list \<Rightarrow> nat" where
  "writes evs = length (filter (\<lambda>e. case e of Write _ \<Rightarrow> True | Read _ \<Rightarrow> False) evs)"

text \<open>
  While the header is read, everything received is kept and holds no empty line; from then
  on header and body together are what was received, and the header is the part up to the
  first empty line. A write happens once, at the end.
\<close>

definition session_inv :: "event list \<Rightarrow> session \<Rightarrow> bool" where
  "session_inv evs s \<longleftrightarrow>
     (pending s = Reading_header \<longrightarrow>
        request_string s = received evs \<and> find_str crlf2 (request_string s) = None) \<and>
     (pending s \<noteq> Reading_header \<longrightarrow> \<not> read_failed evs \<longrightarrow>
        request_header s @ request_body s = received evs \<and> header_block (request_header s)) \<and>
     (pending s = Reading_body \<longrightarrow> \<not> read_failed evs) \<and>
     writes evs = (if pending s = Finished then 1 else 0)"

lemma find_str_take:
  "find_str t s = Some i \<Longrightarrow> find_str t (take (i + length t) s) = Some i"
proof (induction s arbitrary: i)
  case Nil
  then show ?case by (auto split: if_splits)
next
  case (Cons x xs)
  show ?case
  proof (cases "prefix t (x # xs)")
    case True
    with Cons.prems have "i = 0" by simp
    moreover have "take (length t) (x # xs) = t" using True by (auto simp: prefix_def)
    moreover have "find_str t t = Some 0" by (cases t) auto
    ultimately show ?thesis by simp
  next
    case False
    with Cons.prems obtain j where j: "find_str t xs = Some j" "i = Suc j" by auto
    have "\<not> prefix t (x # take (j + length t) xs)"
      using False by (metis prefix_order.trans take_is_prefix take_Suc_Cons)
    with Cons.IH [OF j(1)] j(2) show ?thesis by simp
  qed
qed

lemma header_split:
  assumes "find_str crlf2 (pre @ c) = Some pos" and "find_str crlf2 pre = None"
  shows "header_block (take (pos + 4) (pre @ c))"
    and "take (pos + 4) (pre @ c) @ take (length c) (drop (pos + 4) (pre @ c)) = pre @ c"
proof -
  have four: "length crlf2 = 4" by simp
  have le: "pos + 4 \<le> length (pre @ c)" using find_str_SomeD [OF assms(1)] by simp
  have "header_block (take (pos + 4) w)" if "find_str crlf2 w = Some pos" "pos + 4 \<le> length w" for w
    using find_str_take [OF that(1), unfolded four] that(2) by (simp add: header_block_def)
  from this [OF assms(1) le] show block: "header_block (take (pos + 4) (pre @ c))" .
  have "pre @ c @ [] = take (pos + 4) (pre @ c) @ drop (pos + 4) (pre @ c)"
    by (simp only: append_take_drop_id append_Nil2)
  from header_found(2) [OF block assms(1) this assms(2)] le
  have "length (drop (pos + 4) (pre @ c)) \<le> length c" by simp
  then show "take (pos + 4) (pre @ c) @ take (length c) (drop (pos + 4) (pre @ c)) = pre @ c"
    by (metis append_take_drop_id take_all)
qed

lemma writes_snoc [simp]:
  "writes (evs @ [Read e]) = writes evs" "writes (evs @ [Write w]) = Suc (writes evs)"
  by (simp_all add: writes_def)

lemma read_failed_snoc [simp]:
  "read_failed (evs @ [Read (Got c)]) = read_failed evs" "read_failed (evs @ [Read Read_failed])"
  "read_failed (evs @ [Write w]) = read_failed evs"
  by (auto simp: read_failed_def)

lemma session_inv_header [inv_intros]:
  assumes inv: "session_inv evs s" and pend: "pending s = Reading_header" and nf: "\<not> read_failed evs"
    and step: "handle_read_header b disp ev s d = (Inr s', d')"
  shows "session_inv (evs @ [Read ev]) s'"
proof (cases ev)
  case Read_failed
  with assms show ?thesis
    by (auto simp: session_inv_def handle_read_header_def respond_to_request_server_error_def)
next
  case (Got c)
  let ?w = "request_string s @ c"
  from inv pend have pre: "request_string s = received evs" "find_str crlf2 (request_string s) = None"
    and w0: "writes evs = 0" by (auto simp: session_inv_def)
  show ?thesis
  proof (cases "find_str crlf2 ?w")
    case None
    with Got pre w0 step show ?thesis by (auto simp: handle_read_header_def session_inv_def)
  next
    case (Some pos)
    note split = header_split [OF Some pre(2)]
    obtain ok p where p: "parse_header (take (pos + 4) ?w) (parser s) = (ok, p)"
      by (cases "parse_header (take (pos + 4) ?w) (parser s)")
    have "request_header s' = take (pos + 4) ?w \<and>
        request_body s' = take (length c) (drop (pos + 4) ?w) \<and>
        (pending s' = Writing \<or> pending s' = Reading_body)"
      using step Got Some p
      by (auto simp: handle_read_header_def Let_def respond_to_request_client_error_def
          dest!: respond_writes split: if_splits sum.splits)
    with split pre w0 Got nf show ?thesis by (auto simp: session_inv_def)
  qed
qed

lemma session_inv_body [inv_intros]:
  assumes inv: "session_inv evs s" and pend: "pending s = Reading_body"
    and step: "handle_read_body b disp ev s d = (Inr s', d')"
  shows "session_inv (evs @ [Read ev]) s'"
proof (cases ev)
  case Read_failed
  with assms show ?thesis
    by (auto simp: session_inv_def handle_read_body_def respond_to_request_server_error_def)
next
  case (Got c)
  then have "request_header s' = request_header s \<and> request_body s' = request_body s @ c \<and>
      (pending s' = Writing \<or> pending s' = Reading_body)"
    using step by (auto simp: handle_read_body_def Let_def dest!: respond_writes split: if_splits)
  with inv pend Got show ?thesis by (auto simp: session_inv_def)
qed

lemma pending_handle_write [simp]: "pending (handle_write w s) = Finished"
  by (simp add: handle_write_def)

lemma session_inv_write [inv_intros]:
  "session_inv evs s \<Longrightarrow> pending s = Writing \<Longrightarrow> session_inv (evs @ [Write w]) (handle_write w s)"
  by (auto simp: session_inv_def handle_write_def)

lemma session_run_inv:
  "session_run b disp d0 evs s d \<Longrightarrow>
   session_inv evs s \<and> (read_failed evs \<longrightarrow> pending s = Writing \<or> pending s = Finished)"
proof (induction rule: session_run.induct)
  case start
  show ?case by (simp add: session_inv_def new_session_def read_failed_def writes_def)
next
  case (read_header evs s d ev s' d')
  then have "\<not> read_failed evs" by auto
  with read_header show ?case
    by (cases ev) (auto intro: inv_intros
        simp: handle_read_header_def respond_to_request_server_error_def)
next
  case (read_body evs s d ev s' d')
  then have "\<not> read_failed evs" by auto
  with read_body show ?case
    by (cases ev) (auto intro: inv_intros
        simp: handle_read_body_def respond_to_request_server_error_def)
next
  case (written evs s d ev)
  then show ?case by (simp add: session_inv_write)
qed

section \<open>Properties\<close>

text \<open>
  C10: a request without a body, or a POST or PUT whose Content-Length is the length of its body,
  is answered by the same response, with the same effect behind the dispatcher, however the
  network cuts the stream into nonempty reads: the dispatcher sees exactly the header block and
  the body.
\<close>
theorem body_delivered_whole:
  assumes "header_block h" and "parse_header h new_request_parser = (True, p)"
    and "announces p 0 (length body)"
    and "[] \<notin> set cs" and "concat cs = h @ body"
  shows "visible (feed b dispatch new_session d cs) =
    visible (respond_to_request b dispatch
      (new_session\<lparr>request_header := h, request_body := body\<rparr>) d)"
  using feed_header [of h new_session p body cs b dispatch d] assms
  by (simp add: new_session_def)

definition sample_header :: "string \<Rightarrow> string" where
  "sample_header n = render_request ''POST'' ''/echo'' ''HTTP/1.0'' [(''Content-Length'', n)]"

definition sample_parser :: "string \<Rightarrow> request_parser" where
  "sample_parser n = new_request_parser\<lparr>rp_method := ''POST'', rp_url := ''/echo'',
     rp_http_version := ''HTTP/1.0'', rp_headers := [(''Content-Length'', n @ [creturn])]\<rparr>"

lemma sample_header_parse:
  assumes "newline \<notin> set n"
  shows "parse_header (sample_header n) new_request_parser = (True, sample_parser n)"
proof -
  have "word ''POST''" "word ''/echo''" "word ''HTTP/1.0''"
    "list_all header_entry [(''Content-Length'', n)]"
    using assms by (simp_all add: word_def is_space_def header_entry_def)
  from parse_header_render [OF this, of new_request_parser] show ?thesis
    by (simp add: sample_header_def sample_parser_def new_request_parser_def)
qed

lemma sample_header_block:
  "header_block (sample_header '' 3'')" "header_block (sample_header '' -1'')"
  "header_block (sample_header '' abc'')"
  by (simp_all add: sample_header_def render_request_def render_header_def header_block_def)

lemma sample_parser_facts:
  "expects_body (sample_parser n)" "get_header ''Content-Length'' (sample_parser n) = n @ [creturn]"
  by (simp_all add: sample_parser_def expects_body_def get_header_def map_get_def)

lemma sample_length:
  "stoi (n @ [creturn]) = Inr v \<Longrightarrow> read_content_length (sample_parser n) 0 = Inr v"
  by (simp add: read_content_length_def sample_parser_facts(2))

definition count_dispatch :: "nat dispatcher" where
  "count_dispatch req res n = (Inr (res\<lparr>res_body := req_target req\<rparr>), Suc n)"

theorem body_delivered_whole_witness:
  "visible (feed sample_beast count_dispatch new_session 0
      [take 10 (sample_header '' 3''), drop 10 (sample_header '' 3'') @ ''a'', ''b'', ''c'']) =
   visible (respond_to_request sample_beast count_dispatch
      (new_session\<lparr>request_header := sample_header '' 3'', request_body := ''abc''\<rparr>) 0)"
proof -
  let ?h = "sample_header '' 3''"
  have "strtol ('' 3'' @ [creturn]) = Some 3"
    by (simp add: strtol_def sign_split_def is_space_def is_digit_def digits_value_def digit_value_def)
  then have "stoi ('' 3'' @ [creturn]) = Inr (int (length ''abc''))"
    by (simp add: stoi_def in_int_range_def)
  note n = sample_length [OF this]
  have cs: "[] \<notin> set [take 10 ?h, drop 10 ?h @ ''a'', ''b'', ''c'']"
    "concat [take 10 ?h, drop 10 ?h @ ''a'', ''b'', ''c''] = ?h @ ''abc''"
    by (simp_all add: sample_header_def render_request_def render_header_def)
  show ?thesis
    by (rule body_delivered_whole [OF sample_header_block(1) sample_header_parse announcesI [OF sample_parser_facts(1) n] cs])
      simp
qed

text \<open>
  At every point of every run of a session, nothing received is lost or reordered (header
  and body together are what was received, the header being the part up to the first empty
  line, unless a read failed); a failed read is followed by a response; and the response is
  written exactly once, after which the session is finished.
\<close>
lemma session_run_invariant:
  assumes "session_run b dispatch d0 evs s d"
  shows "session_inv evs s \<and> (read_failed evs \<longrightarrow> pending s = Writing \<or> pending s = Finished)"
  using assms by (rule session_run_inv)



text \<open>
  A POST or PUT request whose Content-Length is not a number that fits an \<open>int\<close> makes the
  completion handler throw: the exception of \<open>std::stoi\<close> escapes, no response is written.
\<close>
lemma bad_length_escapes:
  assumes "header_block h" and "parse_header h new_request_parser = (True, p)" and "expects_body p"
    and "get_header ''Content-Length'' p \<noteq> []" and "stoi (get_header ''Content-Length'' p) = Inl e"
  shows "feed b dispatch new_session d (h # cs) = (Inl e, d)"
proof -
  have f: "find_str crlf2 h = Some (length h - 4)" "length h - 4 + 4 = length h"
    using assms(1) by (simp_all add: header_block_def)
  have "read_content_length p 0 = Inl e" using assms(4,5) by (simp add: read_content_length_def)
  with f assms(2,3) show ?thesis by (simp add: handle_read_header_def new_session_def Let_def)
qed

text \<open>
  A header that the server's parser rejects is answered with 400 and the canned text,
  without consulting the dispatcher.
\<close>
lemma malformed_header_rejected:
  assumes "header_block h" and "parse_header h new_request_parser = (False, p)"
  shows "\<exists>s. handle_read_header b dispatch (Got (h @ rest)) new_session d = (Inr s, d) \<and>
    pending s = Writing \<and> res_result (response_of s) = Bad_request \<and>
    res_body (response_of s) = text_400 \<and> response_string s = response_text b (response_of s)"
proof -
  have "find_str crlf2 (h @ rest) = Some (length h - 4)"
    using assms(1) by (intro find_str_append) (simp add: header_block_def)
  moreover have "length h - 4 + 4 = length h" using assms(1) by (simp add: header_block_def)
  ultimately show ?thesis
    using assms(2)
    by (simp add: handle_read_header_def new_session_def Let_def error_page_def
        respond_to_request_client_error_def)
qed

end
