(* ===== verification/Os.thy ===== *)
theory Os
  imports Cpp_Std
begin

text \<open>
  The file system below the server: Boost.Filesystem and the file streams, on a state \<open>'w\<close> of
  the disk. It is not code of the repository, so it is a parameter, the record \<open>os\<close>; \<open>None\<close> is
  a thrown \<open>filesystem_error\<close> or a stream that did not open. What the properties rely on is the
  predicate \<open>os_laws\<close>, the documented effect of each call on the path it names. Paths are
  compared as text: nothing is assumed about another path after a change, because another
  spelling can name the same file. \<open>sample_os\<close> is an instance for the concrete examples.
\<close>

record 'w os =
  os_exists :: "'w \<Rightarrow> string \<Rightarrow> bool"
  os_is_directory :: "'w \<Rightarrow> string \<Rightarrow> bool"
  os_create_directory :: "'w \<Rightarrow> string \<Rightarrow> 'w option"
  os_remove :: "'w \<Rightarrow> string \<Rightarrow> 'w option"
  os_remove_all :: "'w \<Rightarrow> string \<Rightarrow> 'w option"
  os_entries :: "'w \<Rightarrow> string \<Rightarrow> (string \<times> string) list"
    \<comment> \<open>path and file name of the entries of a directory, in iteration order\<close>
  os_read :: "'w \<Rightarrow> string \<Rightarrow> string option"          \<comment> \<open>open and read to the end\<close>
  os_write :: "'w \<Rightarrow> string \<Rightarrow> string \<Rightarrow> 'w option"   \<comment> \<open>open, truncate, write, close\<close>

definition os_laws :: "'w os \<Rightarrow> bool" where
  "os_laws os \<longleftrightarrow>
     (\<forall>w p c w'. os_write os w p c = Some w' \<longrightarrow>
        os_read os w' p = Some c \<and> os_exists os w' p \<and> \<not> os_is_directory os w' p) \<and>
     (\<forall>w p w'. os_create_directory os w p = Some w' \<longrightarrow> os_exists os w' p \<and> os_is_directory os w' p) \<and>
     (\<forall>w p w'. os_remove os w p = Some w' \<longrightarrow> \<not> os_exists os w' p) \<and>
     (\<forall>w p w'. os_remove_all os w p = Some w' \<longrightarrow> \<not> os_exists os w' p)"

lemma os_lawsD:
  assumes "os_laws os"
  shows "os_write os w p c = Some w' \<Longrightarrow> os_read os w' p = Some c"
    and "os_write os w p c = Some w' \<Longrightarrow> os_exists os w' p"
    and "os_write os w p c = Some w' \<Longrightarrow> \<not> os_is_directory os w' p"
    and "os_create_directory os w p = Some w' \<Longrightarrow> os_exists os w' p"
    and "os_create_directory os w p = Some w' \<Longrightarrow> os_is_directory os w' p"
    and "os_remove os w p = Some w' \<Longrightarrow> \<not> os_exists os w' p"
    and "os_remove_all os w p = Some w' \<Longrightarrow> \<not> os_exists os w' p"
  using assms unfolding os_laws_def by blast+

section \<open>A small instance\<close>

text \<open>
  A disk is a list of paths with their contents, a directory being a path without contents.
  A file is written only where its parent directory exists.
\<close>

type_synonym disk = "(string \<times> string option) list"

definition parent_dir :: "string \<Rightarrow> string" where
  "parent_dir p = (case rfind_char slash p of None \<Rightarrow> [] | Some i \<Rightarrow> take i p)"

definition under :: "string \<Rightarrow> string \<Rightarrow> bool" where
  "under d p \<longleftrightarrow> prefix (d @ ''/'') p"

definition sample_os :: "disk os" where
  "sample_os =
     \<lparr>os_exists = (\<lambda>w p. map_of w p \<noteq> None),
      os_is_directory = (\<lambda>w p. map_of w p = Some None),
      os_create_directory =
        (\<lambda>w p. case map_of w p of
                 Some None \<Rightarrow> Some w
               | Some (Some _) \<Rightarrow> None
               | None \<Rightarrow> if map_of w (parent_dir p) = Some None then Some ((p, None) # w) else None),
      os_remove = (\<lambda>w p. if \<exists>e \<in> set w. under p (fst e) then None else Some (filter (\<lambda>e. fst e \<noteq> p) w)),
      os_remove_all = (\<lambda>w p. Some (filter (\<lambda>e. fst e \<noteq> p \<and> \<not> under p (fst e)) w)),
      os_entries = (\<lambda>w p. map (\<lambda>q. (q, drop (length p + 1) q))
        (remdups (filter (\<lambda>q. under p q \<and> drop (length p + 1) q \<notin> {[], ''.'', ''..''} \<and>
            slash \<notin> set (drop (length p + 1) q)) (map fst w)))),
      os_read = (\<lambda>w p. case map_of w p of Some (Some c) \<Rightarrow> Some c | _ \<Rightarrow> None),
      os_write =
        (\<lambda>w p c. if map_of w p = Some None \<or> map_of w (parent_dir p) \<noteq> Some None then None
                 else Some ((p, Some c) # w))\<rparr>"

lemma map_of_filter_out [simp]:
  "map_of (filter (\<lambda>e. fst e \<noteq> p) w) p = None"
  "map_of (filter (\<lambda>e. fst e \<noteq> p \<and> Q e) w) p = None"
  by (induction w) auto

lemma sample_os_laws: "os_laws sample_os"
  by (auto simp: os_laws_def sample_os_def split: option.splits if_splits)

end
