(* ===== verification/Crud.thy ===== *)
theory Crud
  imports Os Http Config_Query
begin

text \<open>
  The entity store: \<open>CrudHandler\<close> (\<open>src/handler/crud_handler.cc\<close>) and the table of identifiers
  that \<open>CrudHandlerFactory\<close> (\<open>src/factory/crud_handler_factory.cc\<close>) shares with every handler
  it makes. A handler takes the request, the response object it fills, the table and the disk,
  and returns all three with its status; the lock it holds makes it one step.
\<close>

section \<open>Identifiers\<close>

type_synonym entity_ids = "string \<Rightarrow> int list option"

fun available_from :: "int \<Rightarrow> int list \<Rightarrow> int" where
  \<comment> \<open>the loop of \<open>get_available_id\<close>, from \<open>current_id\<close>\<close>
  "available_from current_id [] = current_id"
| "available_from current_id (x # xs) =
     (if x = current_id then available_from (current_id + 1) xs else current_id)"

definition get_available_id :: "entity_ids \<Rightarrow> string \<Rightarrow> int" where
  "get_available_id ids dir = (case ids dir of None \<Rightarrow> 1 | Some xs \<Rightarrow> available_from 1 xs)"

definition insert_id :: "int \<Rightarrow> int list \<Rightarrow> int list" where
  "insert_id i xs = (if i \<in> set xs then xs else sort (xs @ [i]))"

definition add_id_to_entity :: "string \<Rightarrow> int \<Rightarrow> entity_ids \<Rightarrow> entity_ids" where
  "add_id_to_entity dir i ids =
     (case ids dir of
        None \<Rightarrow> ids(dir \<mapsto> [i])
      | Some xs \<Rightarrow> ids(dir \<mapsto> insert_id i xs))"

definition remove_id_from_entity :: "string \<Rightarrow> int \<Rightarrow> entity_ids \<Rightarrow> bool \<times> entity_ids" where
  \<comment> \<open>the first occurrence is erased\<close>
  "remove_id_from_entity dir i ids =
     (case ids dir of
        None \<Rightarrow> (False, ids)
      | Some xs \<Rightarrow> if i \<in> set xs then (True, ids(dir \<mapsto> remove1 i xs)) else (False, ids))"

definition entity_exists :: "entity_ids \<Rightarrow> string \<Rightarrow> int \<Rightarrow> bool" where
  "entity_exists ids dir i = (case ids dir of None \<Rightarrow> False | Some xs \<Rightarrow> i \<in> set xs)"

definition ends_with_id :: "string \<Rightarrow> bool result" where
  "ends_with_id target =
     and_then (substr target (succ_pos (rfind_char slash target)) None) (\<lambda>possible_id.
       case stoi possible_id of
         Inr _ \<Rightarrow> Inr True
       | Inl e \<Rightarrow> if e = Invalid_argument then Inr False else Inl e)"

section \<open>Responses\<close>

definition text_response :: "beast \<Rightarrow> status \<Rightarrow> string \<Rightarrow> response \<Rightarrow> response" where
  \<comment> \<open>what the five \<open>prepare_*_response\<close> functions have in common\<close>
  "text_response b st body res =
     prepare_payload b ((set_field Content_type ''text/plain'' (res\<lparr>res_result := st\<rparr>))\<lparr>res_body := body\<rparr>)"

definition id_note :: "string \<Rightarrow> int \<Rightarrow> string" where
  "id_note what i = what @ '' Entity {'' @ [quote2] @ ''id'' @ [quote2] @ '':'' @ int_to_string i @ ''}'' @ [newline]"

definition prepare_created_response :: "beast \<Rightarrow> int \<Rightarrow> response \<Rightarrow> response" where
  "prepare_created_response b i = text_response b Created (id_note ''Created'' i)"

definition prepare_bad_response :: "beast \<Rightarrow> string \<Rightarrow> response \<Rightarrow> response" where
  "prepare_bad_response b body = text_response b Bad_request body"

definition prepare_deleted_response :: "beast \<Rightarrow> int \<Rightarrow> response \<Rightarrow> response" where
  "prepare_deleted_response b i = text_response b Status_ok (id_note ''Deleted'' i)"

definition prepare_update_response :: "beast \<Rightarrow> int \<Rightarrow> response \<Rightarrow> response" where
  "prepare_update_response b i = text_response b Status_ok (id_note ''Update'' i)"

definition prepare_server_error_response :: "beast \<Rightarrow> string \<Rightarrow> response \<Rightarrow> response" where
  "prepare_server_error_response b body = text_response b Internal_server_error body"

section \<open>The handler\<close>

record 'w crud =
  crud_ids :: entity_ids
  crud_disk :: 'w

type_synonym 'w crud_result = "status result \<times> response \<times> 'w crud"

definition bad_request :: "beast \<Rightarrow> string \<Rightarrow> response \<Rightarrow> 'w crud \<Rightarrow> 'w crud_result" where
  "bad_request b reason res s = (Inr Bad_request, prepare_bad_response b reason res, s)"

definition handle_creation ::
    "beast \<Rightarrow> 'w os \<Rightarrow> string \<Rightarrow> request \<Rightarrow> response \<Rightarrow> 'w crud \<Rightarrow> 'w crud_result" where
  "handle_creation b os root req res s =
     (let target = req_target req in
      case rfind_char slash target of
        None \<Rightarrow> bad_request b ''Invalid path format for Create Entity request.'' res s
      | Some last_slash \<Rightarrow>
          if \<not> last_slash + 1 < length target
          then bad_request b ''Invalid path format for Create Entity request.'' res s
          else
            let target_dir = drop (last_slash + 1) target;
                path = root @ ''/'' @ target_dir;
                w = crud_disk s;
                made = (if \<not> os_exists os w path \<or> \<not> os_is_directory os w path
                        then os_create_directory os w path else Some w)
            in case made of
                 None \<Rightarrow> bad_request b ''Creation of directory for Entity failed.'' res s
               | Some w1 \<Rightarrow>
                   let i = get_available_id (crud_ids s) target_dir;
                       file = path @ ''/'' @ int_to_string i
                   in case os_write os w1 file (req_body req) of
                        Some w2 \<Rightarrow>
                          (Inr Created, prepare_created_response b i res,
                           \<lparr>crud_ids = add_id_to_entity target_dir i (crud_ids s), crud_disk = w2\<rparr>)
                      | None \<Rightarrow>
                          bad_request b (''Failed to write to file during Entity creation at : '' @ file)
                            res (s\<lparr>crud_disk := w1\<rparr>))"

definition handle_deletion ::
    "beast \<Rightarrow> 'w os \<Rightarrow> string \<Rightarrow> request \<Rightarrow> response \<Rightarrow> 'w crud \<Rightarrow> 'w crud_result" where
  "handle_deletion b os root req res s =
     (let target = req_target req;
          bad = bad_request b ''Invalid path format for Delete Entity request.'' res s
      in case rfind_char slash target of
           None \<Rightarrow> bad
         | Some last_slash \<Rightarrow>
             if \<not> last_slash + 1 < length target then bad
             else (case rfind_char_from slash target (pred_pos last_slash) of
                     None \<Rightarrow> bad
                   | Some entity_slash \<Rightarrow>
                       if \<not> entity_slash + 1 < length target then bad
                       else
                         let target_entity_and_id = drop (entity_slash + 1) target;
                             \<comment> \<open>the count \<open>last_slash - entity_slash - 1\<close> is \<open>npos\<close> if both are equal\<close>
                             target_entity =
                               (if entity_slash < last_slash
                                then take (last_slash - entity_slash - 1) target_entity_and_id
                                else target_entity_and_id);
                             target_id = drop (last_slash + 1) target;
                             path = root @ ''/'' @ target_entity_and_id;
                             w = crud_disk s
                         in if os_exists os w path \<and> \<not> os_is_directory os w path then
                              (case stoi target_id of
                                 Inl e \<Rightarrow>
                                   if e = Invalid_argument
                                   then bad_request b
                                          ''Expected a number for Entity ID, did not get a number.'' res s
                                   else (Inl e, res, s)
                               | Inr i \<Rightarrow>
                                   (case remove_id_from_entity target_entity i (crud_ids s) of
                                      (True, ids') \<Rightarrow>
                                        (case os_remove os w path of
                                           None \<Rightarrow>
                                             (Inr Internal_server_error,
                                              prepare_server_error_response b
                                                ''Could not delete file assosciated with deleted Entity'' res,
                                              s\<lparr>crud_ids := ids'\<rparr>)
                                         | Some w' \<Rightarrow>
                                             (Inr Status_ok, prepare_deleted_response b i res,
                                              \<lparr>crud_ids = ids', crud_disk = w'\<rparr>))
                                    | (False, _) \<Rightarrow>
                                        bad_request b (''Failed to Delete Entity at : '' @ path) res s))
                            else bad_request b
                                   (''Failed to find file during Entity Deletion at : '' @ path) res s))"

fun json_ids :: "int list \<Rightarrow> string" where
  "json_ids [] = []"
| "json_ids [i] = int_to_string i"
| "json_ids (i # is) = int_to_string i @ '','' @ json_ids is"

definition ok_response :: "beast \<Rightarrow> string \<Rightarrow> string \<Rightarrow> response \<Rightarrow> response" where
  \<comment> \<open>version and result stay as they were\<close>
  "ok_response b type body res =
     prepare_payload b ((set_field Content_type type res)\<lparr>res_body := body\<rparr>)"

definition list_entities :: "beast \<Rightarrow> request \<Rightarrow> response \<Rightarrow> 'w crud \<Rightarrow> 'w crud_result" where
  "list_entities b req res s =
     (let dir = after_last slash (req_target req) in
      case crud_ids s dir of
        None \<Rightarrow> bad_request b (''Entity dir: '' @ dir @ '' does not exist.'') res s
      | Some xs \<Rightarrow>
          (Inr Status_ok, ok_response b ''application/json'' (''['' @ json_ids xs @ '']'') res, s))"

definition entity_dir :: "string \<Rightarrow> string" where
  \<comment> \<open>the part between the last two slashes, if there is one\<close>
  "entity_dir target =
     (case rfind_char slash target of
        None \<Rightarrow> []
      | Some last_slash \<Rightarrow>
          if last_slash = 0 then []
          else (case rfind_char_from slash target (pred_pos last_slash) of
                  None \<Rightarrow> []
                | Some second \<Rightarrow> take (last_slash - second - 1) (drop (second + 1) target)))"

definition retrieve_entity ::
    "beast \<Rightarrow> 'w os \<Rightarrow> string \<Rightarrow> request \<Rightarrow> response \<Rightarrow> 'w crud \<Rightarrow> 'w crud_result" where
  "retrieve_entity b os root req res s =
     (let target = req_target req;
          entity_id = after_last slash target;
          dir = entity_dir target
      in case stoi entity_id of
           Inl e \<Rightarrow> (Inl e, res, s)
         | Inr i \<Rightarrow>
             if \<not> entity_exists (crud_ids s) dir i then
               bad_request b (''Entity with id: '' @ entity_id @ '' does not exist in dir '' @ dir) res s
             else
               let full_path = root @ ''/'' @ dir @ ''/'' @ entity_id in
               case os_read os (crud_disk s) full_path of
                 None \<Rightarrow> bad_request b (''Failed to open entity file at: '' @ full_path) res s
               | Some contents \<Rightarrow>
                   (Inr Status_ok, ok_response b ''application/json'' contents res, s))"

definition crud_handle_get ::
    "beast \<Rightarrow> 'w os \<Rightarrow> string \<Rightarrow> request \<Rightarrow> response \<Rightarrow> 'w crud \<Rightarrow> 'w crud_result" where
  "crud_handle_get b os root req res s =
     (case ends_with_id (req_target req) of
        Inl e \<Rightarrow> (Inl e, res, s)
      | Inr False \<Rightarrow> list_entities b req res s
      | Inr True \<Rightarrow> retrieve_entity b os root req res s)"

definition update_dir :: "string \<Rightarrow> int \<Rightarrow> string option" where
  \<comment> \<open>the target without the printed identifier and the slash before it, after its last slash\<close>
  "update_dir target i =
     (let dir_part = take (length target - length (int_to_string i) - 1) target in
      case rfind_char slash dir_part of
        None \<Rightarrow> None
      | Some j \<Rightarrow> if j + 1 < length dir_part then Some (drop (j + 1) dir_part) else None)"

definition write_entity ::
    "beast \<Rightarrow> 'w os \<Rightarrow> string \<Rightarrow> request \<Rightarrow> response \<Rightarrow> 'w crud \<Rightarrow> ('w \<Rightarrow> 'w crud_result) \<Rightarrow> 'w crud_result"
where
  \<comment> \<open>the file written by \<open>handle_update\<close>; \<open>done\<close> is what follows a successful write\<close>
  "write_entity b os path req res s done =
     (case os_write os (crud_disk s) path (req_body req) of
        Some w \<Rightarrow> done w
      | None \<Rightarrow> bad_request b (''Failed to overwrite the file at : '' @ path) res s)"

definition handle_update ::
    "beast \<Rightarrow> 'w os \<Rightarrow> string \<Rightarrow> request \<Rightarrow> response \<Rightarrow> 'w crud \<Rightarrow> 'w crud_result" where
  "handle_update b os root req res s =
     (let target = req_target req;
          bad = bad_request b ''Invalid path format for Create Entity request.'' res s
      in case rfind_char slash target of
           None \<Rightarrow> bad
         | Some last_slash \<Rightarrow>
             if \<not> last_slash + 1 < length target then bad
             else (case stoi (drop (last_slash + 1) target) of
                     Inl e \<Rightarrow>
                       if e = Invalid_argument
                       then bad_request b ''Expected a number for Entity ID, did not get a number.'' res s
                       else (Inl e, res, s)
                   | Inr target_id \<Rightarrow>
                       (case update_dir target target_id of
                          None \<Rightarrow> bad
                        | Some target_dir \<Rightarrow>
                            let dir = root @ ''/'' @ target_dir;
                                path = dir @ ''/'' @ int_to_string target_id;
                                w = crud_disk s
                            in if \<not> os_exists os w path \<or> \<not> os_exists os w dir \<or>
                                  (os_exists os w dir \<and> \<not> os_is_directory os w dir) then
                                 (case os_create_directory os w dir of
                                    None \<Rightarrow> bad_request b ''Creation of directory for Entity failed.'' res s
                                  | Some w1 \<Rightarrow>
                                      write_entity b os path req res (s\<lparr>crud_disk := w1\<rparr>) (\<lambda>w2.
                                        (Inr Created, prepare_created_response b target_id res,
                                         \<lparr>crud_ids = add_id_to_entity target_dir target_id (crud_ids s),
                                          crud_disk = w2\<rparr>)))
                               else
                                 write_entity b os path req res s (\<lambda>w2.
                                   (Inr Status_ok, prepare_update_response b target_id res,
                                    s\<lparr>crud_disk := w2\<rparr>)))))"

definition crud_handle_request ::
    "beast \<Rightarrow> 'w os \<Rightarrow> string \<Rightarrow> request \<Rightarrow> response \<Rightarrow> 'w crud \<Rightarrow> 'w crud_result" where
  "crud_handle_request b os root req res s =
     (case req_method req of
        Verb_post \<Rightarrow> handle_creation b os root req res s
      | Verb_get \<Rightarrow> crud_handle_get b os root req res s
      | Verb_put \<Rightarrow> handle_update b os root req res s
      | Verb_delete \<Rightarrow> handle_deletion b os root req res s
      | Verb_other _ \<Rightarrow> (Inr Bad_request, res, s))"

section \<open>The factory\<close>

text \<open>
  The factory scans the disk on every call and pushes what it finds into the shared table,
  without looking for what is already there. \<open>int id\<close> is declared without a value, so a file
  name that is no number leaves it as it happens to be: the argument \<open>junk\<close>.
\<close>

definition push_id :: "string \<Rightarrow> int \<Rightarrow> entity_ids \<Rightarrow> entity_ids" where
  "push_id dir i ids =
     (case ids dir of None \<Rightarrow> ids(dir \<mapsto> [i]) | Some xs \<Rightarrow> ids(dir \<mapsto> sort (xs @ [i])))"

fun scan_entities :: "int \<Rightarrow> string \<Rightarrow> (string \<times> string) list \<Rightarrow> entity_ids \<Rightarrow> exn option \<times> entity_ids" where
  \<comment> \<open>the inner loop, over the files of one entity type\<close>
  "scan_entities junk dir [] ids = (None, ids)"
| "scan_entities junk dir ((_, name) # es) ids =
     (case stoi name of
        Inr i \<Rightarrow> scan_entities junk dir es (push_id dir i ids)
      | Inl e \<Rightarrow>
          if e = Invalid_argument then scan_entities junk dir es (push_id dir junk ids)
          else (Some e, ids))"

fun scan_types ::
    "'w os \<Rightarrow> 'w \<Rightarrow> int \<Rightarrow> (string \<times> string) list \<Rightarrow> entity_ids \<Rightarrow> exn option \<times> entity_ids" where
  \<comment> \<open>the outer loop, over the entries of the root directory\<close>
  "scan_types os w junk [] ids = (None, ids)"
| "scan_types os w junk ((path, name) # ds) ids =
     (if os_is_directory os w path then
        (case scan_entities junk name (os_entries os w path) ids of
           (Some e, ids') \<Rightarrow> (Some e, ids')
         | (None, ids') \<Rightarrow> scan_types os w junk ds ids')
      else scan_types os w junk ds ids)"

definition initialize_entity_map ::
    "'w os \<Rightarrow> 'w \<Rightarrow> int \<Rightarrow> string \<Rightarrow> entity_ids \<Rightarrow> exn option \<times> entity_ids" where
  "initialize_entity_map os w junk root ids =
     (if \<not> os_exists os w root \<or> \<not> os_is_directory os w root then (None, ids)
      else scan_types os w junk (os_entries os w root) ids)"

definition crud_create ::
    "'w os \<Rightarrow> 'w \<Rightarrow> int \<Rightarrow> config \<Rightarrow> entity_ids \<Rightarrow> string option result \<times> entity_ids" where
  \<comment> \<open>\<open>CrudHandlerFactory::create\<close>: the root of the new handler, \<open>None\<close> for a null pointer\<close>
  "crud_create os w junk cfg ids =
     (case statements cfg of
        [] \<Rightarrow> (Inr None, ids)
      | Stmt toks _ # _ \<Rightarrow>
          if length toks \<noteq> 2 then (Inr None, ids)
          else if toks ! 0 \<noteq> ''root'' then (Inr None, ids)
          else
            let root_dir = remove_trailing_slashes (toks ! 1) in
            (case initialize_entity_map os w junk root_dir ids of
               (Some e, ids') \<Rightarrow> (Inl e, ids')
             | (None, ids') \<Rightarrow> (Inr (Some root_dir), ids')))"

section \<open>The pool of identifiers\<close>

text \<open>
  What the handlers need of the table of one directory: a fresh identifier, and that adding
  and removing keep the table a set. The least free positive number is fresh only while the
  table is sorted, free of duplicates and positive.
\<close>

locale id_pool =
  fixes fresh :: "'p \<Rightarrow> int" and add :: "int \<Rightarrow> 'p \<Rightarrow> 'p" and del :: "int \<Rightarrow> 'p \<Rightarrow> 'p"
    and members :: "'p \<Rightarrow> int set" and ok :: "'p \<Rightarrow> bool"
  assumes fresh_new: "ok p \<Longrightarrow> fresh p \<notin> members p"
    and fresh_pos: "ok p \<Longrightarrow> 1 \<le> fresh p"
    and fresh_least: "ok p \<Longrightarrow> 1 \<le> j \<Longrightarrow> j < fresh p \<Longrightarrow> j \<in> members p"
    and ok_add: "ok p \<Longrightarrow> 1 \<le> i \<Longrightarrow> ok (add i p)"
    and ok_del: "ok p \<Longrightarrow> ok (del i p)"
    and members_add: "members (add i p) = insert i (members p)"
    and members_del: "ok p \<Longrightarrow> members (del i p) = members p - {i}"
begin

primrec take_fresh :: "nat \<Rightarrow> 'p \<Rightarrow> int list \<times> 'p" where
  \<comment> \<open>\<open>n\<close> creations in a row\<close>
  "take_fresh 0 p = ([], p)"
| "take_fresh (Suc n) p =
     (case take_fresh n (add (fresh p) p) of (is, p') \<Rightarrow> (fresh p # is, p'))"

lemma take_fresh_sound:
  "ok p \<Longrightarrow> take_fresh n p = (is, p') \<Longrightarrow>
   ok p' \<and> distinct is \<and> set is \<inter> members p = {} \<and> members p' = members p \<union> set is \<and> length is = n"
proof (induction n arbitrary: p "is" p')
  case 0
  then show ?case by simp
next
  case (Suc n)
  obtain js q where js: "take_fresh n (add (fresh p) p) = (js, q)"
    by (cases "take_fresh n (add (fresh p) p)")
  have "ok (add (fresh p) p)" using Suc.prems(1) by (intro ok_add fresh_pos)
  from Suc.IH [OF this js] Suc.prems js show ?case
    by (auto simp: members_add fresh_new)
qed

text \<open>A removed identifier below the fresh one is the next to be given out.\<close>

lemma fresh_reuses:
  assumes "ok p" and "i \<in> members p" and "1 \<le> i" and "i < fresh p"
  shows "fresh (del i p) = i"
proof (rule antisym)
  have ok: "ok (del i p)" using assms(1) by (rule ok_del)
  show "fresh (del i p) \<le> i"
  proof (rule ccontr)
    assume "\<not> ?thesis"
    then have "i \<in> members (del i p)" using fresh_least [OF ok assms(3)] by simp
    then show False using assms(1) by (simp add: members_del)
  qed
  show "i \<le> fresh (del i p)"
  proof (rule ccontr)
    assume less: "\<not> ?thesis"
    then have "fresh (del i p) \<in> members p"
      using fresh_least [OF assms(1) fresh_pos [OF ok]] assms(4) by simp
    then show False using fresh_new [OF ok] less assms(1) by (auto simp: members_del)
  qed
qed

end

definition ids_ok :: "int list \<Rightarrow> bool" where
  "ids_ok xs \<longleftrightarrow> sorted xs \<and> distinct xs \<and> (\<forall>x \<in> set xs. 1 \<le> x)"

lemma available_from_spec:
  assumes "sorted xs" and "distinct xs" and "\<forall>x \<in> set xs. k \<le> x"
  shows "available_from k xs \<notin> set xs \<and> k \<le> available_from k xs \<and>
    (\<forall>j. k \<le> j \<and> j < available_from k xs \<longrightarrow> j \<in> set xs)"
  using assms
proof (induction k xs rule: available_from.induct)
  case (1 k)
  then show ?case by simp
next
  case (2 k x xs)
  show ?case
  proof (cases "x = k")
    case True
    have later: "\<forall>y \<in> set xs. k + 1 \<le> y"
    proof
      fix y
      assume "y \<in> set xs"
      with "2.prems" True have "k \<le> y" "y \<noteq> k" by auto
      then show "k + 1 \<le> y" by simp
    qed
    with "2.IH" [OF True] "2.prems" have
      rest: "available_from (k + 1) xs \<notin> set xs" "k + 1 \<le> available_from (k + 1) xs"
        "\<forall>j. k + 1 \<le> j \<and> j < available_from (k + 1) xs \<longrightarrow> j \<in> set xs"
      by simp_all
    then have "j \<in> set (x # xs)" if "k \<le> j" "j < available_from (k + 1) xs" for j
      using that True by (cases "j = k") auto
    with rest True show ?thesis by auto
  next
    case False
    with "2.prems" show ?thesis by fastforce
  qed
qed

interpretation id_list: id_pool "available_from 1" insert_id remove1 set ids_ok
proof unfold_locales
  fix p :: "int list" and i j
  assume ok: "ids_ok p"
  then have spec: "available_from 1 p \<notin> set p \<and> 1 \<le> available_from 1 p \<and>
      (\<forall>j. 1 \<le> j \<and> j < available_from 1 p \<longrightarrow> j \<in> set p)"
    by (intro available_from_spec) (simp_all add: ids_ok_def)
  then show "available_from 1 p \<notin> set p" "1 \<le> available_from 1 p" by simp_all
  show "j \<in> set p" if "1 \<le> j" "j < available_from 1 p" using spec that by simp
  show "ids_ok (insert_id i p)" if "1 \<le> i"
    using ok that by (auto simp: ids_ok_def insert_id_def)
  show "ids_ok (remove1 i p)"
    using ok set_remove1_subset [of i p] by (auto simp: ids_ok_def sorted_remove1)
  show "set (remove1 i p) = set p - {i}" using ok by (simp add: ids_ok_def)
next
  fix p :: "int list" and i
  show "set (insert_id i p) = insert i (set p)" by (auto simp: insert_id_def)
qed

end
