(* ===== verification/Crud_Facts.thy ===== *)
theory Crud_Facts
  imports Crud "HOL-Library.Multiset"
begin

text \<open>
  The lemmas of the entity store: what the handlers do on targets of the expected form
  \<open>base/dir\<close> and \<open>base/dir/id\<close>, the invariant of the identifier table, what the factory's scan
  adds to it, and the status each handler leaves in the response.
\<close>

section \<open>Targets\<close>

definition name_part :: "string \<Rightarrow> bool" where
  \<comment> \<open>a name in a path: not empty, no slash, neither the directory itself nor the one above\<close>
  "name_part d \<longleftrightarrow> d \<noteq> [] \<and> slash \<notin> set d \<and> d \<noteq> ''.'' \<and> d \<noteq> ''..''"

lemma rfind_target [simp]:
  "name_part d \<Longrightarrow> rfind_char slash (base @ slash # d) = Some (length base)"
  by (simp add: name_part_def rfind_char_append)

lemma after_last_target [simp]: "name_part d \<Longrightarrow> after_last slash (base @ slash # d) = d"
  by (simp add: name_part_def)

lemma int_to_string_no_dot: "CHR ''.'' \<notin> set (int_to_string i)"
proof -
  have "\<not> is_digit CHR ''.''" by (simp add: is_digit_def)
  then show ?thesis using nat_to_string_digits by (auto simp: int_to_string_def)
qed

lemma name_part_int [simp]: "name_part (int_to_string i)"
  using int_to_string_no_dot [of i] by (auto simp: name_part_def)

lemma rfind_from_target [simp]:
  assumes "name_part d"
  shows "rfind_char_from slash (base @ slash # d @ slash # e) (pred_pos (length base + length d + 1)) =
    Some (length base)"
proof -
  have "take (Suc (length base + length d)) (base @ slash # d @ slash # e) = base @ slash # d"
    by simp
  with assms show ?thesis by (simp add: rfind_char_from_def)
qed

lemma entity_dir_target [simp]:
  assumes "name_part d" and "name_part e"
  shows "entity_dir (base @ slash # d @ slash # e) = d"
proof -
  have "rfind_char slash ((base @ slash # d) @ slash # e) = Some (length (base @ slash # d))"
    using assms(2) by (rule rfind_target)
  then have r: "rfind_char slash (base @ slash # d @ slash # e) = Some (length base + length d + 1)"
    by simp
  show ?thesis
    unfolding entity_dir_def r using rfind_from_target [OF assms(1), of base e] by simp
qed

lemma update_dir_target [simp]:
  assumes "name_part d"
  shows "update_dir (base @ slash # d @ slash # int_to_string i) i = Some d"
proof -
  have "take (length (base @ slash # d)) (base @ slash # d @ slash # int_to_string i) = base @ slash # d"
    by simp
  with assms show ?thesis by (simp add: update_dir_def name_part_def)
qed

lemma ends_with_id_target:
  "name_part e \<Longrightarrow> ends_with_id (base @ slash # e) =
    (case stoi e of Inr _ \<Rightarrow> Inr True | Inl x \<Rightarrow> if x = Invalid_argument then Inr False else Inl x)"
  by (simp only: ends_with_id_def substr_after_last after_last_target and_then_simps)

section \<open>Each handler on its target\<close>

lemma text_response_result [simp]:
  "payload_law b \<Longrightarrow> st \<noteq> Continue \<Longrightarrow> res_result (text_response b st t r) = st"
  "payload_law b \<Longrightarrow> st \<noteq> Continue \<Longrightarrow> res_body (text_response b st t r) = t"
  by (simp_all add: text_response_def payload_law_def)

lemma ok_response_simps [simp]:
  "payload_law b \<Longrightarrow> res_result r = Status_ok \<Longrightarrow> res_result (ok_response b ty t r) = Status_ok"
  "payload_law b \<Longrightarrow> res_result r = Status_ok \<Longrightarrow> res_body (ok_response b ty t r) = t"
  by (simp_all add: ok_response_def payload_law_def)

lemma creation_target:
  assumes "req_target req = base @ slash # d" and "name_part d"
    and "handle_creation b os root req res s = (Inr Created, res', s')"
  shows "crud_ids s' = add_id_to_entity d (get_available_id (crud_ids s) d) (crud_ids s)"
    and "res' = prepare_created_response b (get_available_id (crud_ids s) d) res"
    and "\<exists>w. os_write os w
      (root @ ''/'' @ d @ ''/'' @ int_to_string (get_available_id (crud_ids s) d)) (req_body req) =
      Some (crud_disk s')"
  using assms
  by (auto simp: handle_creation_def bad_request_def Let_def name_part_def split: option.splits if_splits)

lemma retrieval_target:
  assumes "req_target req = base @ slash # d @ slash # int_to_string i" and "name_part d"
    and "in_int_range i"
  shows "crud_handle_get b os root req res s = retrieve_entity b os root req res s"
    and "retrieve_entity b os root req res s =
      (if \<not> entity_exists (crud_ids s) d i
       then bad_request b (''Entity with id: '' @ int_to_string i @ '' does not exist in dir '' @ d) res s
       else case os_read os (crud_disk s) (root @ ''/'' @ d @ ''/'' @ int_to_string i) of
              None \<Rightarrow> bad_request b (''Failed to open entity file at: '' @ root @ ''/'' @ d @ ''/'' @ int_to_string i) res s
            | Some c \<Rightarrow> (Inr Status_ok, ok_response b ''application/json'' c res, s))"
proof -
  have t: "req_target req = (base @ slash # d) @ slash # int_to_string i"
    using assms(1) by simp
  show "crud_handle_get b os root req res s = retrieve_entity b os root req res s"
    by (simp only: crud_handle_get_def t ends_with_id_target [OF name_part_int])
      (simp add: assms(3))
  have "after_last slash (req_target req) = int_to_string i"
    by (simp only: t after_last_target [OF name_part_int])
  moreover have "entity_dir (req_target req) = d"
    by (simp only: assms(1) entity_dir_target [OF assms(2) name_part_int])
  ultimately show "retrieve_entity b os root req res s =
      (if \<not> entity_exists (crud_ids s) d i
       then bad_request b (''Entity with id: '' @ int_to_string i @ '' does not exist in dir '' @ d) res s
       else case os_read os (crud_disk s) (root @ ''/'' @ d @ ''/'' @ int_to_string i) of
              None \<Rightarrow> bad_request b (''Failed to open entity file at: '' @ root @ ''/'' @ d @ ''/'' @ int_to_string i) res s
            | Some c \<Rightarrow> (Inr Status_ok, ok_response b ''application/json'' c res, s))"
    by (simp add: retrieve_entity_def Let_def assms(3) split: option.split)
qed

lemma entity_exists_add: "entity_exists (add_id_to_entity d i ids) d i"
  by (auto simp: entity_exists_def add_id_to_entity_def insert_id_def split: option.splits)

lemma update_target:
  assumes "req_target req = base @ slash # d @ slash # int_to_string i" and "name_part d"
    and "in_int_range i"
  shows "handle_update b os root req res s =
    (let dir = root @ ''/'' @ d; path = dir @ ''/'' @ int_to_string i; w = crud_disk s in
     if \<not> os_exists os w path \<or> \<not> os_exists os w dir \<or>
        (os_exists os w dir \<and> \<not> os_is_directory os w dir) then
       (case os_create_directory os w dir of
          None \<Rightarrow> bad_request b ''Creation of directory for Entity failed.'' res s
        | Some w1 \<Rightarrow>
            write_entity b os path req res (s\<lparr>crud_disk := w1\<rparr>) (\<lambda>w2.
              (Inr Created, prepare_created_response b i res,
               \<lparr>crud_ids = add_id_to_entity d i (crud_ids s), crud_disk = w2\<rparr>)))
     else
       write_entity b os path req res s (\<lambda>w2.
         (Inr Status_ok, prepare_update_response b i res, s\<lparr>crud_disk := w2\<rparr>)))"
proof -
  have t: "req_target req = (base @ slash # d) @ slash # int_to_string i"
    using assms(1) by simp
  have "rfind_char slash (req_target req) = Some (length (base @ slash # d))"
    by (simp only: t rfind_target [OF name_part_int])
  moreover have "drop (length (base @ slash # d) + 1) (req_target req) = int_to_string i"
    by (simp add: assms(1))
  moreover have "length (base @ slash # d) + 1 < length (req_target req)"
    by (simp add: assms(1))
  moreover have "update_dir (req_target req) i = Some d"
    by (simp only: assms(1) update_dir_target [OF assms(2)])
  ultimately show ?thesis
    by (simp add: handle_update_def assms(3) Let_def)
qed

lemma deletion_target:
  assumes "req_target req = base @ slash # d @ slash # int_to_string i" and "name_part d"
    and "in_int_range i"
  shows "handle_deletion b os root req res s =
    (let path = root @ ''/'' @ d @ ''/'' @ int_to_string i; w = crud_disk s in
     if os_exists os w path \<and> \<not> os_is_directory os w path then
       (case remove_id_from_entity d i (crud_ids s) of
          (True, ids') \<Rightarrow>
            (case os_remove os w path of
               None \<Rightarrow> (Inr Internal_server_error,
                  prepare_server_error_response b
                    ''Could not delete file assosciated with deleted Entity'' res,
                  s\<lparr>crud_ids := ids'\<rparr>)
             | Some w' \<Rightarrow> (Inr Status_ok, prepare_deleted_response b i res,
                  \<lparr>crud_ids = ids', crud_disk = w'\<rparr>))
        | (False, _) \<Rightarrow> bad_request b (''Failed to Delete Entity at : '' @ path) res s)
     else bad_request b (''Failed to find file during Entity Deletion at : '' @ path) res s)"
proof -
  let ?l = "length base + length d + 1"
  have t: "req_target req = (base @ slash # d) @ slash # int_to_string i"
    using assms(1) by simp
  have "rfind_char slash (req_target req) = Some (length (base @ slash # d))"
    by (simp only: t rfind_target [OF name_part_int])
  then have r: "rfind_char slash (req_target req) = Some ?l" by simp
  have r2: "rfind_char_from slash (req_target req) (pred_pos ?l) = Some (length base)"
    by (simp only: assms(1) rfind_from_target [OF assms(2)])
  have "drop (?l + 1) (req_target req) = int_to_string i"
    and "drop (length base + 1) (req_target req) = d @ ''/'' @ int_to_string i"
    and "?l + 1 < length (req_target req)" and "length base + 1 < length (req_target req)"
    and "length base < ?l" and "take (?l - length base - 1) (d @ ''/'' @ int_to_string i) = d"
    by (simp_all add: assms(1))
  with r r2 show ?thesis
    by (simp only: handle_deletion_def Let_def option.case not_True_eq_False if_False if_True
        stoi_int_to_string [OF assms(3)] sum.case)
qed

section \<open>The table of identifiers\<close>

definition table_ok :: "entity_ids \<Rightarrow> bool" where
  "table_ok ids \<longleftrightarrow> (\<forall>d xs. ids d = Some xs \<longrightarrow> ids_ok xs)"

lemma table_ok_add [inv_intros]: "table_ok ids \<Longrightarrow> 1 \<le> i \<Longrightarrow> table_ok (add_id_to_entity d i ids)"
  by (auto simp: table_ok_def add_id_to_entity_def id_list.ok_add split: option.splits)
    (simp add: ids_ok_def)

lemma table_ok_remove [inv_intros]:
  "table_ok ids \<Longrightarrow> remove_id_from_entity d i ids = (b, ids') \<Longrightarrow> table_ok ids'"
  by (auto simp: table_ok_def remove_id_from_entity_def id_list.ok_del split: option.splits if_splits)

lemma available_fresh:
  assumes "table_ok ids"
  shows "\<not> entity_exists ids d (get_available_id ids d)" and "1 \<le> get_available_id ids d"
    and "1 \<le> j \<Longrightarrow> j < get_available_id ids d \<Longrightarrow> entity_exists ids d j"
  using assms
  by (auto simp: table_ok_def entity_exists_def get_available_id_def id_list.fresh_new
      id_list.fresh_pos id_list.fresh_least split: option.splits)

lemma table_ok_create:
  "table_ok ids \<Longrightarrow> table_ok (add_id_to_entity d (get_available_id ids d) ids)"
  by (rule table_ok_add, assumption, rule available_fresh(2))

lemma handle_creation_ids:
  "handle_creation b os root req res s = (r, res', s') \<Longrightarrow>
   crud_ids s' = crud_ids s \<or>
   r = Inr Created \<and> (\<exists>d. crud_ids s' = add_id_to_entity d (get_available_id (crud_ids s) d) (crud_ids s))"
  by (auto simp: handle_creation_def bad_request_def Let_def split: option.splits if_splits)

lemma handle_deletion_ids:
  "handle_deletion b os root req res s = (r, res', s') \<Longrightarrow>
   crud_ids s' = crud_ids s \<or>
   r \<in> {Inr Status_ok, Inr Internal_server_error} \<and>
   (\<exists>d i. remove_id_from_entity d i (crud_ids s) = (True, crud_ids s'))"
  unfolding handle_deletion_def bad_request_def Let_def
  by (auto split: option.splits if_splits sum.splits prod.splits bool.splits)

lemma handle_update_ids:
  "handle_update b os root req res s = (r, res', s') \<Longrightarrow>
   crud_ids s' = crud_ids s \<or>
   r = Inr Created \<and> (\<exists>d i. stoi (after_last slash (req_target req)) = Inr i \<and>
     crud_ids s' = add_id_to_entity d i (crud_ids s))"
  unfolding handle_update_def bad_request_def write_entity_def Let_def
  by (auto simp: after_last_def split: option.splits if_splits sum.splits)

lemma crud_handle_get_ids:
  "crud_handle_get b os root req res s = (r, res', s') \<Longrightarrow> s' = s"
  unfolding crud_handle_get_def list_entities_def retrieve_entity_def bad_request_def Let_def
  by (auto split: option.splits if_splits sum.splits bool.splits)

lemmas handler_ids = handle_creation_ids handle_deletion_ids handle_update_ids crud_handle_get_ids

lemma crud_request_table:
  assumes "crud_handle_request b os root req res s = (r, res', s')" and "table_ok (crud_ids s)"
    and "req_method req = Verb_put \<Longrightarrow> \<exists>i. stoi (after_last slash (req_target req)) = Inr i \<and> 1 \<le> i"
  shows "table_ok (crud_ids s')"
proof (cases "req_method req")
  case Verb_get
  with assms show ?thesis by (auto simp: crud_handle_request_def dest!: handler_ids)
next
  case Verb_post
  with assms show ?thesis
    by (auto simp: crud_handle_request_def table_ok_create dest!: handler_ids)
next
  case Verb_put
  with assms show ?thesis
    by (auto simp: crud_handle_request_def intro: inv_intros dest!: handler_ids)
next
  case Verb_delete
  with assms show ?thesis
    by (auto simp: crud_handle_request_def intro: inv_intros dest!: handler_ids)
next
  case (Verb_other x)
  with assms show ?thesis by (auto simp: crud_handle_request_def)
qed

lemma crud_bad_request_ids:
  assumes "crud_handle_request b os root req res s = (Inr Bad_request, res', s')"
  shows "crud_ids s' = crud_ids s"
  using assms
  by (cases "req_method req") (auto simp: crud_handle_request_def dest!: handler_ids)

section \<open>The status in the response\<close>

lemma crud_status:
  assumes "payload_law b" and "res_result res = Status_ok"
    and "crud_handle_request b os root req res s = (Inr st, res', s')" and "st \<in> {Status_ok, Created}"
  shows "res_result res' = st"
proof -
  note simps = bad_request_def prepare_created_response_def prepare_deleted_response_def
    prepare_update_response_def Let_def assms(1,2)
  show ?thesis
  proof (cases "req_method req")
    case Verb_get
    with assms(3,4) show ?thesis
      by (auto simp: crud_handle_request_def crud_handle_get_def list_entities_def
          retrieve_entity_def simps split: option.splits if_splits sum.splits bool.splits)
  next
    case Verb_post
    with assms(3,4) show ?thesis
      by (auto simp: crud_handle_request_def handle_creation_def simps split: option.splits if_splits)
  next
    case Verb_put
    with assms(3,4) show ?thesis
      by (auto simp: crud_handle_request_def handle_update_def write_entity_def simps
          split: option.splits if_splits sum.splits)
  next
    case Verb_delete
    with assms(3,4) show ?thesis
      unfolding crud_handle_request_def handle_deletion_def
      by (auto simp: simps split: option.splits if_splits sum.splits prod.splits bool.splits)
  next
    case (Verb_other x)
    with assms(3,4) show ?thesis by (simp add: crud_handle_request_def)
  qed
qed

section \<open>What the factory's scan adds\<close>

definition ids_of :: "entity_ids \<Rightarrow> string \<Rightarrow> int list" where
  "ids_of ids d = (case ids d of None \<Rightarrow> [] | Some xs \<Rightarrow> xs)"

definition file_id :: "int \<Rightarrow> string \<times> string \<Rightarrow> int" where
  "file_id junk e = (case stoi (snd e) of Inr i \<Rightarrow> i | Inl _ \<Rightarrow> junk)"

definition disk_ids :: "'w os \<Rightarrow> 'w \<Rightarrow> int \<Rightarrow> (string \<times> string) list \<Rightarrow> string \<Rightarrow> int multiset" where
  \<comment> \<open>the identifiers on the disk under the directories called \<open>d\<close> among the entries \<open>ds\<close>\<close>
  "disk_ids os w junk ds d =
     sum_list (map (\<lambda>(path, name).
       if os_is_directory os w path \<and> name = d then mset (map (file_id junk) (os_entries os w path))
       else {#}) ds)"

lemma ids_of_push:
  "mset (ids_of (push_id dir i ids) d) = (if d = dir then {#i#} else {#}) + mset (ids_of ids d)"
  "sorted (ids_of ids d) \<Longrightarrow> sorted (ids_of (push_id dir i ids) d)"
  by (auto simp: ids_of_def push_id_def split: option.splits)

lemma scan_entities_ids:
  "scan_entities junk dir es ids = (None, ids') \<Longrightarrow>
   mset (ids_of ids' d) =
     mset (ids_of ids d) + (if d = dir then mset (map (file_id junk) es) else {#}) \<and>
   (sorted (ids_of ids d) \<longrightarrow> sorted (ids_of ids' d))"
proof (induction junk dir es ids rule: scan_entities.induct)
  case (1 junk dir ids)
  then show ?case by simp
next
  case (2 junk dir p name es ids)
  show ?case
  proof (cases "stoi name")
    case (Inl e)
    with 2 show ?thesis by (auto simp: file_id_def ids_of_push split: if_splits)
  next
    case (Inr i)
    with 2 show ?thesis by (auto simp: file_id_def ids_of_push)
  qed
qed

lemma scan_types_ids:
  "scan_types os w junk ds ids = (None, ids') \<Longrightarrow>
   mset (ids_of ids' d) = mset (ids_of ids d) + disk_ids os w junk ds d \<and>
   (sorted (ids_of ids d) \<longrightarrow> sorted (ids_of ids' d))"
proof (induction os w junk ds ids rule: scan_types.induct)
  case (1 os w junk ids)
  then show ?case by (simp add: disk_ids_def)
next
  case (2 os w junk p name ds ids)
  show ?case
  proof (cases "os_is_directory os w p")
    case True
    with "2.prems" obtain ids1 where ids1: "scan_entities junk name (os_entries os w p) ids = (None, ids1)"
      and rest: "scan_types os w junk ds ids1 = (None, ids')"
      by (auto split: prod.splits option.splits)
    have "mset (ids_of ids' d) = mset (ids_of ids1 d) + disk_ids os w junk ds d \<and>
        (sorted (ids_of ids1 d) \<longrightarrow> sorted (ids_of ids' d))"
      using "2.IH"(1) [OF True ids1 [symmetric]] rest by simp
    with scan_entities_ids [OF ids1, of d] True show ?thesis by (simp add: disk_ids_def)
  next
    case False
    with 2 show ?thesis by (simp add: disk_ids_def)
  qed
qed

lemma crud_create_ids:
  assumes "crud_create os w junk cfg ids = (Inr (Some root), ids')"
    and "os_exists os w root" and "os_is_directory os w root"
  shows "mset (ids_of ids' d) = mset (ids_of ids d) + disk_ids os w junk (os_entries os w root) d \<and>
    (sorted (ids_of ids d) \<longrightarrow> sorted (ids_of ids' d))"
proof -
  have "scan_types os w junk (os_entries os w root) ids = (None, ids')"
    using assms by (auto simp: crud_create_def initialize_entity_map_def Let_def
        split: list.splits stmt.splits if_splits prod.splits option.splits)
  then show ?thesis by (rule scan_types_ids)
qed

lemma available_duplicate:
  assumes "sorted xs" and "\<forall>x \<in> set xs. 1 \<le> x" and "2 \<le> count (mset xs) 1"
  shows "available_from 1 xs = 2"
proof -
  obtain x ys where xs: "xs = x # ys" using assms(3) by (cases xs) auto
  have "1 \<in> set ys" using assms(3) xs by (cases "x = 1") (auto simp: count_greater_zero_iff
      simp flip: count_greater_zero_iff set_mset_mset)
  then obtain y zs where ys: "ys = y # zs" by (cases ys) auto
  have "x = 1" using assms xs \<open>1 \<in> set ys\<close> by force
  moreover have "y = 1" using assms xs ys \<open>1 \<in> set ys\<close> by force
  ultimately show ?thesis using xs ys by simp
qed

lemma get_available_ids_of: "get_available_id ids d = available_from 1 (ids_of ids d)"
  by (simp add: get_available_id_def ids_of_def split: option.splits)

lemma entity_exists_ids_of: "entity_exists ids d i \<longleftrightarrow> i \<in> set (ids_of ids d)"
  by (simp add: entity_exists_def ids_of_def split: option.splits)

end
