(* ===== verification/Crud_Properties.thy ===== *)
theory Crud_Properties
  imports Crud_Facts
begin

text \<open>
  What the entity store promises: what is created or updated is what is read back, identifiers
  are fresh and least while the table is well formed, a deleted entity is gone, a bad request
  changes no table; and where the code departs from that.
\<close>

section \<open>Concrete requests\<close>

definition crud_request :: "verb \<Rightarrow> string \<Rightarrow> string \<Rightarrow> request" where
  "crud_request m t c = \<lparr>req_method = m, req_target = t, req_fields = [], req_body = c\<rparr>"

lemma crud_request_simps [simp]:
  "req_method (crud_request m t c) = m" "req_target (crud_request m t c) = t"
  "req_body (crud_request m t c) = c"
  by (simp_all add: crud_request_def)

definition shoes :: "disk crud" where
  \<comment> \<open>one entity of the type \<open>Shoes\<close> under \<open>/data\<close>\<close>
  "shoes = \<lparr>crud_ids = (\<lambda>d. if d = ''Shoes'' then Some [1] else None),
            crud_disk = [(''/data/Shoes/1'', Some ''old''), (''/data/Shoes'', None), (''/data'', None)]\<rparr>"

lemma shoes_facts:
  "name_part ''Shoes''" "in_int_range 2" "in_int_range 1"
  by (simp_all add: name_part_def in_int_range_def)

lemma shoes_target:
  "req_target (crud_request m ''/api/Shoes'' c) = ''/api'' @ slash # ''Shoes''"
  "req_target (crud_request m ''/api/Shoes/2'' c) = ''/api'' @ slash # ''Shoes'' @ slash # int_to_string 2"
  "req_target (crud_request m ''/api/Shoes/1'' c) = ''/api'' @ slash # ''Shoes'' @ slash # int_to_string 1"
  by (simp_all, code_simp+)

fun crud_session ::
    "beast \<Rightarrow> 'w os \<Rightarrow> string \<Rightarrow> request list \<Rightarrow> 'w crud \<Rightarrow> (status result \<times> response) list \<times> 'w crud"
where
  \<comment> \<open>requests served one after the other, each with a response of its own; an exception ends it\<close>
  "crud_session b os root [] s = ([], s)"
| "crud_session b os root (r # rs) s =
     (case crud_handle_request b os root r fresh_response s of
        (Inl e, res, s1) \<Rightarrow> ([(Inl e, res)], s1)
      | (Inr st, res, s1) \<Rightarrow>
          (case crud_session b os root rs s1 of (as, s2) \<Rightarrow> ((Inr st, res) # as, s2)))"

lemma crud_session_tail:
  "crud_handle_request b os root r fresh_response s = (Inr st, res, s1) \<Longrightarrow>
   snd (crud_session b os root (r # rs) s) = snd (crud_session b os root rs s1)"
  by (simp split: prod.split)

lemma shoes_table_ok: "table_ok (crud_ids shoes)"
  by (simp add: table_ok_def shoes_def ids_ok_def)

lemma ids_ok_ids_of: "table_ok ids \<Longrightarrow> ids_ok (ids_of ids d)"
  by (auto simp: table_ok_def ids_of_def ids_ok_def split: option.split)

lemma ids_of_add [simp]:
  "ids_of (add_id_to_entity d i ids) e = (if e = d then insert_id i (ids_of ids d) else ids_of ids e)"
  by (simp add: ids_of_def add_id_to_entity_def insert_id_def split: option.split)

lemma entity_exists_add_iff [simp]:
  "entity_exists (add_id_to_entity d i ids) e j \<longleftrightarrow> entity_exists ids e j \<or> e = d \<and> j = i"
  by (auto simp: entity_exists_ids_of id_list.members_add)

text \<open>Successful POSTs on one type take identifiers the way the pool does.\<close>

lemma posts_take_fresh:
  assumes "name_part d"
    and "\<forall>r \<in> set reqs. req_method r = Verb_post \<and> req_target r = base @ slash # d"
    and "crud_session b os root reqs s = (answers, s')"
    and "\<forall>a \<in> set answers. fst a = Inr Created"
  shows "\<exists>is. id_list.take_fresh (length reqs) (ids_of (crud_ids s) d) = (is, ids_of (crud_ids s') d) \<and>
    answers = map (\<lambda>i. (Inr Created, prepare_created_response b i fresh_response)) is"
  using assms(2-4)
proof (induction reqs arbitrary: s answers)
  case Nil
  then show ?case by simp
next
  case (Cons r reqs)
  obtain st res s1 where step: "crud_handle_request b os root r fresh_response s = (st, res, s1)"
    by (cases "crud_handle_request b os root r fresh_response s")
  obtain as s2 where rest: "crud_session b os root reqs s1 = (as, s2)"
    by (cases "crud_session b os root reqs s1")
  from Cons.prems(2,3) step rest have st: "st = Inr Created"
    and parts: "answers = (Inr Created, res) # as" "s' = s2"
    by (auto split: sum.splits)
  let ?i = "get_available_id (crud_ids s) d"
  from Cons.prems(1) step st have c: "handle_creation b os root r fresh_response s = (Inr Created, res, s1)"
    and t: "req_target r = base @ slash # d" by (simp_all add: crud_handle_request_def)
  note made = creation_target [OF t assms(1) c]
  have "\<forall>a \<in> set as. fst a = Inr Created" using Cons.prems(3) parts(1) by simp
  with Cons.IH [OF _ rest [folded parts(2)]] Cons.prems(1) obtain "is" where
    taken: "id_list.take_fresh (length reqs) (ids_of (crud_ids s1) d) = (is, ids_of (crud_ids s') d)"
    and as: "as = map (\<lambda>i. (Inr Created, prepare_created_response b i fresh_response)) is"
    by (meson list.set_intros(2))
  have "ids_of (crud_ids s1) d = insert_id ?i (ids_of (crud_ids s) d)" by (simp only: made(1) ids_of_add if_True simp_thms)
  with taken have "id_list.take_fresh (length (r # reqs)) (ids_of (crud_ids s) d) =
      (?i # is, ids_of (crud_ids s') d)"
    by (simp add: get_available_ids_of)
  moreover have "answers = map (\<lambda>i. (Inr Created, prepare_created_response b i fresh_response)) (?i # is)"
    by (simp only: parts(1) as made(2) list.map)
  ultimately show ?case by blast
qed

lemma ids_ok_pos: "ids_ok xs \<Longrightarrow> i \<in> set xs \<Longrightarrow> 1 \<le> i"
  unfolding ids_ok_def by blast

lemma ids_of_remove:
  "remove_id_from_entity d i ids = (True, ids') \<Longrightarrow>
   ids_of ids' d = remove1 i (ids_of ids d) \<and> i \<in> set (ids_of ids d)"
  by (auto simp: remove_id_from_entity_def ids_of_def split: option.splits if_splits)

lemma update_target_done:
  assumes "req_target put = base @ slash # d @ slash # int_to_string i" and "name_part d"
    and "in_int_range i" and "handle_update b os root put res s = (Inr st, res1, s1)"
    and "st = Created \<or> st = Status_ok"
  shows "crud_ids s1 = (if st = Created then add_id_to_entity d i (crud_ids s) else crud_ids s) \<and>
    (\<exists>w. os_write os w (root @ ''/'' @ d @ ''/'' @ int_to_string i) (req_body put) = Some (crud_disk s1))"
  using assms(4,5)
  by (auto simp: update_target [OF assms(1-3)] Let_def write_entity_def bad_request_def
      split: if_splits option.splits)

lemma deletion_target_done:
  assumes "req_target del = base @ slash # d @ slash # int_to_string i" and "name_part d"
    and "in_int_range i" and "handle_deletion b os root del res s = (Inr Status_ok, res1, s1)"
  shows "remove_id_from_entity d i (crud_ids s) = (True, crud_ids s1) \<and>
    os_remove os (crud_disk s) (root @ ''/'' @ d @ ''/'' @ int_to_string i) = Some (crud_disk s1)"
  using assms(4)
  by (auto simp: deletion_target [OF assms(1-3)] Let_def bad_request_def
      split: if_splits option.splits prod.splits bool.splits)

text \<open>An identifier below 1 at the head of a sorted table stops the search at once.\<close>

lemma available_below_one: "sorted xs \<Longrightarrow> i \<in> set xs \<Longrightarrow> i < 1 \<Longrightarrow> available_from 1 xs = 1"
  by (cases xs) auto

lemma posts_keep_member:
  assumes "sorted (ids_of (crud_ids s) d) \<and> i \<in> set (ids_of (crud_ids s) d)"
    and "\<forall>r \<in> set reqs. req_method r = Verb_post"
  shows "sorted (ids_of (crud_ids (snd (crud_session b os root reqs s))) d) \<and>
    i \<in> set (ids_of (crud_ids (snd (crud_session b os root reqs s))) d)"
  using assms
proof (induction reqs arbitrary: s)
  case Nil
  then show ?case by simp
next
  case (Cons r reqs)
  obtain st res s1 where step: "crud_handle_request b os root r fresh_response s = (st, res, s1)"
    by (cases "crud_handle_request b os root r fresh_response s")
  then have "handle_creation b os root r fresh_response s = (st, res, s1)"
    using Cons.prems(2) by (simp add: crud_handle_request_def)
  from handle_creation_ids [OF this] Cons.prems(1)
  have "sorted (ids_of (crud_ids s1) d) \<and> i \<in> set (ids_of (crud_ids s1) d)"
    by (auto simp: insert_id_def)
  with Cons.IH [of s1] Cons.prems(2) step show ?case
    by (cases "crud_session b os root reqs s1") (simp split: sum.split)
qed

lemma update_dir_trailing:
  assumes "name_part e" and "length (int_to_string i) + 1 < length e"
  shows "update_dir (base @ slash # e) i = Some (take (length e - length (int_to_string i) - 1) e)"
proof -
  let ?k = "length e - length (int_to_string i) - 1"
  obtain n where k: "length e = length (int_to_string i) + Suc (Suc n)"
    using assms(2) by (intro that [of "length e - length (int_to_string i) - 2"]) simp
  have t: "take (length (base @ slash # e) - length (int_to_string i) - 1) (base @ slash # e) =
      base @ slash # take ?k e"
    by (simp add: k)
  have np: "slash \<notin> set (take ?k e)" "take ?k e \<noteq> []"
    using assms set_take_subset [of ?k e] by (auto simp: name_part_def)
  then have last: "rfind_char slash (base @ slash # take ?k e) = Some (length base)"
    by (simp add: rfind_char_append)
  show ?thesis
    unfolding update_dir_def Let_def t last option.case
    using np k by simp
qed

section \<open>Properties\<close>

text \<open>
  C14: what a POST creates is what a GET of the identifier in its answer returns: if creating an
  entity under a type succeeds, the table has the entity, and reading it from the state the
  creation left answers 200 with exactly the posted body.
\<close>
theorem create_then_get:
  assumes "os_laws os" and "payload_law b" and "name_part d"
    and "req_method post = Verb_post" and "req_target post = base @ slash # d"
    and "crud_handle_request b os root post res s = (Inr Created, res1, s1)"
    and "i = get_available_id (crud_ids s) d" and "in_int_range i"
    and "req_method get = Verb_get" and "req_target get = base @ slash # d @ slash # int_to_string i"
    and "res_result res2 = Status_ok"
  shows "res1 = prepare_created_response b i res \<and> entity_exists (crud_ids s1) d i \<and>
    (\<exists>res3. crud_handle_request b os root get res2 s1 = (Inr Status_ok, res3, s1) \<and>
       res_result res3 = Status_ok \<and> res_body res3 = req_body post)"
proof -
  have c: "handle_creation b os root post res s = (Inr Created, res1, s1)"
    using assms(4,6) by (simp add: crud_handle_request_def)
  note made = creation_target [OF assms(5,3) c]
  have e: "entity_exists (crud_ids s1) d i" by (simp add: made(1) assms(7) entity_exists_add)
  from made(3) have "os_read os (crud_disk s1) (root @ ''/'' @ d @ ''/'' @ int_to_string i) =
      Some (req_body post)"
    using os_lawsD(1) [OF assms(1)] assms(7) by blast
  with e made(2) assms(2,7,9,11) show ?thesis
    by (simp add: crud_handle_request_def retrieval_target [OF assms(10,3,8)])
qed

theorem create_then_get_witness:
  "\<exists>res3 s1. crud_handle_request sample_beast sample_os ''/data''
      (crud_request Verb_get ''/api/Shoes/2'' []) fresh_response s1 = (Inr Status_ok, res3, s1) \<and>
      res_body res3 = ''new''"
proof -
  let ?post = "crud_request Verb_post ''/api/Shoes'' ''new''"
  have "fst (crud_handle_request sample_beast sample_os ''/data'' ?post fresh_response shoes) = Inr Created"
    by code_simp
  from status_run [OF this] obtain res1 s1 where
    post: "crud_handle_request sample_beast sample_os ''/data'' ?post fresh_response shoes = (Inr Created, res1, s1)"
    by blast
  have v: "res_result fresh_response = Status_ok" by code_simp
  have i: "2 = get_available_id (crud_ids shoes) ''Shoes''" by code_simp
  have "req_method (crud_request Verb_get ''/api/Shoes/2'' []) = Verb_get" by simp
  from create_then_get [OF sample_os_laws sample_beast_payload shoes_facts(1) _ shoes_target(1) post i
      shoes_facts(2) this shoes_target(2) v]
  show ?thesis by auto
qed

text \<open>
  In a well-formed table, a successful POST takes the least positive identifier its type does
  not use, announces it in the 201 answer, adds exactly that entity to the table and keeps the
  table well formed.
\<close>
lemma creation_takes_least_free:
  assumes "table_ok (crud_ids s)" and "name_part d"
    and "req_method post = Verb_post" and "req_target post = base @ slash # d"
    and "crud_handle_request b os root post res s = (Inr Created, res1, s1)"
  shows "\<exists>i. res1 = prepare_created_response b i res \<and> 1 \<le> i \<and> \<not> entity_exists (crud_ids s) d i \<and>
    (\<forall>j. 1 \<le> j \<and> j < i \<longrightarrow> entity_exists (crud_ids s) d j) \<and>
    (\<forall>e j. entity_exists (crud_ids s1) e j \<longleftrightarrow> entity_exists (crud_ids s) e j \<or> e = d \<and> j = i) \<and>
    table_ok (crud_ids s1)"
proof -
  have c: "handle_creation b os root post res s = (Inr Created, res1, s1)"
    using assms(3,5) by (simp add: crud_handle_request_def)
  note made = creation_target [OF assms(4,2) c]
  show ?thesis
    using available_fresh [OF assms(1)] made(2)
    by (intro exI [of _ "get_available_id (crud_ids s) d"])
      (simp add: made(1) entity_exists_add_iff table_ok_create assms(1))
qed





text \<open>
  What a PUT stores is what a GET returns: if it answers 201, or answers 200 for an entity
  the table has, then reading that entity afterwards answers 200 with exactly the body put.
\<close>
lemma put_then_get:
  assumes "os_laws os" and "payload_law b" and "name_part d" and "in_int_range i"
    and "req_method put = Verb_put" and "req_target put = base @ slash # d @ slash # int_to_string i"
    and "crud_handle_request b os root put res s = (Inr st, res1, s1)"
    and "st = Created \<or> st = Status_ok \<and> entity_exists (crud_ids s) d i"
    and "req_method get = Verb_get" and "req_target get = req_target put"
    and "res_result res2 = Status_ok"
  shows "entity_exists (crud_ids s1) d i \<and>
    (\<exists>res3. crud_handle_request b os root get res2 s1 = (Inr Status_ok, res3, s1) \<and>
       res_result res3 = Status_ok \<and> res_body res3 = req_body put)"
proof -
  have u: "handle_update b os root put res s = (Inr st, res1, s1)"
    using assms(5,7) by (simp add: crud_handle_request_def)
  from assms(8) have "st = Created \<or> st = Status_ok" by blast
  from update_target_done [OF assms(6,3,4) u this] assms(8)
  have e: "entity_exists (crud_ids s1) d i"
    and "\<exists>w. os_write os w (root @ ''/'' @ d @ ''/'' @ int_to_string i) (req_body put) = Some (crud_disk s1)"
    by auto
  then have "os_read os (crud_disk s1) (root @ ''/'' @ d @ ''/'' @ int_to_string i) = Some (req_body put)"
    using os_lawsD(1) [OF assms(1)] by blast
  moreover have "req_target get = base @ slash # d @ slash # int_to_string i" using assms(6,10) by simp
  ultimately show ?thesis
    using e assms(2,9,11) by (simp add: crud_handle_request_def retrieval_target [OF _ assms(3,4)])
qed



text \<open>A request answered with 400 leaves the table of identifiers as it was.\<close>
lemma bad_request_keeps_ids:
  assumes "crud_handle_request b os root req res s = (Inr Bad_request, res', s')"
  shows "crud_ids s' = crud_ids s"
  using assms by (rule crud_bad_request_ids)

text \<open>
  The factory scans the disk again for every request and pushes what it finds beside what is
  there, so the table counts each file once per scan; from the second scan on, if the type has
  an entity 1, the least free identifier is computed as 2, whether or not 2 is in use.
\<close>
lemma rescan_miscounts:
  assumes "crud_create os w junk cfg ids = (Inr (Some root), ids1)"
    and "crud_create os w junk cfg ids1 = (Inr (Some root), ids2)"
    and "os_exists os w root" and "os_is_directory os w root"
    and "table_ok ids" and "1 \<in># disk_ids os w junk (os_entries os w root) d"
    and "\<forall>i \<in># disk_ids os w junk (os_entries os w root) d. 1 \<le> i"
  shows "count (mset (ids_of ids2 d)) j =
      count (mset (ids_of ids d)) j + 2 * count (disk_ids os w junk (os_entries os w root) d) j
    \<and> get_available_id ids2 d = 2"
proof -
  let ?disk = "disk_ids os w junk (os_entries os w root) d"
  have ok: "ids_ok (ids_of ids d)" using assms(5) by (rule ids_ok_ids_of)
  have 1: "mset (ids_of ids1 d) = mset (ids_of ids d) + ?disk" "sorted (ids_of ids1 d)"
    using crud_create_ids [OF assms(1,3,4), of d] ok by (simp_all add: ids_ok_def)
  have 2: "mset (ids_of ids2 d) = mset (ids_of ids d) + ?disk + ?disk" "sorted (ids_of ids2 d)"
    using crud_create_ids [OF assms(2-4), of d] 1 by simp_all
  have "set (ids_of ids2 d) = set (ids_of ids d) \<union> set_mset ?disk"
    using arg_cong [OF 2(1), of set_mset] by simp
  then have "\<forall>x \<in> set (ids_of ids2 d). 1 \<le> x"
    using ok assms(7) by (auto simp: ids_ok_def)
  moreover have "1 \<le> count ?disk 1" using assms(6) by (simp add: Suc_le_eq)
  then have "2 \<le> count (mset (ids_of ids2 d)) 1" unfolding 2(1) count_union by linarith
  ultimately have "available_from 1 (ids_of ids2 d) = 2" using 2(2) by (intro available_duplicate)
  with 2(1) show ?thesis by (simp add: get_available_ids_of)
qed

definition two_shoes :: disk where
  "two_shoes = (''/data/Shoes/2'', Some ''kept'') # crud_disk shoes"

definition data_config :: config where
  "data_config = Config [Stmt [''root'', ''/data'']  None]"

text \<open>
  A PUT that creates an entity with an identifier below 1 disables fresh identifiers for its
  type: the next POST is given 1, and it stays 1 however many entities are added.
\<close>
lemma put_below_one_blocks_fresh:
  assumes "table_ok (crud_ids s)" and "name_part d" and "in_int_range i" and "i < 1"
    and "req_method put = Verb_put" and "req_target put = base @ slash # d @ slash # int_to_string i"
    and "crud_handle_request b os root put res s = (Inr Created, res1, s1)"
    and "\<forall>r \<in> set reqs. req_method r = Verb_post"
  shows "get_available_id (crud_ids (snd (crud_session b os root reqs s1))) d = 1"
proof -
  have u: "handle_update b os root put res s = (Inr Created, res1, s1)"
    using assms(5,7) by (simp add: crud_handle_request_def)
  from update_target_done [OF assms(6,2,3) u] have "crud_ids s1 = add_id_to_entity d i (crud_ids s)"
    by simp
  then have "sorted (ids_of (crud_ids s1) d) \<and> i \<in> set (ids_of (crud_ids s1) d)"
    using ids_ok_ids_of [OF assms(1), of d] by (auto simp: ids_ok_def insert_id_def)
  from posts_keep_member [OF this assms(8)] assms(4) show ?thesis
    by (auto simp: get_available_ids_of intro: available_below_one)
qed

text \<open>
  An identifier that does not fit an \<open>int\<close> makes GET and PUT throw: only
  \<open>invalid_argument\<close> is caught, the \<open>out_of_range\<close> of \<open>std::stoi\<close> leaves the handler and
  nothing has changed.
\<close>
lemma large_id_escapes:
  assumes "name_part e" and "stoi e = Inl Out_of_range" and "req_target req = base @ slash # e"
    and "req_method req = Verb_get \<or> req_method req = Verb_put"
  shows "crud_handle_request b os root req res s = (Inl Out_of_range, res, s)"
proof -
  have r: "rfind_char slash (req_target req) = Some (length base)"
    by (simp only: assms(3) rfind_target [OF assms(1)])
  have "drop (length base + 1) (req_target req) = e" and "length base + 1 < length (req_target req)"
    using assms(1) by (auto simp: assms(3) name_part_def)
  with r have "handle_update b os root req res s = (Inl Out_of_range, res, s)"
    by (simp add: handle_update_def Let_def assms(2))
  moreover have "crud_handle_get b os root req res s = (Inl Out_of_range, res, s)"
    by (simp add: crud_handle_get_def assms(3) ends_with_id_target [OF assms(1)] assms(2))
  ultimately show ?thesis using assms(4) by (auto simp: crud_handle_request_def)
qed

text \<open>
  A PUT whose last path element only begins with a number is stored under a wrong type: the
  type is read off by the length of the number, so the element itself, shortened, is taken for it.
\<close>
lemma put_trailing_text_misdirected:
  assumes "name_part e" and "stoi e = Inr i" and "length (int_to_string i) + 1 < length e"
    and "req_method put = Verb_put" and "req_target put = base @ slash # d @ slash # e"
    and "crud_handle_request b os root put res s = (Inr Created, res1, s1)"
  shows "crud_ids s1 =
    add_id_to_entity (take (length e - length (int_to_string i) - 1) e) i (crud_ids s)"
proof -
  have t: "req_target put = (base @ slash # d) @ slash # e" using assms(5) by simp
  have r: "rfind_char slash (req_target put) = Some (length (base @ slash # d))"
    by (simp only: t rfind_target [OF assms(1)])
  have "drop (length (base @ slash # d) + 1) (req_target put) = e"
    and "length (base @ slash # d) + 1 < length (req_target put)"
    using assms(1) by (auto simp: t name_part_def)
  moreover have "update_dir (req_target put) i = Some (take (length e - length (int_to_string i) - 1) e)"
    unfolding t using assms(1,3) by (rule update_dir_trailing)
  moreover have "handle_update b os root put res s = (Inr Created, res1, s1)"
    using assms(4,6) by (simp add: crud_handle_request_def)
  ultimately show ?thesis
    using r assms(2)
    by (auto simp: handle_update_def Let_def write_entity_def bad_request_def split: if_splits option.splits)
qed

end
