(* ===== verification/Crud_Refinement.thy ===== *)
theory Crud_Refinement
  imports Crud_Properties
begin

text \<open>
  The entity store against its abstract specification, a map from type and identifier to content.
  The abstraction reads the files of the entities in the table; \<open>in_sync\<close> says that table and
  disk agree. Each request of the service, whatever its outcome, is one step of the map.
\<close>

section \<open>The specification\<close>

type_synonym entity_store = "string \<times> int \<Rightarrow> string option"

datatype store_op =
    Post string string
  | Put string int string
  | Delete string int
  | Get string int

fun store_step :: "entity_store \<Rightarrow> store_op \<Rightarrow> status \<Rightarrow> string \<Rightarrow> entity_store \<Rightarrow> bool" where
  \<comment> \<open>the store before, the request, the status and the body of the answer, the store after\<close>
  "store_step A (Post d c) Created answer A' =
     (\<exists>i. 1 \<le> i \<and> A (d, i) = None \<and> (\<forall>j. 1 \<le> j \<and> j < i \<longrightarrow> A (d, j) \<noteq> None) \<and>
        answer = id_note ''Created'' i \<and> A' = A((d, i) \<mapsto> c))"
| "store_step A (Put d i c) Created answer A' = (answer = id_note ''Created'' i \<and> A' = A((d, i) \<mapsto> c))"
| "store_step A (Put d i c) Status_ok answer A' =
     (A (d, i) \<noteq> None \<and> answer = id_note ''Update'' i \<and> A' = A((d, i) \<mapsto> c))"
| "store_step A (Delete d i) Status_ok answer A' =
     (A (d, i) \<noteq> None \<and> answer = id_note ''Deleted'' i \<and> A' = A((d, i) := None))"
| "store_step A (Get d i) Status_ok answer A' = (A (d, i) = Some answer \<and> A' = A)"
| "store_step A _ Bad_request answer A' = (A' = A)"
| "store_step A _ _ answer A' = False"

fun op_ok :: "store_op \<Rightarrow> bool" where
  "op_ok (Post d c) = name_part d"
| "op_ok (Put d i c) = (name_part d \<and> 1 \<le> i \<and> in_int_range i)"
| "op_ok (Delete d i) = (name_part d \<and> 1 \<le> i \<and> in_int_range i)"
| "op_ok (Get d i) = (name_part d \<and> 1 \<le> i \<and> in_int_range i)"

fun request_for :: "string \<Rightarrow> store_op \<Rightarrow> request" where
  "request_for base (Post d c) = crud_request Verb_post (base @ slash # d) c"
| "request_for base (Put d i c) = crud_request Verb_put (base @ slash # d @ slash # int_to_string i) c"
| "request_for base (Delete d i) = crud_request Verb_delete (base @ slash # d @ slash # int_to_string i) []"
| "request_for base (Get d i) = crud_request Verb_get (base @ slash # d @ slash # int_to_string i) []"

section \<open>The abstraction\<close>

definition entity_path :: "string \<Rightarrow> string \<Rightarrow> int \<Rightarrow> string" where
  "entity_path root d i = root @ ''/'' @ d @ ''/'' @ int_to_string i"

definition abs_store :: "'w os \<Rightarrow> string \<Rightarrow> 'w crud \<Rightarrow> entity_store" where
  "abs_store os root s = (\<lambda>(d, i).
     if name_part d \<and> entity_exists (crud_ids s) d i
     then os_read os (crud_disk s) (entity_path root d i) else None)"

definition in_sync :: "'w os \<Rightarrow> string \<Rightarrow> 'w crud \<Rightarrow> bool" where
  "in_sync os root s \<longleftrightarrow> table_ok (crud_ids s) \<and>
     (\<forall>d i. name_part d \<longrightarrow>
        (entity_exists (crud_ids s) d i \<longleftrightarrow> os_exists os (crud_disk s) (entity_path root d i)) \<and>
        (entity_exists (crud_ids s) d i \<longrightarrow> os_read os (crud_disk s) (entity_path root d i) \<noteq> None))"

text \<open>
  What the disk promises about the files of other entities, and about all of them when a
  directory of a type is made: they stay as they are. No two entities share a file.
\<close>

definition same_entity :: "'w os \<Rightarrow> string \<Rightarrow> 'w \<Rightarrow> 'w \<Rightarrow> string \<Rightarrow> int \<Rightarrow> bool" where
  "same_entity os root w w' d i \<longleftrightarrow>
     os_read os w' (entity_path root d i) = os_read os w (entity_path root d i) \<and>
     os_exists os w' (entity_path root d i) = os_exists os w (entity_path root d i)"

definition entity_frame :: "'w os \<Rightarrow> string \<Rightarrow> bool" where
  "entity_frame os root \<longleftrightarrow>
     (\<forall>d i e j w c w'. name_part d \<and> name_part e \<and> (d, i) \<noteq> (e, j) \<longrightarrow>
        (os_write os w (entity_path root d i) c = Some w' \<longrightarrow> same_entity os root w w' e j) \<and>
        (os_remove os w (entity_path root d i) = Some w' \<longrightarrow> same_entity os root w w' e j)) \<and>
     (\<forall>d e j w w'. name_part d \<and> name_part e \<longrightarrow>
        os_create_directory os w (root @ ''/'' @ d) = Some w' \<longrightarrow> same_entity os root w w' e j)"

lemma entity_frameD:
  assumes "entity_frame os root" and "name_part d" and "name_part e"
  shows "os_write os w (entity_path root d i) c = Some w' \<Longrightarrow> (e, j) \<noteq> (d, i) \<Longrightarrow> same_entity os root w w' e j"
    and "os_remove os w (entity_path root d i) = Some w' \<Longrightarrow> (e, j) \<noteq> (d, i) \<Longrightarrow> same_entity os root w w' e j"
    and "os_create_directory os w (root @ ''/'' @ d) = Some w' \<Longrightarrow> same_entity os root w w' e j"
  using assms unfolding entity_frame_def by (metis, metis, metis)

lemma in_syncD:
  assumes "in_sync os root s"
  shows "table_ok (crud_ids s)"
    and "name_part d \<Longrightarrow> entity_exists (crud_ids s) d i \<longleftrightarrow> os_exists os (crud_disk s) (entity_path root d i)"
    and "name_part d \<Longrightarrow> entity_exists (crud_ids s) d i \<Longrightarrow>
      os_read os (crud_disk s) (entity_path root d i) \<noteq> None"
  using assms unfolding in_sync_def by blast+

lemma abs_store_None_iff:
  "in_sync os root s \<Longrightarrow> name_part d \<Longrightarrow> abs_store os root s (d, i) = None \<longleftrightarrow> \<not> entity_exists (crud_ids s) d i"
  by (auto simp: abs_store_def dest: in_syncD(3))

text \<open>The three ways a state changes.\<close>

lemma sync_made_dir:
  assumes "in_sync os root s" and "entity_frame os root" and "name_part d"
    and "os_create_directory os (crud_disk s) (root @ ''/'' @ d) = Some w"
  shows "in_sync os root (s\<lparr>crud_disk := w\<rparr>)" and "abs_store os root (s\<lparr>crud_disk := w\<rparr>) = abs_store os root s"
proof -
  have same: "same_entity os root (crud_disk s) w e j" if "name_part e" for e j
    using entity_frameD(3) [OF assms(2,3) that assms(4)] .
  then show "in_sync os root (s\<lparr>crud_disk := w\<rparr>)"
    using assms(1) unfolding in_sync_def same_entity_def by simp
  show "abs_store os root (s\<lparr>crud_disk := w\<rparr>) = abs_store os root s"
    using same by (auto simp: abs_store_def same_entity_def)
qed

lemma sync_stored:
  assumes "in_sync os root s" and "os_laws os" and "entity_frame os root" and "name_part d"
    and "os_write os (crud_disk s) (entity_path root d i) c = Some w"
    and "table_ok ids" and "\<And>e j. entity_exists ids e j \<longleftrightarrow> entity_exists (crud_ids s) e j \<or> e = d \<and> j = i"
  shows "in_sync os root \<lparr>crud_ids = ids, crud_disk = w\<rparr>"
    and "abs_store os root \<lparr>crud_ids = ids, crud_disk = w\<rparr> = (abs_store os root s)((d, i) \<mapsto> c)"
proof -
  note file_now = os_lawsD(1,2) [OF assms(2,5)]
  have same: "same_entity os root (crud_disk s) w e j" if "name_part e" "(e, j) \<noteq> (d, i)" for e j
    using entity_frameD(1) [OF assms(3,4) that(1) assms(5) that(2)] .
  have "(entity_exists ids e j \<longleftrightarrow> os_exists os w (entity_path root e j)) \<and>
      (entity_exists ids e j \<longrightarrow> os_read os w (entity_path root e j) \<noteq> None)" if "name_part e" for e j
    using same [OF that, of j] in_syncD(2,3) [OF assms(1) that, of j] file_now assms(7)
    by (cases "(e, j) = (d, i)") (auto simp: same_entity_def)
  then show "in_sync os root \<lparr>crud_ids = ids, crud_disk = w\<rparr>"
    using assms(6) by (simp add: in_sync_def)
  show "abs_store os root \<lparr>crud_ids = ids, crud_disk = w\<rparr> = (abs_store os root s)((d, i) \<mapsto> c)"
  proof
    fix k :: "string \<times> int"
    obtain e j where k: "k = (e, j)" by (cases k)
    show "abs_store os root \<lparr>crud_ids = ids, crud_disk = w\<rparr> k = ((abs_store os root s)((d, i) \<mapsto> c)) k"
      using same [of e j] file_now assms(4,7)
      by (cases "(e, j) = (d, i)") (auto simp: k abs_store_def same_entity_def)
  qed
qed

lemma sync_removed:
  assumes "in_sync os root s" and "os_laws os" and "entity_frame os root" and "name_part d"
    and "os_remove os (crud_disk s) (entity_path root d i) = Some w"
    and "table_ok ids" and "\<And>e j. entity_exists ids e j \<longleftrightarrow> entity_exists (crud_ids s) e j \<and> (e, j) \<noteq> (d, i)"
  shows "in_sync os root \<lparr>crud_ids = ids, crud_disk = w\<rparr>"
    and "abs_store os root \<lparr>crud_ids = ids, crud_disk = w\<rparr> = (abs_store os root s)((d, i) := None)"
proof -
  note gone = os_lawsD(6) [OF assms(2,5)]
  have same: "same_entity os root (crud_disk s) w e j" if "name_part e" "(e, j) \<noteq> (d, i)" for e j
    using entity_frameD(2) [OF assms(3,4) that(1) assms(5) that(2)] .
  have "(entity_exists ids e j \<longleftrightarrow> os_exists os w (entity_path root e j)) \<and>
      (entity_exists ids e j \<longrightarrow> os_read os w (entity_path root e j) \<noteq> None)" if "name_part e" for e j
    using same [OF that, of j] in_syncD(2,3) [OF assms(1) that, of j] gone assms(7)
    by (cases "(e, j) = (d, i)") (auto simp: same_entity_def)
  then show "in_sync os root \<lparr>crud_ids = ids, crud_disk = w\<rparr>"
    using assms(6) by (simp add: in_sync_def)
  show "abs_store os root \<lparr>crud_ids = ids, crud_disk = w\<rparr> = (abs_store os root s)((d, i) := None)"
  proof
    fix k :: "string \<times> int"
    obtain e j where k: "k = (e, j)" by (cases k)
    show "abs_store os root \<lparr>crud_ids = ids, crud_disk = w\<rparr> k = ((abs_store os root s)((d, i) := None)) k"
      using same [of e j] assms(7)
      by (cases "(e, j) = (d, i)") (auto simp: k abs_store_def same_entity_def)
  qed
qed

section \<open>Each request\<close>

lemma creation_target_eq:
  assumes "req_target req = base @ slash # d" and "name_part d"
  shows "handle_creation b os root req res s =
    (let path = root @ ''/'' @ d; w = crud_disk s; i = get_available_id (crud_ids s) d in
     case (if \<not> os_exists os w path \<or> \<not> os_is_directory os w path then os_create_directory os w path else Some w) of
       None \<Rightarrow> bad_request b ''Creation of directory for Entity failed.'' res s
     | Some w1 \<Rightarrow>
         (case os_write os w1 (entity_path root d i) (req_body req) of
            Some w2 \<Rightarrow> (Inr Created, prepare_created_response b i res,
              \<lparr>crud_ids = add_id_to_entity d i (crud_ids s), crud_disk = w2\<rparr>)
          | None \<Rightarrow> bad_request b (''Failed to write to file during Entity creation at : '' @ entity_path root d i)
              res (s\<lparr>crud_disk := w1\<rparr>)))"
proof -
  have "rfind_char slash (req_target req) = Some (length base)"
    by (simp only: assms(1) rfind_target [OF assms(2)])
  moreover have "length base + 1 < length (req_target req)" "drop (length base + 1) (req_target req) = d"
    using assms(2) by (auto simp: assms(1) name_part_def)
  ultimately show ?thesis
    by (simp add: handle_creation_def Let_def entity_path_def split: option.split)
qed

lemma created_answer [simp]:
  "payload_law b \<Longrightarrow> res_body (prepare_created_response b i r) = id_note ''Created'' i"
  "payload_law b \<Longrightarrow> res_body (prepare_update_response b i r) = id_note ''Update'' i"
  "payload_law b \<Longrightarrow> res_body (prepare_deleted_response b i r) = id_note ''Deleted'' i"
  by (simp_all add: prepare_created_response_def prepare_update_response_def prepare_deleted_response_def)

lemma post_refines:
  assumes "os_laws os" and "payload_law b" and "entity_frame os root" and "in_sync os root s" and "name_part d"
    and "handle_creation b os root (crud_request Verb_post (base @ slash # d) c) res s = (Inr st, res', s')"
  shows "in_sync os root s' \<and>
    store_step (abs_store os root s) (Post d c) st (res_body res') (abs_store os root s')"
proof -
  let ?req = "crud_request Verb_post (base @ slash # d) c"
  let ?i = "get_available_id (crud_ids s) d"
  let ?path = "root @ ''/'' @ d"
  let ?made = "if \<not> os_exists os (crud_disk s) ?path \<or> \<not> os_is_directory os (crud_disk s) ?path
    then os_create_directory os (crud_disk s) ?path else Some (crud_disk s)"
  note run = assms(6) [unfolded creation_target_eq [of ?req base d, OF crud_request_simps(2) assms(5)] Let_def]
  show ?thesis
  proof (cases ?made)
    case None
    with run assms(4) show ?thesis by (simp add: bad_request_def)
  next
    case (Some w1)
    let ?s1 = "s\<lparr>crud_disk := w1\<rparr>"
    have s1: "in_sync os root ?s1" "abs_store os root ?s1 = abs_store os root s"
      using Some sync_made_dir [OF assms(4,3,5)] assms(4) by (auto split: if_splits)
    show ?thesis
    proof (cases "os_write os w1 (entity_path root d ?i) c")
      case None
      with run Some s1 show ?thesis by (simp add: bad_request_def)
    next
      case (Some w2)
      note stored = sync_stored [OF s1(1) assms(1,3,5), of ?i c w2 "add_id_to_entity d ?i (crud_ids s)"]
      have new: "table_ok (crud_ids s)" using assms(4) by (rule in_syncD)
      from run \<open>?made = Some w1\<close> Some have r: "st = Created" "res' = prepare_created_response b ?i res"
        "s' = \<lparr>crud_ids = add_id_to_entity d ?i (crud_ids s), crud_disk = w2\<rparr>" by simp_all
      have "in_sync os root s'" "abs_store os root s' = (abs_store os root s)((d, ?i) \<mapsto> c)"
        using stored Some table_ok_create [OF new] s1(2) by (simp_all add: r(3))
      moreover have "abs_store os root s (d, ?i) = None" "1 \<le> ?i"
        "\<forall>j. 1 \<le> j \<and> j < ?i \<longrightarrow> abs_store os root s (d, j) \<noteq> None"
        using available_fresh [OF new] by (auto simp: abs_store_None_iff [OF assms(4,5)])
      ultimately show ?thesis using assms(2) by (auto simp: r(1,2))
    qed
  qed
qed

lemma put_refines:
  assumes "os_laws os" and "payload_law b" and "entity_frame os root" and "in_sync os root s"
    and "name_part d" and "1 \<le> i" and "in_int_range i"
    and "handle_update b os root (crud_request Verb_put (base @ slash # d @ slash # int_to_string i) c) res s =
      (Inr st, res', s')"
  shows "in_sync os root s' \<and>
    store_step (abs_store os root s) (Put d i c) st (res_body res') (abs_store os root s')"
proof -
  let ?req = "crud_request Verb_put (base @ slash # d @ slash # int_to_string i) c"
  let ?dir = "root @ ''/'' @ d"
  let ?w = "crud_disk s"
  have path: "?dir @ ''/'' @ int_to_string i = entity_path root d i" by (simp add: entity_path_def)
  note run = assms(8) [unfolded update_target [of ?req base d i, OF crud_request_simps(2) assms(5,7)] Let_def path]
  have ok: "table_ok (add_id_to_entity d i (crud_ids s))"
    using in_syncD(1) [OF assms(4)] assms(6) by (rule table_ok_add)
  show ?thesis
  proof (cases "\<not> os_exists os ?w (entity_path root d i) \<or> \<not> os_exists os ?w ?dir \<or>
      os_exists os ?w ?dir \<and> \<not> os_is_directory os ?w ?dir")
    case fresh: True
    show ?thesis
    proof (cases "os_create_directory os ?w ?dir")
      case None
      with run fresh assms(4) show ?thesis by (simp add: bad_request_def)
    next
      case (Some w1)
      note s1 = sync_made_dir [OF assms(4,3,5) Some]
      show ?thesis
      proof (cases "os_write os w1 (entity_path root d i) c")
        case None
        with run fresh Some s1 show ?thesis by (simp add: bad_request_def write_entity_def)
      next
        case (Some w2)
        note stored = sync_stored [OF s1(1) assms(1,3,5), of i c w2 "add_id_to_entity d i (crud_ids s)"]
        from run fresh \<open>os_create_directory os ?w ?dir = Some w1\<close> Some have r: "st = Created"
          "res' = prepare_created_response b i res"
          "s' = \<lparr>crud_ids = add_id_to_entity d i (crud_ids s), crud_disk = w2\<rparr>"
          by (simp_all add: write_entity_def)
        show ?thesis using stored Some ok s1(2) assms(2) by (simp add: r)
      qed
    qed
  next
    case old: False
    then have e: "entity_exists (crud_ids s) d i" using in_syncD(2) [OF assms(4,5)] by simp
    then have same_ids: "entity_exists (crud_ids s) e' j \<longleftrightarrow> entity_exists (crud_ids s) e' j \<or> e' = d \<and> j = i"
      for e' j by auto
    show ?thesis
    proof (cases "os_write os ?w (entity_path root d i) c")
      case None
      with run old assms(4) show ?thesis by (simp add: bad_request_def write_entity_def)
    next
      case (Some w2)
      note stored = sync_stored [OF assms(4,1,3,5) Some in_syncD(1) [OF assms(4)] same_ids]
      from run old Some have r: "st = Status_ok" "res' = prepare_update_response b i res"
        "s' = s\<lparr>crud_disk := w2\<rparr>"
        by (auto simp: write_entity_def)
      have "s' = \<lparr>crud_ids = crud_ids s, crud_disk = w2\<rparr>" by (cases s) (simp add: r(3))
      then show ?thesis
        using stored e assms(2) by (simp add: r(1,2) abs_store_None_iff [OF assms(4,5)])
    qed
  qed
qed

lemma delete_refines:
  assumes "os_laws os" and "payload_law b" and "entity_frame os root" and "in_sync os root s"
    and "name_part d" and "in_int_range i"
    and "handle_deletion b os root (crud_request Verb_delete (base @ slash # d @ slash # int_to_string i) []) res s =
      (Inr st, res', s')"
    and "st \<noteq> Internal_server_error"
  shows "in_sync os root s' \<and>
    store_step (abs_store os root s) (Delete d i) st (res_body res') (abs_store os root s')"
proof -
  let ?req = "crud_request Verb_delete (base @ slash # d @ slash # int_to_string i) []"
  have path: "root @ ''/'' @ d @ ''/'' @ int_to_string i = entity_path root d i" by (simp add: entity_path_def)
  note run = assms(7) [unfolded deletion_target [of ?req base d i, OF crud_request_simps(2) assms(5,6)] Let_def path]
  obtain found ids' where rem: "remove_id_from_entity d i (crud_ids s) = (found, ids')"
    by (cases "remove_id_from_entity d i (crud_ids s)")
  show ?thesis
  proof (cases "os_exists os (crud_disk s) (entity_path root d i) \<and>
      \<not> os_is_directory os (crud_disk s) (entity_path root d i) \<and> found")
    case False
    with run rem assms(4) show ?thesis by (auto simp: bad_request_def split: if_splits bool.splits)
  next
    case True
    show ?thesis
    proof (cases "os_remove os (crud_disk s) (entity_path root d i)")
      case None
      with run rem True assms(8) show ?thesis by simp
    next
      case (Some w)
      from run rem True Some have r: "st = Status_ok" "res' = prepare_deleted_response b i res"
        "s' = \<lparr>crud_ids = ids', crud_disk = w\<rparr>" by simp_all
      have ids: "ids_of ids' d = remove1 i (ids_of (crud_ids s) d)" "i \<in> set (ids_of (crud_ids s) d)"
        using ids_of_remove [of d i "crud_ids s" ids'] rem True by simp_all
      have other: "ids_of ids' e = ids_of (crud_ids s) e" if "e \<noteq> d" for e
        using rem that by (auto simp: remove_id_from_entity_def ids_of_def split: option.splits if_splits)
      have table: "table_ok (crud_ids s)" using assms(4) by (rule in_syncD)
      have "entity_exists ids' e j \<longleftrightarrow> entity_exists (crud_ids s) e j \<and> (e, j) \<noteq> (d, i)" for e j
        using id_list.members_del [OF ids_ok_ids_of [OF table], of i d] ids(1) other [of e]
        by (cases "e = d") (auto simp: entity_exists_ids_of)
      note gone = sync_removed [OF assms(4,1,3,5) Some table_ok_remove [OF table rem] this]
      have "entity_exists (crud_ids s) d i" using ids(2) by (simp add: entity_exists_ids_of)
      with gone assms(2) show ?thesis by (simp add: r abs_store_None_iff [OF assms(4,5)])
    qed
  qed
qed

lemma get_refines:
  assumes "payload_law b" and "in_sync os root s" and "name_part d" and "in_int_range i"
    and "res_result res = Status_ok"
    and "crud_handle_get b os root (crud_request Verb_get (base @ slash # d @ slash # int_to_string i) []) res s =
      (Inr st, res', s')"
  shows "in_sync os root s' \<and>
    store_step (abs_store os root s) (Get d i) st (res_body res') (abs_store os root s')"
proof -
  let ?req = "crud_request Verb_get (base @ slash # d @ slash # int_to_string i) []"
  have path: "root @ ''/'' @ d @ ''/'' @ int_to_string i = entity_path root d i" by (simp add: entity_path_def)
  note eqs = retrieval_target [of ?req base d i, OF crud_request_simps(2) assms(3,4)]
  note run = assms(6) [unfolded eqs(1), unfolded eqs(2) path]
  show ?thesis
  proof (cases "entity_exists (crud_ids s) d i")
    case False
    with run assms(2) show ?thesis by (simp add: bad_request_def)
  next
    case True
    then obtain c where "os_read os (crud_disk s) (entity_path root d i) = Some c"
      using in_syncD(3) [OF assms(2,3)] by blast
    with run True assms(1,2,3,5) show ?thesis by (auto simp: abs_store_def)
  qed
qed

section \<open>Properties\<close>

lemma sample_paths:
  assumes "name_part d" and "name_part e" and "(d, i) \<noteq> (e, j)"
  shows "entity_path root d i \<noteq> entity_path root e j"
proof
  assume eq: "entity_path root d i = entity_path root e j"
  then have "after_last slash ((root @ slash # d) @ slash # int_to_string i) =
      after_last slash ((root @ slash # e) @ slash # int_to_string j)"
    by (simp add: entity_path_def)
  then have "i = j" by (simp only: after_last_target [OF name_part_int] int_to_string_inj)
  with eq assms(3) show False by (simp add: entity_path_def)
qed

lemma sample_dir_path:
  assumes "name_part d" and "name_part e"
  shows "root @ ''/'' @ d \<noteq> entity_path root e j"
proof
  assume "root @ ''/'' @ d = entity_path root e j"
  then have "d = e @ slash # int_to_string j" by (simp add: entity_path_def)
  with assms(1) show False by (simp add: name_part_def)
qed

lemma map_of_filter_other: "p \<noteq> q \<Longrightarrow> map_of (filter (\<lambda>e. fst e \<noteq> p) w) q = map_of w q"
  by (induction w) auto

lemma shoes_target_text: "int_to_string 1 = ''1''"
  by code_simp

lemma sample_frame: "entity_frame sample_os root"
proof -
  have "same_entity sample_os root w w' e j"
    if "name_part d" "name_part e" "(d, i) \<noteq> (e, j)" "os_write sample_os w (entity_path root d i) c = Some w'"
    for d i e j w w' c
    using that(4) sample_paths [OF that(1-3), of root]
    by (auto simp: same_entity_def sample_os_def split: if_splits)
  moreover have "same_entity sample_os root w w' e j"
    if "name_part d" "name_part e" "(d, i) \<noteq> (e, j)" "os_remove sample_os w (entity_path root d i) = Some w'"
    for d i e j w w'
    using that(4) map_of_filter_other [OF sample_paths [OF that(1-3), of root], of w]
    by (auto simp: same_entity_def sample_os_def split: if_splits)
  moreover have "same_entity sample_os root w w' e j"
    if "name_part d" "name_part e" "os_create_directory sample_os w (root @ ''/'' @ d) = Some w'"
    for d e j w w'
    using that(3) sample_dir_path [OF that(1,2), of root j]
    by (auto simp: same_entity_def sample_os_def split: if_splits option.splits)
  ultimately show ?thesis unfolding entity_frame_def by blast
qed

text \<open>
  C2: the entity store refines a map from type and identifier to content: in a state whose table
  and disk agree, every POST, PUT, DELETE and GET on a well-formed target, whatever it answers
  (500 apart), is the step of the map its status announces. 201 stores the body under the
  least free identifier or the one named, 200 replaces, removes or returns exactly that entity,
  400 changes nothing; and table and disk agree afterwards.
\<close>
theorem crud_refines_store:
  assumes "os_laws os" and "payload_law b" and "entity_frame os root" and "in_sync os root s" and "op_ok r"
    and "crud_handle_request b os root (request_for base r) fresh_response s = (Inr st, res', s')"
    and "st \<noteq> Internal_server_error"
  shows "in_sync os root s' \<and> store_step (abs_store os root s) r st (res_body res') (abs_store os root s')"
proof (cases r)
  case (Post d c)
  with assms(5,6) have "name_part d"
    "handle_creation b os root (crud_request Verb_post (base @ slash # d) c) fresh_response s = (Inr st, res', s')"
    by (simp_all add: crud_handle_request_def)
  from post_refines [OF assms(1-4) this] Post show ?thesis by simp
next
  case (Put d i c)
  with assms(5,6) have "name_part d" "1 \<le> i" "in_int_range i"
    "handle_update b os root (crud_request Verb_put (base @ slash # d @ slash # int_to_string i) c)
       fresh_response s = (Inr st, res', s')"
    by (simp_all add: crud_handle_request_def)
  from put_refines [OF assms(1-4) this] Put show ?thesis by simp
next
  case (Delete d i)
  with assms(5,6) have "name_part d" "in_int_range i"
    "handle_deletion b os root (crud_request Verb_delete (base @ slash # d @ slash # int_to_string i) [])
       fresh_response s = (Inr st, res', s')"
    by (simp_all add: crud_handle_request_def)
  from delete_refines [OF assms(1-4) this assms(7)] Delete show ?thesis by simp
next
  case (Get d i)
  with assms(5,6) have "name_part d" "in_int_range i" "res_result fresh_response = Status_ok"
    "crud_handle_get b os root (crud_request Verb_get (base @ slash # d @ slash # int_to_string i) [])
       fresh_response s = (Inr st, res', s')"
    by (simp_all add: crud_handle_request_def fresh_response_def)
  from get_refines [OF assms(2,4) this] Get show ?thesis by simp
qed

lemma shoes_in_sync: "in_sync sample_os ''/data'' shoes"
proof -
  have "(entity_exists (crud_ids shoes) d i \<longleftrightarrow> os_exists sample_os (crud_disk shoes) (entity_path ''/data'' d i)) \<and>
      (entity_exists (crud_ids shoes) d i \<longrightarrow> os_read sample_os (crud_disk shoes) (entity_path ''/data'' d i) \<noteq> None)"
    if d: "name_part d" for d i
  proof (cases "(d, i) = (''Shoes'', 1)")
    case True
    then show ?thesis
      by (simp add: shoes_def entity_exists_def sample_os_def entity_path_def shoes_target_text)
  next
    case False
    have e: "''/data/Shoes/1'' = entity_path ''/data'' ''Shoes'' 1"
      by (simp add: entity_path_def shoes_target_text)
    have "entity_path ''/data'' d i \<noteq> ''/data/Shoes/1''"
      unfolding e using sample_paths [OF d shoes_facts(1) False] .
    moreover have "''/data'' @ ''/'' @ ''Shoes'' \<noteq> entity_path ''/data'' d i"
      using sample_dir_path [OF shoes_facts(1) d] .
    moreover have "entity_path ''/data'' d i \<noteq> ''/data''" by (simp add: entity_path_def)
    ultimately have "os_exists sample_os (crud_disk shoes) (entity_path ''/data'' d i) = False"
      by (auto simp: shoes_def sample_os_def)
    moreover have "\<not> entity_exists (crud_ids shoes) d i"
      using False by (auto simp: shoes_def entity_exists_def)
    ultimately show ?thesis by simp
  qed
  with shoes_table_ok show ?thesis unfolding in_sync_def by blast
qed

theorem crud_refines_store_witness:
  "let run = crud_handle_request sample_beast sample_os ''/data'' (request_for ''/api'' (Post ''Shoes'' ''new''))
     fresh_response shoes
   in \<exists>i. abs_store sample_os ''/data'' shoes (''Shoes'', i) = None \<and>
      abs_store sample_os ''/data'' (snd (snd run)) = (abs_store sample_os ''/data'' shoes)((''Shoes'', i) \<mapsto> ''new'')"
proof -
  let ?run = "crud_handle_request sample_beast sample_os ''/data'' (request_for ''/api'' (Post ''Shoes'' ''new''))
    fresh_response shoes"
  have "fst ?run = Inr Created" by code_simp
  from status_run [OF this] obtain res' s' where run: "?run = (Inr Created, res', s')" by blast
  have "op_ok (Post ''Shoes'' ''new'')" "Created \<noteq> Internal_server_error"
    using shoes_facts(1) by simp_all
  from crud_refines_store [OF sample_os_laws sample_beast_payload sample_frame shoes_in_sync this(1) run this(2)] run
  show ?thesis by auto
qed

end
