(* ===== verification/Crud_Restart.thy ===== *)
theory Crud_Restart
  imports Crud_Refinement
begin

text \<open>
  The entity store across a restart: a new factory has an empty table and fills it from the disk
  (\<open>CrudHandlerFactory::initialize_entity_map\<close>). \<open>listing_law\<close> is what a directory iterator
  promises, \<open>only_entities\<close> that nothing but entities lies under the root. The first scan then
  finds exactly the entities on the disk; each further one finds them again.
\<close>

section \<open>What the disk lists\<close>

definition listing_law :: "'w os \<Rightarrow> bool" where
  "listing_law os \<longleftrightarrow>
     (\<forall>w q. distinct (os_entries os w q)) \<and>
     (\<forall>w q p n. os_is_directory os w q \<longrightarrow>
        ((p, n) \<in> set (os_entries os w q) \<longleftrightarrow> name_part n \<and> p = q @ slash # n \<and> os_exists os w p))"

definition only_entities :: "'w os \<Rightarrow> string \<Rightarrow> 'w \<Rightarrow> bool" where
  "only_entities os root w \<longleftrightarrow>
     os_exists os w root \<and> os_is_directory os w root \<and>
     (\<forall>d n. name_part d \<and> name_part n \<and> os_exists os w (root @ slash # d @ slash # n) \<longrightarrow>
        os_exists os w (root @ slash # d) \<and> os_is_directory os w (root @ slash # d) \<and>
        os_read os w (root @ slash # d @ slash # n) \<noteq> None \<and>
        (\<exists>i \<ge> 1. in_int_range i \<and> n = int_to_string i))"

lemma listing_iff:
  "listing_law os \<Longrightarrow> os_is_directory os w q \<Longrightarrow>
   (p, n) \<in> set (os_entries os w q) \<longleftrightarrow> name_part n \<and> p = q @ slash # n \<and> os_exists os w p"
  by (simp add: listing_law_def)

lemma listing_distinct: "listing_law os \<Longrightarrow> distinct (os_entries os w q)"
  by (simp add: listing_law_def)

lemma only_entitiesD:
  assumes "only_entities os root w"
  shows "os_exists os w root" and "os_is_directory os w root"
    and "name_part d \<Longrightarrow> name_part n \<Longrightarrow> os_exists os w (root @ slash # d @ slash # n) \<Longrightarrow>
      os_exists os w (root @ slash # d) \<and> os_is_directory os w (root @ slash # d) \<and>
      os_read os w (root @ slash # d @ slash # n) \<noteq> None \<and> (\<exists>i \<ge> 1. in_int_range i \<and> n = int_to_string i)"
  using assms unfolding only_entities_def by blast+

lemma entity_path_slash: "entity_path root d i = root @ slash # d @ slash # int_to_string i"
  by (simp add: entity_path_def)

section \<open>The scan\<close>

lemma scan_entities_returns:
  "\<forall>e \<in> set es. returns (stoi (snd e)) \<Longrightarrow> \<exists>ids'. scan_entities junk dir es ids = (None, ids')"
proof (induction es arbitrary: ids)
  case (Cons e es)
  then obtain i where "stoi (snd e) = Inr i" by (auto simp: returns_iff)
  with Cons show ?case by (cases e) simp
qed simp

lemma scan_types_returns:
  "\<forall>t \<in> set ds. os_is_directory os w (fst t) \<longrightarrow> (\<forall>e \<in> set (os_entries os w (fst t)). returns (stoi (snd e))) \<Longrightarrow>
   \<exists>ids'. scan_types os w junk ds ids = (None, ids')"
proof (induction ds arbitrary: ids)
  case (Cons t ds)
  obtain p n where t: "t = (p, n)" by (cases t)
  show ?case
  proof (cases "os_is_directory os w p")
    case True
    with Cons.prems t have "\<forall>e \<in> set (os_entries os w p). returns (stoi (snd e))" by simp
    then obtain ids1 where "scan_entities junk n (os_entries os w p) ids = (None, ids1)"
      using scan_entities_returns by blast
    with Cons True t show ?thesis by simp
  qed (use Cons t in simp)
qed simp

lemma sum_one_entry:
  assumes "distinct ds" and "\<forall>t \<in> set ds. fst t = g (snd t)"
  shows "sum_list (map (\<lambda>(p, n). if P p \<and> n = d then F p else ({#} :: int multiset)) ds) =
    (if (g d, d) \<in> set ds \<and> P (g d) then F (g d) else {#})"
  using assms by (induction ds) (auto split: prod.splits)

lemma entry_names:
  assumes "listing_law os" and "only_entities os root w" and "name_part d" and "os_is_directory os w (root @ slash # d)"
    and "e \<in> set (os_entries os w (root @ slash # d))"
  shows "\<exists>i \<ge> 1. in_int_range i \<and> e = (entity_path root d i, int_to_string i)"
proof -
  obtain p n where e: "e = (p, n)" by (cases e)
  with assms(1,4,5) have "name_part n" "p = root @ slash # d @ slash # n" "os_exists os w p"
    by (auto simp: listing_iff)
  with only_entitiesD(3) [OF assms(2,3)] e show ?thesis by (auto simp: entity_path_slash)
qed


lemma file_id_entity: "in_int_range i \<Longrightarrow> file_id junk (p, int_to_string i) = i"
  by (simp add: file_id_def)

lemma dir_ids:
  assumes "listing_law os" and "only_entities os root w" and "name_part d" and "os_is_directory os w (root @ slash # d)"
  shows "distinct (map (file_id junk) (os_entries os w (root @ slash # d)))"
    and "i \<in> file_id junk ` set (os_entries os w (root @ slash # d)) \<longleftrightarrow> os_exists os w (entity_path root d i)"
proof -
  let ?es = "os_entries os w (root @ slash # d)"
  note names = entry_names [OF assms]
  have "inj_on (file_id junk) (set ?es)"
  proof (rule inj_onI)
    fix e f
    assume "e \<in> set ?es" "f \<in> set ?es" "file_id junk e = file_id junk f"
    with names [of e] names [of f] show "e = f" by (auto simp: file_id_entity)
  qed
  with listing_distinct [OF assms(1)] show "distinct (map (file_id junk) ?es)" by (simp add: distinct_map)
  have listed: "(entity_path root d i, int_to_string i) \<in> set ?es \<longleftrightarrow> os_exists os w (entity_path root d i)"
    using listing_iff [OF assms(1,4)] by (simp add: entity_path_slash)
  show "i \<in> file_id junk ` set ?es \<longleftrightarrow> os_exists os w (entity_path root d i)"
  proof
    assume "i \<in> file_id junk ` set ?es"
    then obtain e where e: "e \<in> set ?es" "file_id junk e = i" by blast
    with names [of e] have "e = (entity_path root d i, int_to_string i)" by (auto simp: file_id_entity)
    with e(1) listed show "os_exists os w (entity_path root d i)" by simp
  next
    assume "os_exists os w (entity_path root d i)"
    with listed have e: "(entity_path root d i, int_to_string i) \<in> set ?es" by simp
    with names [OF e] show "i \<in> file_id junk ` set ?es" by (auto simp: file_id_entity intro!: rev_image_eqI)
  qed
qed

lemma disk_ids_listed:
  assumes "listing_law os" and "only_entities os root w"
    and "mset xs = disk_ids os w junk (os_entries os w root) d"
  shows "distinct xs" and "i \<in> set xs \<longleftrightarrow> name_part d \<and> os_exists os w (entity_path root d i)"
proof -
  let ?dir = "root @ slash # d" and ?P = "os_is_directory os w"
  note root_dir = only_entitiesD(1,2) [OF assms(2)]
  have "\<forall>t \<in> set (os_entries os w root). fst t = root @ slash # snd t"
    using listing_iff [OF assms(1) root_dir(2)] by fastforce
  from sum_one_entry [OF listing_distinct [OF assms(1)] this, of ?P d
      "\<lambda>p. mset (map (file_id junk) (os_entries os w p))"]
  have sum: "mset xs = (if (?dir, d) \<in> set (os_entries os w root) \<and> ?P ?dir
      then mset (map (file_id junk) (os_entries os w ?dir)) else {#})"
    unfolding assms(3) disk_ids_def .
  have "distinct xs \<and> (i \<in> set xs \<longleftrightarrow> name_part d \<and> os_exists os w (entity_path root d i))"
  proof (cases "(?dir, d) \<in> set (os_entries os w root) \<and> ?P ?dir")
    case True
    with listing_iff [OF assms(1) root_dir(2)] have d: "name_part d" "?P ?dir" by auto
    from sum True have m: "mset xs = mset (map (file_id junk) (os_entries os w ?dir))" by simp
    from dir_ids [OF assms(1,2) d] mset_eq_imp_distinct_iff [OF m] mset_eq_setD [OF m] d(1)
    show ?thesis by simp
  next
    case False
    with sum have "xs = []" by simp
    moreover have "\<not> (name_part d \<and> os_exists os w (entity_path root d i))"
      using False only_entitiesD(3) [OF assms(2), of d "int_to_string i"] listing_iff [OF assms(1) root_dir(2)]
      by (auto simp: entity_path_slash)
    ultimately show ?thesis by simp
  qed
  then show "distinct xs" and "i \<in> set xs \<longleftrightarrow> name_part d \<and> os_exists os w (entity_path root d i)" by blast+
qed

lemma create_scans:
  assumes "listing_law os" and "only_entities os root w"
    and "statements cfg = Stmt [''root'', dir] ch # ss" and "remove_trailing_slashes dir = root"
  shows "\<exists>ids'. crud_create os w junk cfg ids = (Inr (Some root), ids')"
proof -
  note root_dir = only_entitiesD(1,2) [OF assms(2)]
  have "\<forall>e \<in> set (os_entries os w (fst t)). returns (stoi (snd e))"
    if "t \<in> set (os_entries os w root)" "os_is_directory os w (fst t)" for t
  proof
    fix e
    assume e: "e \<in> set (os_entries os w (fst t))"
    from that(1) listing_iff [OF assms(1) root_dir(2), of "fst t" "snd t"]
    have t: "name_part (snd t)" "fst t = root @ slash # snd t" by simp_all
    from entry_names [OF assms(1,2) t(1) that(2) [unfolded t(2)] e [unfolded t(2)]]
    show "returns (stoi (snd e))" by auto
  qed
  then have "\<forall>t \<in> set (os_entries os w root). os_is_directory os w (fst t) \<longrightarrow>
      (\<forall>e \<in> set (os_entries os w (fst t)). returns (stoi (snd e)))" by blast
  from scan_types_returns [OF this] obtain ids' where
    "scan_types os w junk (os_entries os w root) ids = (None, ids')" by blast
  then show ?thesis
    using root_dir assms(3,4) by (auto simp: crud_create_def initialize_entity_map_def Let_def)
qed

section \<open>A restart\<close>

lemma restart_in_sync:
  assumes "listing_law os" and "only_entities os root w"
    and "crud_create os w junk cfg (\<lambda>_. None) = (Inr (Some root), ids)"
  shows "in_sync os root \<lparr>crud_ids = ids, crud_disk = w\<rparr>"
proof -
  note root_dir = only_entitiesD(1,2) [OF assms(2)]
  have "mset (ids_of ids d) = disk_ids os w junk (os_entries os w root) d \<and> sorted (ids_of ids d)" for d
    using crud_create_ids [OF assms(3) root_dir, of d] by (simp add: ids_of_def)
  then have ids: "mset (ids_of ids d) = disk_ids os w junk (os_entries os w root) d" "sorted (ids_of ids d)" for d
    by blast+
  note listed = disk_ids_listed [OF assms(1,2) ids(1)]
  have pos: "1 \<le> i" if "i \<in> set (ids_of ids d)" for d i
  proof -
    from that listed(2) have "name_part d" "os_exists os w (entity_path root d i)" by blast+
    with only_entitiesD(3) [OF assms(2), of d "int_to_string i"] show ?thesis by (auto simp: entity_path_slash)
  qed
  have "ids_ok (ids_of ids d)" for d unfolding ids_ok_def using ids(2) listed(1) pos by blast
  then have "table_ok ids" unfolding table_ok_def ids_of_def by (metis option.simps(5))
  moreover have "(entity_exists ids d i \<longleftrightarrow> os_exists os w (entity_path root d i)) \<and>
      (entity_exists ids d i \<longrightarrow> os_read os w (entity_path root d i) \<noteq> None)" if "name_part d" for d i
    using listed(2) [of i d] that only_entitiesD(3) [OF assms(2) that, of "int_to_string i"]
    by (auto simp: entity_exists_ids_of entity_path_slash)
  ultimately show ?thesis unfolding in_sync_def by simp
qed

section \<open>The example disk\<close>

lemma map_of_exists: "map_of w p \<noteq> None \<longleftrightarrow> p \<in> set (map fst w)"
  by (simp add: map_of_eq_None_iff)

lemma sample_listing: "listing_law sample_os"
proof -
  have "(p, n) \<in> set (os_entries sample_os w q) \<longleftrightarrow> name_part n \<and> p = q @ slash # n \<and> os_exists sample_os w p"
    for w q p n
  proof
    assume "(p, n) \<in> set (os_entries sample_os w q)"
    then show "name_part n \<and> p = q @ slash # n \<and> os_exists sample_os w p"
      by (auto simp: name_part_def sample_os_def under_def map_of_eq_None_iff image_iff elim!: prefixE)
  next
    assume "name_part n \<and> p = q @ slash # n \<and> os_exists sample_os w p"
    then show "(p, n) \<in> set (os_entries sample_os w q)"
      by (auto simp: sample_os_def under_def name_part_def map_of_eq_None_iff image_iff)
  qed
  moreover have "distinct (os_entries sample_os w q)" for w q
    by (simp add: sample_os_def distinct_map inj_on_def)
  ultimately show ?thesis unfolding listing_law_def by blast
qed

lemma shoes_only_entities: "only_entities sample_os ''/data'' (crud_disk shoes)"
proof -
  have "os_exists sample_os (crud_disk shoes) (''/data'' @ slash # d) \<and>
      os_is_directory sample_os (crud_disk shoes) (''/data'' @ slash # d) \<and>
      os_read sample_os (crud_disk shoes) (''/data'' @ slash # d @ slash # n) \<noteq> None \<and>
      (\<exists>i \<ge> 1. in_int_range i \<and> n = int_to_string i)"
    if d: "name_part d" "name_part n" and e: "os_exists sample_os (crud_disk shoes) (''/data'' @ slash # d @ slash # n)"
    for d n
  proof -
    have "''/data'' @ slash # d @ slash # n \<in> {''/data/Shoes/1'', ''/data/Shoes'', ''/data''}"
      using e by (auto simp: shoes_def sample_os_def split: if_splits)
    moreover have "slash \<in> set (d @ slash # n)" "slash \<notin> set ''Shoes''" by simp_all
    then have "d @ slash # n \<noteq> ''Shoes''" by metis
    ultimately have eq: "d @ slash # n = ''Shoes'' @ slash # ''1''" by simp
    have "after_last slash ((slash # d) @ slash # n) = after_last slash ((slash # ''Shoes'') @ slash # ''1'')"
      unfolding append.simps(2) eq ..
    moreover have "name_part ''1''" by (simp add: name_part_def)
    ultimately have "n = ''1''" using d(2) by (simp only: after_last_target)
    with eq have "d = ''Shoes''" by simp
    with \<open>n = ''1''\<close> shoes_target_text show ?thesis
      by (intro conjI exI [of _ 1]) (simp_all add: shoes_def sample_os_def in_int_range_def)
  qed
  moreover have "os_exists sample_os (crud_disk shoes) ''/data''" "os_is_directory sample_os (crud_disk shoes) ''/data''"
    by (simp_all add: shoes_def sample_os_def)
  ultimately show ?thesis unfolding only_entities_def by blast
qed

section \<open>Property\<close>

text \<open>
  C17: nothing is lost in a restart: on a disk that holds only entities, in step with the table, a
  new factory's first scan returns without an exception and fills the empty table so that it is
  in step with the disk again and stands for the same store of texts.
\<close>
theorem restart_keeps_store:
  assumes "listing_law os" and "only_entities os root (crud_disk s)" and "in_sync os root s"
    and "statements cfg = Stmt [''root'', dir] ch # ss" and "remove_trailing_slashes dir = root"
  shows "\<exists>ids. crud_create os (crud_disk s) junk cfg (\<lambda>_. None) = (Inr (Some root), ids) \<and>
    in_sync os root (s\<lparr>crud_ids := ids\<rparr>) \<and> abs_store os root (s\<lparr>crud_ids := ids\<rparr>) = abs_store os root s"
proof -
  from create_scans [OF assms(1,2,4,5)] obtain ids where
    c: "crud_create os (crud_disk s) junk cfg (\<lambda>_. None) = (Inr (Some root), ids)" by blast
  have s: "s\<lparr>crud_ids := ids\<rparr> = \<lparr>crud_ids = ids, crud_disk = crud_disk s\<rparr>" by (cases s) simp
  have sync: "in_sync os root (s\<lparr>crud_ids := ids\<rparr>)"
    unfolding s by (rule restart_in_sync [OF assms(1,2) c])
  have "entity_exists ids d i \<longleftrightarrow> entity_exists (crud_ids s) d i" if "name_part d" for d i
    using in_syncD(2) [OF sync that, of i] in_syncD(2) [OF assms(3) that, of i] by simp
  then have "abs_store os root (s\<lparr>crud_ids := ids\<rparr>) = abs_store os root s"
    unfolding abs_store_def by (intro ext) (simp cong: conj_cong split: prod.split)
  with c sync show ?thesis by blast
qed

theorem restart_keeps_store_witness:
  "\<exists>ids. crud_create sample_os (crud_disk shoes) 0 data_config (\<lambda>_. None) = (Inr (Some ''/data''), ids) \<and>
     abs_store sample_os ''/data'' (shoes\<lparr>crud_ids := ids\<rparr>) (''Shoes'', 1) = Some ''old''"
proof -
  have c: "statements data_config = Stmt [''root'', ''/data''] None # []" by (simp add: data_config_def)
  have r: "remove_trailing_slashes ''/data'' = ''/data''" by (simp add: remove_trailing_slashes_stable)
  have "abs_store sample_os ''/data'' shoes (''Shoes'', 1) = Some ''old''"
    by (simp add: abs_store_def shoes_facts entity_path_def shoes_target_text)
      (simp add: shoes_def entity_exists_def sample_os_def)
  with restart_keeps_store [OF sample_listing shoes_only_entities shoes_in_sync c r, of 0] show ?thesis by metis
qed

end
