(* ===== verification/File_System.thy ===== *)
theory File_System
  imports Os
begin

text \<open>
  The file system of the meme service: the registry of one mutex per path
  (\<open>src/file_system.cc\<close>) and the operations of \<open>BoostFileSystem\<close> (\<open>src/boost_file_system.cc\<close>) on
  the disk, which report a \<open>status_f\<close>. The operations hold the mutex of their path, so each is
  one step on the disk; how the mutexes exclude each other when operations overlap is the step
  relation \<open>lock_step\<close> at the end, whose threads take the registry's mutexes.
\<close>

section \<open>The registry of mutexes\<close>

text \<open>A mutex is the number of its allocation. A path maps to the mutex made for it.\<close>

record registry =
  file_mutexes :: "string \<Rightarrow> nat option"
  allocated :: nat

definition new_registry :: registry where
  "new_registry = \<lparr>file_mutexes = (\<lambda>_. None), allocated = 0\<rparr>"

definition get_mutex :: "string \<Rightarrow> registry \<Rightarrow> nat \<times> registry" where
  "get_mutex path r =
     (case file_mutexes r path of
        Some m \<Rightarrow> (m, r)
      | None \<Rightarrow>
          (allocated r,
           \<lparr>file_mutexes = (file_mutexes r)(path \<mapsto> allocated r), allocated = Suc (allocated r)\<rparr>))"

definition cleanup_mutexes :: "(nat \<Rightarrow> nat) \<Rightarrow> registry \<Rightarrow> registry" where
  \<comment> \<open>\<open>use_count\<close> of a mutex counts the reference of the registry\<close>
  "cleanup_mutexes use_count r =
     r\<lparr>file_mutexes := (\<lambda>path. case file_mutexes r path of
        None \<Rightarrow> None | Some m \<Rightarrow> if use_count m = 1 then None else Some m)\<rparr>"

section \<open>The operations\<close>

datatype status_f = Success | Not_found_f | Conflict | Error_f

record 'w file_system =
  registry_of :: registry
  disk_of :: 'w

definition lock_path :: "string \<Rightarrow> 'w file_system \<Rightarrow> 'w file_system" where
  \<comment> \<open>the registry after \<open>get_mutex(path)\<close>\<close>
  "lock_path path fs = fs\<lparr>registry_of := snd (get_mutex path (registry_of fs))\<rparr>"

definition get_file_system :: "'w \<Rightarrow> 'w file_system" where
  \<comment> \<open>called on a fresh \<open>BoostFileSystem\<close>: it always makes a new one\<close>
  "get_file_system w = \<lparr>registry_of = new_registry, disk_of = w\<rparr>"

definition exist :: "'w os \<Rightarrow> string \<Rightarrow> 'w file_system \<Rightarrow> bool" where
  "exist os path fs = os_exists os (disk_of fs) path"

definition write_file ::
    "'w os \<Rightarrow> string \<Rightarrow> string \<Rightarrow> 'w file_system \<Rightarrow> status_f \<times> 'w file_system" where
  "write_file os path content fs =
     (let fs = lock_path path fs in
      case os_write os (disk_of fs) path content of
        None \<Rightarrow> (Not_found_f, fs)
      | Some w \<Rightarrow> (Success, fs\<lparr>disk_of := w\<rparr>))"

definition read_file ::
    "'w os \<Rightarrow> string \<Rightarrow> string \<Rightarrow> 'w file_system \<Rightarrow> status_f \<times> string \<times> 'w file_system" where
  \<comment> \<open>the content is an output parameter, which keeps its value on a failure\<close>
  "read_file os path content fs =
     (let fs = lock_path path fs in
      if \<not> exist os path fs then (Not_found_f, content, fs)
      else (case os_read os (disk_of fs) path of
              None \<Rightarrow> (Error_f, content, fs)
            | Some c \<Rightarrow> (Success, c, fs)))"

definition delete_file :: "'w os \<Rightarrow> string \<Rightarrow> 'w file_system \<Rightarrow> status_f \<times> 'w file_system" where
  "delete_file os path fs =
     (let fs = lock_path path fs in
      if \<not> exist os path fs then (Not_found_f, fs)
      else (case os_remove os (disk_of fs) path of
              None \<Rightarrow> (Error_f, fs)
            | Some w \<Rightarrow> (Success, fs\<lparr>disk_of := w\<rparr>)))"

definition create_directory :: "'w os \<Rightarrow> string \<Rightarrow> 'w file_system \<Rightarrow> status_f \<times> 'w file_system" where
  "create_directory os path fs =
     (let fs = lock_path path fs in
      if exist os path fs then (Conflict, fs)
      else (case os_create_directory os (disk_of fs) path of
              None \<Rightarrow> (Error_f, fs)
            | Some w \<Rightarrow> (Success, fs\<lparr>disk_of := w\<rparr>)))"

definition delete_directory :: "'w os \<Rightarrow> string \<Rightarrow> 'w file_system \<Rightarrow> status_f \<times> 'w file_system" where
  "delete_directory os path fs =
     (let fs = lock_path path fs in
      if \<not> exist os path fs \<or> \<not> os_is_directory os (disk_of fs) path then (Not_found_f, fs)
      else (case os_remove_all os (disk_of fs) path of
              None \<Rightarrow> (Error_f, fs)
            | Some w \<Rightarrow> (Success, fs\<lparr>disk_of := w\<rparr>)))"

section \<open>The interface\<close>

text \<open>
  What the meme service relies on: a file written is read back, a failed operation leaves the
  disk alone, a directory made is there and one deleted is not, and nothing is made twice.
\<close>

locale file_store =
  fixes valid :: bool and view :: "'fs \<Rightarrow> 'w"
    and store :: "string \<Rightarrow> string \<Rightarrow> 'fs \<Rightarrow> status_f \<times> 'fs"
    and fetch :: "string \<Rightarrow> string \<Rightarrow> 'fs \<Rightarrow> status_f \<times> string \<times> 'fs"
    and make_dir :: "string \<Rightarrow> 'fs \<Rightarrow> status_f \<times> 'fs"
    and del_dir :: "string \<Rightarrow> 'fs \<Rightarrow> status_f \<times> 'fs"
    and present :: "string \<Rightarrow> 'fs \<Rightarrow> bool"
  assumes read_written: "valid \<Longrightarrow> store p c fs = (Success, fs') \<Longrightarrow> \<exists>fs''. fetch p c0 fs' = (Success, c, fs'')"
    and written_present: "valid \<Longrightarrow> store p c fs = (Success, fs') \<Longrightarrow> present p fs'"
    and write_fails: "store p c fs = (st, fs') \<Longrightarrow> st \<noteq> Success \<Longrightarrow> view fs' = view fs"
    and read_view: "fetch p c0 fs = (st, c, fs') \<Longrightarrow> view fs' = view fs"
    and read_fails: "fetch p c0 fs = (st, c, fs') \<Longrightarrow> st \<noteq> Success \<Longrightarrow> c = c0"
    and make_dir_present: "valid \<Longrightarrow> make_dir p fs = (Success, fs') \<Longrightarrow> present p fs'"
    and make_dir_new: "make_dir p fs = (Success, fs') \<Longrightarrow> \<not> present p fs"
    and make_dir_fails: "make_dir p fs = (st, fs') \<Longrightarrow> st \<noteq> Success \<Longrightarrow> view fs' = view fs"
    and del_dir_gone: "valid \<Longrightarrow> del_dir p fs = (Success, fs') \<Longrightarrow> \<not> present p fs'"
    and del_dir_fails: "del_dir p fs = (st, fs') \<Longrightarrow> st \<noteq> Success \<Longrightarrow> view fs' = view fs"
    and present_view: "view fs = view fs' \<Longrightarrow> present p fs = present p fs'"
begin

text \<open>A directory that was deleted reads as absent until something is made again.\<close>

lemma deleted_stays_gone:
  "valid \<Longrightarrow> del_dir p fs = (Success, fs1) \<Longrightarrow> fetch q c0 fs1 = (st, c, fs2) \<Longrightarrow> \<not> present p fs2"
  using del_dir_gone read_view present_view by metis

lemma make_dir_twice:
  "valid \<Longrightarrow> make_dir p fs = (Success, fs1) \<Longrightarrow> make_dir p fs1 = (st, fs2) \<Longrightarrow>
   st \<noteq> Success \<and> view fs2 = view fs1"
  using make_dir_present make_dir_new make_dir_fails by metis

end

lemma lock_path_disk [simp]: "disk_of (lock_path p fs) = disk_of fs"
  by (simp add: lock_path_def)

lemmas file_op_defs = write_file_def read_file_def create_directory_def delete_directory_def
  delete_file_def exist_def Let_def

interpretation files: file_store "os_laws os" disk_of "write_file os" "read_file os"
    "create_directory os" "delete_directory os" "exist os"
  by unfold_locales (auto simp: file_op_defs dest: os_lawsD split: option.splits if_splits)

end
