(* ===== verification/Meme_Module.thy ===== *)
theory Meme_Module
  imports File_System "HOL-Library.Word"
begin

text \<open>
  The meme store: \<open>MemeModule\<close> (\<open>src/meme_module.cc\<close>) and the data objects \<open>Meme\<close> and \<open>Comment\<close>
  (\<open>src/meme_classes/\<close>). The module keeps the last identifier given out (an \<open>unsigned int\<close>), the
  number of views and the rating of each meme in tables keyed by \<open>int\<close>, and the rest on the disk,
  one directory per meme. Every operation holds the mutex of the table it changes, so each is one
  step.

  Boost's JSON reader and writer and the arithmetic and printing of \<open>float\<close> are parameters,
  collected in the record \<open>platform\<close>; so is the value an uninitialised \<open>id\<close> happens to have
  (\<open>junk\<close>) and the random name of a comment (\<open>uuid\<close>).
\<close>

section \<open>Parameters\<close>

record 'f platform =
  float_of_int :: "int \<Rightarrow> 'f"
  float_plus :: "'f \<Rightarrow> 'f \<Rightarrow> 'f"
  float_times :: "'f \<Rightarrow> 'f \<Rightarrow> 'f"
  float_divide :: "'f \<Rightarrow> 'f \<Rightarrow> 'f"
  float_less :: "'f \<Rightarrow> 'f \<Rightarrow> bool"
  float_to_string :: "'f \<Rightarrow> string"
  stof :: "string \<Rightarrow> 'f result"
  read_json :: "string \<Rightarrow> (string \<Rightarrow> string option) option"
    \<comment> \<open>the lookup function of the tree that was read\<close>
  write_info :: "int \<Rightarrow> 'f \<Rightarrow> string list \<Rightarrow> string"
    \<comment> \<open>the JSON text of views, ratings and comments\<close>

section \<open>Memes and comments\<close>

record 'f meme =
  meme_content :: string
  top :: string
  bottom :: string
  template :: string
  view_count :: int
  rating :: 'f

record comment =
  comment_content :: string
  comment_text :: string
  comment_id :: string
  comment_rating :: string

definition json_field :: "(string \<Rightarrow> string option) option \<Rightarrow> string \<Rightarrow> string result" where
  \<comment> \<open>\<open>tree.get\<close> after \<open>read_json\<close>; either throws\<close>
  "json_field tree key =
     (case tree of
        None \<Rightarrow> Inl Json_error
      | Some get \<Rightarrow> (case get key of None \<Rightarrow> Inl Json_error | Some v \<Rightarrow> Inr v))"

definition make_meme :: "'f platform \<Rightarrow> string \<Rightarrow> int \<Rightarrow> 'f \<Rightarrow> 'f meme result" where
  "make_meme P content views rate =
     (let tree = read_json P content in
      and_then (json_field tree ''top'') (\<lambda>t.
      and_then (json_field tree ''bottom'') (\<lambda>u.
      and_then (json_field tree ''template'') (\<lambda>v.
        Inr \<lparr>meme_content = content, top = t, bottom = u, template = v, view_count = views,
             rating = rate\<rparr>))))"

definition make_comment :: "'f platform \<Rightarrow> string \<Rightarrow> comment result" where
  "make_comment P content =
     (let tree = read_json P content in
      and_then (json_field tree ''comment'') (\<lambda>t.
      and_then (json_field tree ''id'') (\<lambda>i.
      and_then (json_field tree ''rating'') (\<lambda>r.
        Inr \<lparr>comment_content = content, comment_text = t, comment_id = i, comment_rating = r\<rparr>))))"

section \<open>The module\<close>

type_synonym meme_id = "32 word"

record ('w, 'f) meme_module =
  root_dir :: string
  id_count :: meme_id
  view_counts :: "int \<Rightarrow> int option"
  ratings :: "int \<Rightarrow> (int \<times> 'f) option"
  store :: "'w file_system"

definition meme_path :: "('w, 'f) meme_module \<Rightarrow> meme_id \<Rightarrow> string" where
  "meme_path m i = root_dir m @ ''/'' @ nat_to_string (unat i)"

definition generate_id :: "('w, 'f) meme_module \<Rightarrow> meme_id \<times> ('w, 'f) meme_module" where
  "generate_id m = (id_count m + 1, m\<lparr>id_count := id_count m + 1\<rparr>)"

definition create_meme ::
    "'w os \<Rightarrow> string \<Rightarrow> ('w, 'f) meme_module \<Rightarrow> meme_id option \<times> ('w, 'f) meme_module" where
  \<comment> \<open>\<open>MemeModule::create\<close> on the text of a meme; \<open>None\<close> is the result \<open>false\<close>\<close>
  "create_meme os content m =
     (case generate_id m of
        (new_id, m1) \<Rightarrow>
          let dir_path = meme_path m1 new_id in
          (case create_directory os dir_path (store m1) of
             (st, fs1) \<Rightarrow>
               if st \<noteq> Success then (None, m1\<lparr>store := fs1\<rparr>)
               else (case write_file os (dir_path @ ''/content'') content fs1 of
                       (st', fs2) \<Rightarrow>
                         (if st' \<noteq> Success then None else Some new_id, m1\<lparr>store := fs2\<rparr>))))"

definition get_content :: "'w os \<Rightarrow> meme_id \<Rightarrow> ('w, 'f) meme_module \<Rightarrow> string \<times> ('w, 'f) meme_module" where
  "get_content os i m =
     (case read_file os (meme_path m i @ ''/content'') [] (store m) of
        (st, content, fs) \<Rightarrow> (if st \<noteq> Success then [] else content, m\<lparr>store := fs\<rparr>))"

definition get_view_count :: "meme_id \<Rightarrow> ('w, 'f) meme_module \<Rightarrow> int" where
  "get_view_count i m = (case view_counts m (sint i) of Some c \<Rightarrow> c | None \<Rightarrow> - 1)"

definition get_meme_count :: "('w, 'f) meme_module \<Rightarrow> int" where
  "get_meme_count m = sint (id_count m)"

definition get_rating :: "'f platform \<Rightarrow> meme_id \<Rightarrow> ('w, 'f) meme_module \<Rightarrow> 'f" where
  "get_rating P i m = (case ratings m (sint i) of Some (_, r) \<Rightarrow> r | None \<Rightarrow> float_of_int P (- 1))"

definition increment_view_count ::
    "'w os \<Rightarrow> meme_id \<Rightarrow> ('w, 'f) meme_module \<Rightarrow> unit result \<times> ('w, 'f) meme_module" where
  \<comment> \<open>the table first, then the file; \<open>int\<close> overflow has no meaning\<close>
  "increment_view_count os i m =
     (let views = (case view_counts m (sint i) of Some c \<Rightarrow> c + 1 | None \<Rightarrow> 1) in
      if \<not> in_int_range views then (Inl Undefined_behaviour, m)
      else
        let m1 = m\<lparr>view_counts := (view_counts m)(sint i \<mapsto> views)\<rparr> in
        (Inr (), m1\<lparr>store := snd (write_file os (meme_path m i @ ''/views'') (int_to_string views) (store m1))\<rparr>))"

definition get_meme ::
    "'w os \<Rightarrow> 'f platform \<Rightarrow> meme_id \<Rightarrow> ('w, 'f) meme_module \<Rightarrow> 'f meme option result \<times> ('w, 'f) meme_module" where
  \<comment> \<open>\<open>MemeModule::get\<close>; \<open>Inr None\<close> is a null pointer\<close>
  "get_meme os P i m =
     (if \<not> exist os (meme_path m i) (store m) \<or> \<not> os_is_directory os (disk_of (store m)) (meme_path m i)
      then (Inr None, m)
      else (case increment_view_count os i m of
              (Inl e, m1) \<Rightarrow> (Inl e, m1)
            | (Inr _, m1) \<Rightarrow>
                (case get_content os i m1 of
                   (content, m2) \<Rightarrow>
                     if content = [] then (Inr None, m2)
                     else (and_then (make_meme P content (get_view_count i m2) (get_rating P i m2))
                             (\<lambda>x. Inr (Some x)), m2))))"

definition remove_meme :: "'w os \<Rightarrow> meme_id \<Rightarrow> ('w, 'f) meme_module \<Rightarrow> ('w, 'f) meme_module" where
  "remove_meme os i m =
     m\<lparr>store := snd (delete_directory os (meme_path m i) (store m)),
       view_counts := (view_counts m)(sint i := None), ratings := (ratings m)(sint i := None)\<rparr>"

definition add_comment ::
    "'w os \<Rightarrow> string \<Rightarrow> meme_id \<Rightarrow> comment \<Rightarrow> ('w, 'f) meme_module \<Rightarrow> ('w, 'f) meme_module" where
  "add_comment os uuid i c m =
     (if \<not> exist os (meme_path m i) (store m) then m
      else
        let comment_path = meme_path m i @ ''/comments'';
            fs1 = (if \<not> exist os comment_path (store m)
                   then snd (create_directory os comment_path (store m)) else store m)
        in m\<lparr>store := snd (write_file os (comment_path @ ''/'' @ uuid) (comment_content c) fs1)\<rparr>)"

fun read_comments ::
    "'w os \<Rightarrow> 'f platform \<Rightarrow> (string \<times> string) list \<Rightarrow> 'w file_system \<Rightarrow> comment list result \<times> 'w file_system" where
  \<comment> \<open>the loop of \<open>get_comments\<close>\<close>
  "read_comments os P [] fs = (Inr [], fs)"
| "read_comments os P ((path, _) # es) fs =
     (case read_file os path [] fs of
        (st, content, fs1) \<Rightarrow>
          if st = Success then
            (case make_comment P content of
               Inl e \<Rightarrow> (Inl e, fs1)
             | Inr c \<Rightarrow>
                 (case read_comments os P es fs1 of
                    (r, fs2) \<Rightarrow> (and_then r (\<lambda>cs. Inr (c # cs)), fs2)))
          else read_comments os P es fs1)"

definition get_comments ::
    "'w os \<Rightarrow> 'f platform \<Rightarrow> meme_id \<Rightarrow> ('w, 'f) meme_module \<Rightarrow> comment list result \<times> ('w, 'f) meme_module" where
  "get_comments os P i m =
     (let comment_path = meme_path m i @ ''/comments''; w = disk_of (store m) in
      if \<not> exist os (meme_path m i) (store m) then (Inr [], m)
      else if \<not> exist os comment_path (store m) \<or> \<not> os_is_directory os w comment_path then (Inr [], m)
      else (case read_comments os P (os_entries os w comment_path) (store m) of
              (r, fs) \<Rightarrow> (r, m\<lparr>store := fs\<rparr>)))"

definition next_rating :: "'f platform \<Rightarrow> (int \<times> 'f) option \<Rightarrow> int \<Rightarrow> int \<times> 'f" where
  "next_rating P old r =
     (case old of
        None \<Rightarrow> (1, float_of_int P r)
      | Some (old_count, old_rating) \<Rightarrow>
          (old_count + 1,
           float_divide P (float_plus P (float_times P old_rating (float_of_int P old_count)) (float_of_int P r))
             (float_of_int P (old_count + 1))))"

definition add_rating ::
    "'w os \<Rightarrow> 'f platform \<Rightarrow> meme_id \<Rightarrow> int \<Rightarrow> ('w, 'f) meme_module \<Rightarrow> unit result \<times> ('w, 'f) meme_module" where
  "add_rating os P i r m =
     (case next_rating P (ratings m (sint i)) r of
        (new_count, new_rating) \<Rightarrow>
          if \<not> in_int_range new_count then (Inl Undefined_behaviour, m)
          else
            let m1 = m\<lparr>ratings := (ratings m)(sint i \<mapsto> (new_count, new_rating))\<rparr> in
            (Inr (), m1\<lparr>store := snd (write_file os (meme_path m i @ ''/ratings'')
                (int_to_string new_count @ '','' @ float_to_string P new_rating) (store m1))\<rparr>))"

section \<open>Loading\<close>

definition stoul :: "string \<Rightarrow> meme_id result" where
  \<comment> \<open>\<open>std::stoul\<close> assigned to an \<open>unsigned int\<close>: a 64-bit value (negative ones wrap), truncated\<close>
  "stoul s =
     (case strtol s of
        None \<Rightarrow> Inl Invalid_argument
      | Some v \<Rightarrow> if \<bar>v\<bar> < 2 ^ 64 then Inr (word_of_int v) else Inl Out_of_range)"

definition stream_int :: "string \<Rightarrow> int" where
  \<comment> \<open>\<open>stream >> i\<close> for an \<open>int\<close>: 0 if there is no number, the nearest limit if it does not fit\<close>
  "stream_int s = (case strtol s of None \<Rightarrow> 0 | Some v \<Rightarrow> max (- (2 ^ 31)) (min (2 ^ 31 - 1) v))"

definition load_views :: "'w os \<Rightarrow> string \<Rightarrow> meme_id \<Rightarrow> ('w, 'f) meme_module \<Rightarrow> ('w, 'f) meme_module" where
  "load_views os path i m =
     (case read_file os (path @ ''/views'') [] (store m) of
        (st, data, fs) \<Rightarrow>
          let m1 = m\<lparr>store := fs\<rparr> in
          if st = Success then m1\<lparr>view_counts := (view_counts m)(sint i \<mapsto> stream_int data)\<rparr> else m1)"

definition load_ratings ::
    "'w os \<Rightarrow> 'f platform \<Rightarrow> string \<Rightarrow> meme_id \<Rightarrow> ('w, 'f) meme_module \<Rightarrow> ('w, 'f) meme_module result" where
  "load_ratings os P path i m =
     (case read_file os (path @ ''/ratings'') [] (store m) of
        (st, data, fs) \<Rightarrow>
          let m1 = m\<lparr>store := fs\<rparr> in
          if st = Success then
            let (int_str, rest) = (case getline CHR '','' data of None \<Rightarrow> ([], []) | Some lr \<Rightarrow> lr);
                float_str = (case getline newline rest of None \<Rightarrow> [] | Some (l, _) \<Rightarrow> l)
            in and_then (stoi int_str) (\<lambda>n.
               and_then (stof P float_str) (\<lambda>r.
                 Inr (m1\<lparr>ratings := (ratings m)(sint i \<mapsto> (n, r))\<rparr>)))
          else Inr m1)"

definition load_entry ::
    "'w os \<Rightarrow> 'f platform \<Rightarrow> meme_id \<Rightarrow> string \<Rightarrow> ('w, 'f) meme_module \<Rightarrow> ('w, 'f) meme_module result" where
  \<comment> \<open>one directory; an unreadable name leaves \<open>id\<close> uninitialised\<close>
  "load_entry os P junk path m =
     (if \<not> os_is_directory os (disk_of (store m)) path then Inr m
      else and_then (substr path (length (root_dir m) + 1) None) (\<lambda>name.
        let i = (case stoul name of Inr v \<Rightarrow> v | Inl _ \<Rightarrow> junk);
            m1 = (if id_count m < i then m\<lparr>id_count := i\<rparr> else m)
        in load_ratings os P path i (load_views os path i m1)))"

fun load_entries ::
    "'w os \<Rightarrow> 'f platform \<Rightarrow> meme_id \<Rightarrow> (string \<times> string) list \<Rightarrow> ('w, 'f) meme_module \<Rightarrow> ('w, 'f) meme_module result"
where
  "load_entries os P junk [] m = Inr m"
| "load_entries os P junk ((path, _) # es) m =
     and_then (load_entry os P junk path m) (load_entries os P junk es)"

definition new_meme_module ::
    "'w os \<Rightarrow> 'f platform \<Rightarrow> meme_id \<Rightarrow> string \<Rightarrow> 'w file_system \<Rightarrow> ('w, 'f) meme_module result" where
  \<comment> \<open>the constructor\<close>
  "new_meme_module os P junk root fs =
     (let m = \<lparr>root_dir = root, id_count = 0, view_counts = (\<lambda>_. None), ratings = (\<lambda>_. None), store = fs\<rparr>;
          w = disk_of fs
      in if os_exists os w root \<and> os_is_directory os w root
         then load_entries os P junk (os_entries os w root) m
         else Inr m)"

section \<open>An instance of the parameters\<close>

definition sample_platform :: "int platform" where
  \<comment> \<open>whole numbers; a text is read as an object with the fields the service asks for\<close>
  "sample_platform =
     \<lparr>float_of_int = id, float_plus = (+), float_times = (*), float_divide = (div), float_less = (<),
      float_to_string = int_to_string, stof = stoi,
      read_json = (\<lambda>t. if t = [] then None
        else Some (\<lambda>k. if k = ''id'' then Some ''7'' else if k = ''rating'' then Some ''5'' else Some t)),
      write_info = (\<lambda>views rate comments. concat comments)\<rparr>"

end
