(* ===== verification/Meme_Pages.thy ===== *)
theory Meme_Pages
  imports Prelude
begin

text \<open>
  The two hard-coded pages of \<open>MemeHandler\<close> (\<open>src/handler/meme_handler.cc\<close>), as functions of the
  location the handler is mounted at: one string per statement that appends to the page.
\<close>

definition creation_form :: "string \<Rightarrow> string" where
  \<comment> \<open>\<open>form_\<close> of \<open>handle_creation_form\<close>\<close>
  "creation_form location =
     concat [
      ''<html> <style>'',
      ''input[type=text], select {'',
      ''width: 100%;'',
      ''padding: 12px 20px;'',
      ''margin: 8px 0;'',
      ''display: inline-block;'',
      ''border: 1px solid #ccc;'',
      ''border-radius: 4px;'',
      ''box-sizing: border-box;'',
      ''}'',
      ''input[type=submit] {'',
      ''width: 100%;'',
      ''background-color: #4CAF50;'',
      ''color: white;'',
      ''padding: 14px 20px;'',
      ''margin: 8px 0;'',
      ''border: none;'',
      ''border-radius: 4px;'',
      ''cursor: pointer;'',
      ''}'',
      ''input[type=submit]:hover {'',
      ''background-color: #45a049;'',
      ''}'',
      ''div {'',
      ''border-radius: 5px;'',
      ''background-color: #f2f2f2;'',
      ''padding: 20px;'',
      ''}'',
      ''</style>'',
      ''<body> <div> <form id = \"new_meme\" method = \"\" action=\"'' @ location @ ''/creation_form\" onsubmit = \"runCode(event)\">'',
      ''<label for=\"top\">Top text</label>'',
      ''<input type=\"text\" id=\"top\" name=\"top\" placeholder=\"Top text..\">'',
      ''<label for=\"bottom\">Bottom text</label>'',
      ''<input type=\"text\" id=\"bottom\" name=\"bottom\" placeholder=\"Bottom text..\">'',
      ''<label for=\"image\">Image</label>'',
      ''<select id=\"img\" name=\"img\">'',
      ''<option value = \"select\">Select an image template </option>'',
      ''<option value=\"One-Does-Not-Simply\">one does not simply</option>'',
      ''<option value=\"Two-Buttons\">two buttons</option>'',
      ''<option value=\"Buff-Doge-vs-Cheems\">buff doge vs Cheems</option>'',
      ''<option value=\"Drake-Hotline-Bling\">drake hotline bling</option>'',
      ''<option value=\"Left-Exit-12-Off-Ramp\">left exit 12 off ramp</option>'',
      ''<option value=\"Mocking-Spongebob\">mocking spongebob</option>'',
      ''<option value=\"Change-My-Mind\">change my mind</option>'',
      ''</select>'',
      ''<button type=\"submit\"> Submit</button>'',
      ''</form> </div>'',
      ''<script>'',
      ''function runCode(event) {'',
      ''event.preventDefault(); '',
      ''var top = document.getElementById(\"top\").value;'',
      ''var bottom = document.getElementById(\"bottom\").value;'',
      ''var template = document.querySelector('select[name=\"img\"]').value;'',
      ''var data = {'',
      ''top: top,'',
      ''bottom:bottom,'',
      ''template:template'',
      ''};'',
      ''var xhr = new XMLHttpRequest();'',
      ''xhr.open(\"POST\", \"'' @ location @ ''\", true);'',
      ''xhr.onreadystatechange = function() {'',
      ''console.log(xhr.responseText);'',
      ''};'',
      ''xhr.setRequestHeader(\"Content-Type\", \"application/json\");'',
      ''xhr.send(JSON.stringify(data))'',
      ''}'',
      ''</script> </body> </html>'']"

definition comment_form :: "string \<Rightarrow> string" where
  \<comment> \<open>\<open>comment_form_\<close> of \<open>handle_post_comment_form\<close>\<close>
  "comment_form location =
     concat [
      ''<html> <style>'',
      ''input[type=text], select {'',
      ''width: 100%;'',
      ''padding: 12px 20px;'',
      ''margin: 8px 0;'',
      ''display: inline-block;'',
      ''border: 1px solid #ccc;'',
      ''border-radius: 4px;'',
      ''box-sizing: border-box;'',
      ''}'',
      ''button {'',
      ''width: 100%;'',
      ''background-color: #4CAF50;'',
      ''color: white;'',
      ''padding: 14px 20px;'',
      ''margin: 8px 0;'',
      ''border: none;'',
      ''border-radius: 4px;'',
      ''cursor: pointer;'',
      ''}'',
      ''button {'',
      ''background-color: #45a049;'',
      ''}'',
      ''div {'',
      ''border-radius: 5px;'',
      ''background-color: #ffffff;'',
      ''padding: 20px;'',
      ''}'',
      ''</style>'',
      ''<body> <div> <form id = \"meme_comment\" method = \"post\" action=\"'' @ location @ ''/comment_form\" onsubmit = \"runCode(event)\">'',
      ''<label for=\"Comment\">Comment</label>'',
      ''<input type=\"text\" id=\"Comment\" name=\"Comment\" placeholder=\"Your comment..\">'',
      ''<label for=\"MemeID\">Meme ID</label>'',
      ''<input type=\"text\" id=\"MemeID\" name=\"MemeID\" >'',
      ''<label for=\"rating\">Rating</label>'',
      ''<select id=\"rating\" name=\"rating\">'',
      ''<option value = \"1\">1 </option>'',
      ''<option value = \"2\">2</option>'',
      ''<option value = \"3\">3</option>'',
      ''<option value = \"4\">4</option>'',
      ''<option value = \"5\">5</option>'',
      ''</select>'',
      ''<button type=\"submit\"> Submit</button></form> </div>'',
      ''<script>'',
      ''function runCode(event) {'',
      ''event.preventDefault(); '',
      ''var comment = document.getElementById(\"Comment\").value;'',
      ''var id = document.getElementById(\"MemeID\").value;'',
      ''var rating = document.querySelector('select[name=\"rating\"]').value;'',
      ''var data = {'',
      ''comment: comment,'',
      ''id: id,'',
      ''rating:rating'',
      ''};'',
      ''var xhr = new XMLHttpRequest();'',
      ''xhr.open(\"POST\", \"'' @ location @ ''/comment\", true);'',
      ''xhr.setRequestHeader(\"Content-Type\", \"application/json\");'',
      ''xhr.send(JSON.stringify(data))'',
      ''}'',
      ''</script> </body> </html>'']"

end
