(* ===== verification/Handlers.thy ===== *)
theory Handlers
  imports Crud_Facts
begin

text \<open>
  The handlers without state of their own (\<open>src/handler/\<close>: echo, health, file-not-found, block
  and static) with their factories, and the contract every handler keeps: a success it returns is
  the status it put into the response. A handler maps the request, the response it fills and a
  state to its status, or the exception that leaves it, the response and the state. Nothing
  is modelled of \<open>sleep\<close>; what the handlers log is in \<open>Crud_Log\<close>.
\<close>

section \<open>The handlers\<close>

type_synonym 's handler = "request \<Rightarrow> response \<Rightarrow> 's \<Rightarrow> status result \<times> response \<times> 's"

definition plain_response :: "status \<Rightarrow> string \<Rightarrow> response \<Rightarrow> response" where
  \<comment> \<open>version, result and content type\<close>
  "plain_response st type res = set_field Content_type type (res\<lparr>res_version := 11, res_result := st\<rparr>)"

definition echo_handle_request :: "beast \<Rightarrow> 's handler" where
  "echo_handle_request b req res s =
     (Inr Status_ok,
      prepare_payload b ((plain_response Status_ok ''text/plain'' res)\<lparr>res_body := request_text b req\<rparr>), s)"

definition file_not_found_handle_request :: "beast \<Rightarrow> 's handler" where
  "file_not_found_handle_request b req res s =
     (Inr Not_found, prepare_payload b (plain_response Not_found ''text/plain'' res), s)"

definition health_handle_request :: "beast \<Rightarrow> 's handler" where
  "health_handle_request b req res s =
     (Inr Status_ok,
      prepare_payload b ((plain_response Status_ok ''text/plain'' res)\<lparr>res_body := ''OK''\<rparr>), s)"

definition block_handle_request :: "'s handler" where
  \<comment> \<open>after five seconds; the response stays as it was\<close>
  "block_handle_request req res s = (Inr Continue, res, s)"

definition static_handle_request :: "beast \<Rightarrow> 'w os \<Rightarrow> string \<Rightarrow> 'w handler" where
  "static_handle_request b os file_name req res w =
     (case os_read os w file_name of
        None \<Rightarrow> (Inr Not_found, res, w)
      | Some content \<Rightarrow>
          (case get_mime_type file_name of
             Inl e \<Rightarrow> (Inl e, res, w)
           | Inr type \<Rightarrow>
               (Inr Status_ok,
                prepare_payload b ((plain_response Status_ok type res)\<lparr>res_body := content\<rparr>), w)))"

definition static_create :: "string \<Rightarrow> string \<Rightarrow> config \<Rightarrow> string option" where
  \<comment> \<open>\<open>StaticHandlerFactory::create\<close>: the file the handler serves, \<open>None\<close> for a null pointer\<close>
  "static_create location url cfg =
     (case statements cfg of
        [] \<Rightarrow> None
      | Stmt toks _ # _ \<Rightarrow>
          if length toks \<noteq> 2 then None
          else if toks ! 0 \<noteq> ''root'' then None
          else if take (length location) url \<noteq> location then None
          else Some (remove_trailing_slashes (toks ! 1) @ drop (length location) url))"

section \<open>The contract\<close>

text \<open>
  Under \<open>valid\<close>, and on a response that still has the default result, a
  success status returned is the result of the response. The errors are not covered: the
  dispatcher overwrites the response then.
\<close>

locale status_contract =
  fixes valid :: bool and handle :: "'s handler"
  assumes success_result: "valid \<Longrightarrow> res_result res = Status_ok \<Longrightarrow> handle req res s = (Inr st, res', s') \<Longrightarrow>
    st = Status_ok \<or> st = Created \<Longrightarrow> res_result res' = st"

interpretation echo: status_contract "payload_law b" "echo_handle_request b"
  by unfold_locales (auto simp: echo_handle_request_def payload_law_def plain_response_def)

interpretation health: status_contract "payload_law b" "health_handle_request b"
  by unfold_locales (auto simp: health_handle_request_def payload_law_def plain_response_def)

interpretation file_not_found: status_contract "payload_law b" "file_not_found_handle_request b"
  by unfold_locales (auto simp: file_not_found_handle_request_def)

interpretation block: status_contract "payload_law b" block_handle_request
  by unfold_locales (auto simp: block_handle_request_def)

interpretation static: status_contract "payload_law b" "static_handle_request b os file_name"
  by unfold_locales
    (auto simp: static_handle_request_def payload_law_def plain_response_def split: option.splits sum.splits)

interpretation crud: status_contract "payload_law b" "crud_handle_request b os root"
  by unfold_locales (auto dest: crud_status)

end
