(* ===== verification/Meme_Handler.thy ===== *)
theory Meme_Handler
  imports Meme_Module Meme_Pages Handlers
begin

text \<open>
  \<open>MemeHandler\<close> (\<open>src/handler/meme_handler.cc\<close>) and its factory
  (\<open>src/factory/meme_handler_factory.cc\<close>): the requests of the meme service, on the state of the
  module shared by all handlers of one root directory. The value of \<open>rand()\<close> and the random name
  of a comment are arguments.
\<close>

section \<open>Formats\<close>

definition template_to_url :: "string \<Rightarrow> string \<Rightarrow> string" where
  \<comment> \<open>the table of the constructor; a template that is not in it has the empty string\<close>
  "template_to_url location name =
     (case map_of
        [(''Two-Buttons'', ''/Two-Buttons.jpg''),
         (''One-Does-Not-Simply'', ''/One-Does-Not-Simply.jpg''),
         (''Buff-Doge-vs-Cheems'', ''/Buff-Doge-vs-Cheems.png''),
         (''Drake-Hotline-Bling'', ''/Drake-Hotline-Bling.jpg''),
         (''Left-Exit-12-Off-Ramp'', ''/Left-Exit-12-Off-Ramp.jpg''),
         (''Mocking-Spongebob'', ''/Mocking-Spongebob.jpg''),
         (''Change-My-Mind'', ''/Change-My-Mind.jpg'')] name of
        None \<Rightarrow> []
      | Some file_name \<Rightarrow> ''https://imgflip.com/s'' @ location @ file_name)"

definition check_number :: "(string \<Rightarrow> 'a result) \<Rightarrow> string \<Rightarrow> string \<Rightarrow> bool result" where
  \<comment> \<open>the common text of \<open>check_format\<close> and \<open>check_format_floating\<close>\<close>
  "check_number convert target url =
     and_then (substr target (succ_pos (rfind_char slash target)) None) (\<lambda>possible.
       case convert possible of
         Inr _ \<Rightarrow> Inr (take (succ_pos (rfind_char slash target)) target = url)
       | Inl e \<Rightarrow> if e = Invalid_argument then Inr False else Inl e)"

definition check_format :: "string \<Rightarrow> string \<Rightarrow> bool result" where
  "check_format = check_number stoi"

definition check_format_floating :: "'f platform \<Rightarrow> string \<Rightarrow> string \<Rightarrow> bool result" where
  "check_format_floating P = check_number (stof P)"

definition full_response :: "beast \<Rightarrow> status \<Rightarrow> string \<Rightarrow> string \<Rightarrow> response \<Rightarrow> response" where
  "full_response b st type body res = prepare_payload b ((plain_response st type res)\<lparr>res_body := body\<rparr>)"

section \<open>POST\<close>

definition handle_post_meme :: "beast \<Rightarrow> 'w os \<Rightarrow> 'f platform \<Rightarrow> ('w, 'f) meme_module handler" where
  "handle_post_meme b os P req res m =
     (case make_meme P (req_body req) 0 (float_of_int P 0) of
        Inl e \<Rightarrow> (Inl e, res, m)
      | Inr x \<Rightarrow>
          (case create_meme os (meme_content x) m of
             (None, m1) \<Rightarrow> (Inr Internal_server_error, res, m1)
           | (Some i, m1) \<Rightarrow>
               (Inr Created,
                full_response b Created ''text/plain''
                  (''Successfully created meme '' @ nat_to_string (unat i) @ ''.'') res,
                m1)))"

definition handle_post_comment ::
    "beast \<Rightarrow> 'w os \<Rightarrow> 'f platform \<Rightarrow> string \<Rightarrow> ('w, 'f) meme_module handler" where
  "handle_post_comment b os P uuid req res m =
     (case make_comment P (req_body req) of
        Inl e \<Rightarrow> (Inl e, res, m)
      | Inr c \<Rightarrow>
          (case and_then (stoi (comment_id c)) (\<lambda>i.
                  and_then (stoi (comment_rating c)) (\<lambda>r. Inr (i, r))) of
             Inl e \<Rightarrow> if e = Invalid_argument then (Inr Not_found, res, m) else (Inl e, res, m)
           | Inr (i, r) \<Rightarrow>
               (case add_rating os P (word_of_int i) r m of
                  (Inl e, m1) \<Rightarrow> (Inl e, res, m1)
                | (Inr _, m1) \<Rightarrow>
                    (Inr Created,
                     full_response b Created ''text/plain'' ''Successfully posted comment.'' res,
                     add_comment os uuid (word_of_int i) c m1))))"

definition handle_post ::
    "beast \<Rightarrow> 'w os \<Rightarrow> 'f platform \<Rightarrow> string \<Rightarrow> string \<Rightarrow> ('w, 'f) meme_module handler" where
  "handle_post b os P uuid location req res m =
     (if find_str location (req_target req) = None then (Inr Not_found, res, m)
      else if req_target req = location @ ''/comment'' then handle_post_comment b os P uuid req res m
      else if req_target req = location then handle_post_meme b os P req res m
      else (Inr Not_found, res, m))"

section \<open>GET\<close>

definition handle_creation_form :: "beast \<Rightarrow> string \<Rightarrow> 's handler" where
  "handle_creation_form b location req res s =
     (if req_target req \<noteq> location @ ''/creation_form'' then (Inr Not_found, res, s)
      else (Inr Status_ok, full_response b Status_ok ''text/html'' (creation_form location) res, s))"

definition handle_post_comment_form :: "beast \<Rightarrow> string \<Rightarrow> 's handler" where
  "handle_post_comment_form b location req res s =
     (if req_target req \<noteq> location @ ''/comment_form'' then (Inr Not_found, res, s)
      else (Inr Status_ok, full_response b Status_ok ''text/html'' (comment_form location) res, s))"

definition handle_get_random_meme ::
    "beast \<Rightarrow> 'w os \<Rightarrow> 'f platform \<Rightarrow> int \<Rightarrow> ('w, 'f) meme_module handler" where
  \<comment> \<open>\<open>rand() % count + 1\<close>: the sign of the remainder is that of \<open>rand()\<close>, which is not negative\<close>
  "handle_get_random_meme b os P rnd req res m =
     (let count = get_meme_count m in
      if count = 0 then (Inr Bad_request, res, m)
      else
        (case get_meme os P (word_of_int (rnd mod \<bar>count\<bar> + 1)) m of
           (Inl e, m1) \<Rightarrow> (Inl e, res, m1)
         | (Inr None, m1) \<Rightarrow> (Inr Internal_server_error, res, m1)
         | (Inr (Some x), m1) \<Rightarrow>
             (Inr Status_ok, full_response b Status_ok ''text/html'' (meme_content x) res, m1)))"

definition meme_page :: "string \<Rightarrow> int \<Rightarrow> 'f meme \<Rightarrow> string" where
  "meme_page location i x =
     ''<html>'' @ [newline] @
     ''<style>'' @ [newline] @
     ''body { display: inline-block; position: relative; }'' @ [newline] @
     ''span { color: white; font: 2em bold Impact, sans-serif; position: absolute; text-align: center; width: 100%; }'' @ [newline] @
     ''#top { top: 0; color: blue;}'' @ [newline] @
     ''#bottom { bottom: 0; color: blue;}'' @ [newline] @
     ''#subtitle {'' @ ''bottom: -100px; '' @ ''color: red; /* Choose your desired color */'' @
     ''font-size: 1.0em; '' @ ''}'' @ ''</style>'' @ [newline] @
     ''<body>'' @ [newline] @
     ''<img src=\"'' @ template_to_url location (template x) @ ''\">'' @ [newline] @
     ''<br/>'' @ [newline] @
     ''<span id=\"top\">'' @ top x @ ''</span>'' @ [newline] @
     ''<span id=\"bottom\">'' @ bottom x @ ''</span>'' @ [newline] @
     ''<a id=\"subtitle\" href = \"'' @ location @ ''/info/'' @ int_to_string i @ ''\">'' @
     ''Viewed by: '' @ int_to_string (view_count x) @ ''. Click for more information< /a>'' @ [newline] @
     ''<span'' @ [newline] @ ''>'' @ [newline] @
     ''</body>'' @ [newline] @
     ''</html>'' @ [newline]"

definition handle_get_meme_by_id ::
    "beast \<Rightarrow> 'w os \<Rightarrow> 'f platform \<Rightarrow> string \<Rightarrow> ('w, 'f) meme_module handler" where
  "handle_get_meme_by_id b os P location req res m =
     (case stoi (after_last slash (req_target req)) of
        Inl e \<Rightarrow> (Inl e, res, m)
      | Inr i \<Rightarrow>
          (case get_meme os P (word_of_int i) m of
             (Inl e, m1) \<Rightarrow> (Inl e, res, m1)
           | (Inr None, m1) \<Rightarrow> (Inr Internal_server_error, res, m1)
           | (Inr (Some x), m1) \<Rightarrow>
               (Inr Status_ok, full_response b Status_ok ''text/html'' (meme_page location i x) res, m1)))"

definition list_entry :: "string \<Rightarrow> ('w, 'f) meme_module \<Rightarrow> int \<Rightarrow> string" where
  "list_entry location m i =
     ''Number of views: '' @ int_to_string (get_view_count (word_of_int i) m) @
     ''   Link to meme: <a href=\"'' @ location @ ''/'' @ int_to_string i @ ''\">'' @ int_to_string i @
     ''</a><br>''"

definition listed_ids :: "(meme_id \<Rightarrow> bool) \<Rightarrow> ('w, 'f) meme_module \<Rightarrow> int list" where
  \<comment> \<open>the loop \<open>for (int i = 1; i <= count; i++)\<close> with its condition\<close>
  "listed_ids wanted m = filter (\<lambda>i. wanted (word_of_int i)) [1..get_meme_count m]"

definition list_page :: "string \<Rightarrow> (meme_id \<Rightarrow> bool) \<Rightarrow> ('w, 'f) meme_module \<Rightarrow> string" where
  \<comment> \<open>the common text of the three listing handlers\<close>
  "list_page location wanted m =
     ''<html> <style>'' @ ''a:link {'' @ ''color: blue;'' @ ''}'' @
     ''a:hover {'' @ ''text-decoration: underline;'' @ ''} </style>'' @
     ''<body> <h2>List of memes</h2>'' @
     concat (map (list_entry location m) (listed_ids wanted m)) @
     ''<a href=\"'' @ location @ ''/comment_form\">Post a comment'' @ ''</body> </html>''"

definition handle_get_all_memes :: "beast \<Rightarrow> string \<Rightarrow> ('w, 'f) meme_module handler" where
  "handle_get_all_memes b location req res m =
     (Inr Status_ok, full_response b Status_ok ''text/html'' (list_page location (\<lambda>_. True) m) res, m)"

definition handle_get_meme_by_views :: "beast \<Rightarrow> string \<Rightarrow> ('w, 'f) meme_module handler" where
  "handle_get_meme_by_views b location req res m =
     (case stoi (after_last slash (req_target req)) of
        Inl e \<Rightarrow> (Inl e, res, m)
      | Inr views \<Rightarrow>
          (Inr Status_ok,
           full_response b Status_ok ''text/html''
             (list_page location (\<lambda>i. views < get_view_count i m) m) res, m))"

definition handle_get_meme_by_rating ::
    "beast \<Rightarrow> 'f platform \<Rightarrow> string \<Rightarrow> ('w, 'f) meme_module handler" where
  "handle_get_meme_by_rating b P location req res m =
     (case stof P (after_last slash (req_target req)) of
        Inl e \<Rightarrow> (Inl e, res, m)
      | Inr limit \<Rightarrow>
          (Inr Status_ok,
           full_response b Status_ok ''text/html''
             (list_page location (\<lambda>i. float_less P limit (get_rating P i m)) m) res, m))"

definition handle_get_other_info_by_id ::
    "beast \<Rightarrow> 'w os \<Rightarrow> 'f platform \<Rightarrow> ('w, 'f) meme_module handler" where
  "handle_get_other_info_by_id b os P req res m =
     (case stoi (after_last slash (req_target req)) of
        Inl e \<Rightarrow> (Inl e, res, m)
      | Inr i \<Rightarrow>
          (case get_comments os P (word_of_int i) m of
             (Inl e, m1) \<Rightarrow> (Inl e, res, m1)
           | (Inr comments, m1) \<Rightarrow>
               (Inr Status_ok,
                full_response b Status_ok ''application/json''
                  (write_info P (get_view_count (word_of_int i) m1) (get_rating P (word_of_int i) m1)
                     (map comment_text comments)) res,
                m1)))"

fun first_match :: "(bool result \<times> 's handler) list \<Rightarrow> 's handler" where
  \<comment> \<open>a chain of \<open>else if\<close>: a condition that throws ends it, and the last branch is 404\<close>
  "first_match [] req res s = (Inr Not_found, res, s)"
| "first_match ((Inl e, h) # bs) req res s = (Inl e, res, s)"
| "first_match ((Inr True, h) # bs) req res s = h req res s"
| "first_match ((Inr False, h) # bs) req res s = first_match bs req res s"

definition handle_get ::
    "beast \<Rightarrow> 'w os \<Rightarrow> 'f platform \<Rightarrow> int \<Rightarrow> string \<Rightarrow> ('w, 'f) meme_module handler" where
  "handle_get b os P rnd location req res m =
     (let target = req_target req in
      first_match
        [(Inr (target = location @ ''/creation_form''), handle_creation_form b location),
         (Inr (target = location @ ''/random''), handle_get_random_meme b os P rnd),
         (Inr (target = location @ ''/all''), handle_get_all_memes b location),
         (check_format target (location @ ''/''), handle_get_meme_by_id b os P location),
         (check_format target (location @ ''/info/''), handle_get_other_info_by_id b os P),
         (Inr (target = location @ ''/comment_form''), handle_post_comment_form b location),
         (check_format target (location @ ''/get_by_views/''), handle_get_meme_by_views b location),
         (check_format_floating P target (location @ ''/get_by_rating/''),
          handle_get_meme_by_rating b P location)]
        req res m)"

section \<open>The handler\<close>

definition meme_handle_request ::
    "beast \<Rightarrow> 'w os \<Rightarrow> 'f platform \<Rightarrow> int \<Rightarrow> string \<Rightarrow> string \<Rightarrow> ('w, 'f) meme_module handler" where
  "meme_handle_request b os P rnd uuid location req res m =
     (case req_method req of
        Verb_post \<Rightarrow> handle_post b os P uuid location req res m
      | Verb_get \<Rightarrow> handle_get b os P rnd location req res m
      | _ \<Rightarrow> (Inr Not_found, res, m))"

section \<open>The factory\<close>

type_synonym ('w, 'f) meme_modules = "string \<Rightarrow> ('w, 'f) meme_module option"

definition meme_create ::
    "'w os \<Rightarrow> 'f platform \<Rightarrow> meme_id \<Rightarrow> 'w \<Rightarrow> config \<Rightarrow> ('w, 'f) meme_modules \<Rightarrow>
     string option result \<times> ('w, 'f) meme_modules" where
  \<comment> \<open>\<open>MemeHandlerFactory::create\<close>: the root whose module the new handler uses, \<open>None\<close> for a null
    pointer; the right side of the assignment runs first, so an exception of the constructor leaves
    the table as it was\<close>
  "meme_create os P junk w cfg modules =
     (case statements cfg of
        [] \<Rightarrow> (Inr None, modules)
      | Stmt toks _ # _ \<Rightarrow>
          if length toks \<noteq> 2 then (Inr None, modules)
          else if toks ! 0 \<noteq> ''root'' then (Inr None, modules)
          else
            let root = remove_trailing_slashes (toks ! 1) in
            (case modules root of
               Some _ \<Rightarrow> (Inr (Some root), modules)
             | None \<Rightarrow>
                 (case new_meme_module os P junk root (get_file_system w) of
                    Inl e \<Rightarrow> (Inl e, modules)
                  | Inr m \<Rightarrow> (Inr (Some root), modules(root \<mapsto> m)))))"

section \<open>The contract\<close>

lemma full_response_result [simp]:
  "payload_law b \<Longrightarrow> st \<noteq> Continue \<Longrightarrow> res_result (full_response b st type body res) = st"
  "payload_law b \<Longrightarrow> st \<noteq> Continue \<Longrightarrow> res_body (full_response b st type body res) = body"
  by (simp_all add: full_response_def payload_law_def plain_response_def)

definition keeps_contract :: "'s handler \<Rightarrow> bool" where
  \<comment> \<open>whatever the response was before, a success status is the result of the response after\<close>
  "keeps_contract h \<longleftrightarrow>
     (\<forall>req res s st res' s'. h req res s = (Inr st, res', s') \<longrightarrow> st = Status_ok \<or> st = Created \<longrightarrow>
        res_result res' = st)"

lemma keeps_contractD:
  "keeps_contract h \<Longrightarrow> h req res s = (Inr st, res', s') \<Longrightarrow> st = Status_ok \<or> st = Created \<Longrightarrow>
   res_result res' = st"
  unfolding keeps_contract_def by blast

lemma contract_post [intro]:
  assumes "payload_law b"
  shows "keeps_contract (handle_post_meme b os P)" and "keeps_contract (handle_post_comment b os P uuid)"
  using assms
  by (auto simp: keeps_contract_def handle_post_meme_def handle_post_comment_def
      split: sum.splits option.splits prod.splits if_splits)

lemma contract_get [intro]:
  assumes "payload_law b"
  shows "keeps_contract (handle_creation_form b location)"
    and "keeps_contract (handle_post_comment_form b location)"
    and "keeps_contract (handle_get_random_meme b os P rnd)"
    and "keeps_contract (handle_get_all_memes b location)"
    and "keeps_contract (handle_get_meme_by_id b os P location)"
    and "keeps_contract (handle_get_meme_by_views b location)"
    and "keeps_contract (handle_get_meme_by_rating b P location)"
    and "keeps_contract (handle_get_other_info_by_id b os P)"
  using assms
  by (auto simp: keeps_contract_def handle_creation_form_def handle_post_comment_form_def
      handle_get_random_meme_def handle_get_all_memes_def handle_get_meme_by_id_def
      handle_get_meme_by_views_def handle_get_meme_by_rating_def handle_get_other_info_by_id_def Let_def
      split: sum.splits option.splits prod.splits if_splits)

lemma contract_first_match:
  "\<forall>(c, h) \<in> set bs. keeps_contract h \<Longrightarrow> first_match bs req res s = (Inr st, res', s') \<Longrightarrow>
   st = Status_ok \<or> st = Created \<Longrightarrow> res_result res' = st"
proof (induction bs req res s rule: first_match.induct)
  case (3 h bs req res s)
  then have "keeps_contract h" "h req res s = (Inr st, res', s')" by auto
  then show ?case using "3.prems"(3) by (rule keeps_contractD)
qed auto

lemma contract_meme:
  assumes "payload_law b" and "meme_handle_request b os P rnd uuid location req res m = (Inr st, res', m')"
    and "st = Status_ok \<or> st = Created"
  shows "res_result res' = st"
proof (cases "req_method req")
  case Verb_post
  with assms(2,3) have "handle_post_comment b os P uuid req res m = (Inr st, res', m') \<or>
      handle_post_meme b os P req res m = (Inr st, res', m')"
    by (auto simp: meme_handle_request_def handle_post_def split: if_splits)
  then show ?thesis using contract_post [OF assms(1)] keeps_contractD assms(3) by metis
next
  case Verb_get
  with assms(2) have "handle_get b os P rnd location req res m = (Inr st, res', m')"
    by (simp add: meme_handle_request_def)
  then show ?thesis
    unfolding handle_get_def Let_def
    by (rule contract_first_match [rotated]) (use assms(1,3) in auto)
qed (use assms(2,3) in \<open>auto simp: meme_handle_request_def\<close>)

interpretation meme: status_contract "payload_law b" "meme_handle_request b os P rnd uuid location"
  by unfold_locales (rule contract_meme)

end
