(* ===== verification/Dispatcher.thy ===== *)
theory Dispatcher
  imports Session Meme_Handler Crud_Properties
begin

text \<open>
  \<open>RequestDispatcher\<close> (\<open>src/request_dispatcher.cc\<close>): the location that matches a target best, the
  handler its factory makes, and what the dispatcher does to the response afterwards. The state
  behind it is the disk and what the factories keep: the table of identifiers of each CRUD
  location and the meme modules of each meme location. What the environment decides (the value of
  uninitialised variables, \<open>rand()\<close>, the random name of a comment) is the record \<open>chance\<close>.
\<close>

section \<open>State\<close>

record chance =
  junk_entity :: int
  junk_meme :: meme_id
  rand_value :: int
  uuid_value :: string

record ('w, 'f) world =
  world_disk :: 'w
  crud_tables :: "string \<Rightarrow> entity_ids"
  meme_tables :: "string \<Rightarrow> ('w, 'f) meme_modules"

type_synonym factories = "(string, factory_kind) std_map"
type_synonym arguments = "(string, config) std_map"

section \<open>Matching\<close>

definition nul :: char where
  "nul = CHR 0x00"

fun mismatch_prefix :: "string \<Rightarrow> string \<Rightarrow> bool result" where
  \<comment> \<open>\<open>std::mismatch\<close> is given no end of the url: behind its last character it reads the
    terminating null character, behind that it has no meaning\<close>
  "mismatch_prefix [] url = Inr True"
| "mismatch_prefix (p # ps) [] = (if p = nul then Inl Undefined_behaviour else Inr False)"
| "mismatch_prefix (p # ps) (u # us) = (if p = u then mismatch_prefix ps us else Inr False)"

fun match_from :: "nat \<Rightarrow> string option \<Rightarrow> (string \<times> 'a) list \<Rightarrow> string \<Rightarrow> string option result" where
  \<comment> \<open>the loop, with \<open>longest_prefix_match\<close> and \<open>best_match\<close>\<close>
  "match_from longest best [] url = Inr best"
| "match_from longest best ((loc, _) # fs) url =
     (case mismatch_prefix loc url of
        Inl e \<Rightarrow> Inl e
      | Inr matches \<Rightarrow>
          if matches \<and> longest \<le> length loc
          then match_from (length loc) (Some loc) fs url
          else match_from longest best fs url)"

definition match :: "(string \<times> 'a) list \<Rightarrow> string \<Rightarrow> string option result" where
  "match fs url = match_from 0 None fs url"

section \<open>Making and running a handler\<close>

definition run_static ::
    "beast \<Rightarrow> 'w os \<Rightarrow> string \<Rightarrow> string \<Rightarrow> config \<Rightarrow> ('w, 'f) world handler" where
  "run_static b os location url cfg req res W =
     (case static_create location url cfg of
        None \<Rightarrow> (Inl Undefined_behaviour, res, W)
      | Some file_name \<Rightarrow>
          (case static_handle_request b os file_name req res (world_disk W) of
             (r, res', w') \<Rightarrow> (r, res', W\<lparr>world_disk := w'\<rparr>)))"

definition run_crud ::
    "beast \<Rightarrow> 'w os \<Rightarrow> chance \<Rightarrow> string \<Rightarrow> config \<Rightarrow> ('w, 'f) world handler" where
  "run_crud b os ch location cfg req res W =
     (case crud_create os (world_disk W) (junk_entity ch) cfg (crud_tables W location) of
        (Inl e, ids) \<Rightarrow> (Inl e, res, W\<lparr>crud_tables := (crud_tables W)(location := ids)\<rparr>)
      | (Inr None, ids) \<Rightarrow>
          (Inl Undefined_behaviour, res, W\<lparr>crud_tables := (crud_tables W)(location := ids)\<rparr>)
      | (Inr (Some root), ids) \<Rightarrow>
          (case crud_handle_request b os root req res \<lparr>crud_ids = ids, crud_disk = world_disk W\<rparr> of
             (r, res', s') \<Rightarrow>
               (r, res', W\<lparr>world_disk := crud_disk s',
                           crud_tables := (crud_tables W)(location := crud_ids s')\<rparr>)))"

definition run_meme ::
    "beast \<Rightarrow> 'w os \<Rightarrow> 'f platform \<Rightarrow> chance \<Rightarrow> string \<Rightarrow> config \<Rightarrow> ('w, 'f) world handler" where
  \<comment> \<open>the disk is shared: the module's file system is the one of the world\<close>
  "run_meme b os P ch location cfg req res W =
     (case meme_create os P (junk_meme ch) (world_disk W) cfg (meme_tables W location) of
        (Inl e, ms) \<Rightarrow> (Inl e, res, W)
      | (Inr None, ms) \<Rightarrow> (Inl Undefined_behaviour, res, W)
      | (Inr (Some root), ms) \<Rightarrow>
          (case ms root of
             None \<Rightarrow> (Inl Undefined_behaviour, res, W)
           | Some m0 \<Rightarrow>
               (case meme_handle_request b os P (rand_value ch) (uuid_value ch) location req res
                       (m0\<lparr>store := (store m0)\<lparr>disk_of := world_disk W\<rparr>\<rparr>) of
                  (r, res', m) \<Rightarrow>
                    (r, res', W\<lparr>world_disk := disk_of (store m),
                                meme_tables := (meme_tables W)(location := ms(root \<mapsto> m))\<rparr>))))"

definition create_and_handle ::
    "beast \<Rightarrow> 'w os \<Rightarrow> 'f platform \<Rightarrow> chance \<Rightarrow> factory_kind \<Rightarrow> string \<Rightarrow> string \<Rightarrow> config \<Rightarrow>
     ('w, 'f) world handler" where
  \<comment> \<open>\<open>factory->create(location, url, *arguments)\<close>, then \<open>handler->handle_request\<close>; a call through
    a null pointer has no meaning\<close>
  "create_and_handle b os P ch kind location url cfg =
     (case kind of
        EchoHandlerFactory \<Rightarrow> echo_handle_request b
      | FileNotFoundHandlerFactory \<Rightarrow> file_not_found_handle_request b
      | HealthHandlerFactory \<Rightarrow> health_handle_request b
      | BlockHandlerFactory \<Rightarrow> block_handle_request
      | StaticHandlerFactory \<Rightarrow> run_static b os location url cfg
      | CrudHandlerFactory \<Rightarrow> run_crud b os ch location cfg
      | MemeHandlerFactory \<Rightarrow> run_meme b os P ch location cfg)"

section \<open>The dispatcher\<close>

definition finish_response :: "status \<Rightarrow> response \<Rightarrow> response" where
  \<comment> \<open>the \<open>switch\<close> on the handler's status; the payload is not prepared again\<close>
  "finish_response st res =
     (case st of
        Not_found \<Rightarrow> (plain_response Not_found ''text/plain'' res)\<lparr>res_body := text_404\<rparr>
      | Internal_server_error \<Rightarrow>
          (plain_response Internal_server_error ''text/plain'' res)\<lparr>res_body := text_500\<rparr>
      | Bad_request \<Rightarrow> (plain_response Bad_request ''text/plain'' res)\<lparr>res_body := text_400\<rparr>
      | _ \<Rightarrow> res)"

definition dispatch_request ::
    "beast \<Rightarrow> 'w os \<Rightarrow> 'f platform \<Rightarrow> chance \<Rightarrow> factories \<Rightarrow> arguments \<Rightarrow> ('w, 'f) world dispatcher" where
  "dispatch_request b os P ch factories arguments req res W =
     (let url = req_target req in
      case match factories url of
        Inl e \<Rightarrow> (Inl e, W)
      | Inr None \<Rightarrow>
          (Inr (prepare_payload b ((plain_response Not_found ''text/plain'' res)\<lparr>res_body := text_404\<rparr>)), W)
      | Inr (Some location) \<Rightarrow>
          (case (map_get arguments location, map_get factories location) of
             (Some cfg, Some kind) \<Rightarrow>
               (case create_and_handle b os P ch kind location url cfg req res W of
                  (Inl e, res', W') \<Rightarrow> (Inl e, W')
                | (Inr st, res', W') \<Rightarrow> (Inr (finish_response st res'), W'))
           | _ \<Rightarrow> (Inl Undefined_behaviour, W)))"

section \<open>What matching computes\<close>

definition plain_name :: "string \<Rightarrow> bool" where
  "plain_name p \<longleftrightarrow> nul \<notin> set p"

lemma mismatch_prefix_plain: "plain_name p \<Longrightarrow> mismatch_prefix p url = Inr (prefix p url)"
proof (induction p url rule: mismatch_prefix.induct)
  case (2 p ps)
  then have "p \<noteq> nul" unfolding plain_name_def by (metis list.set_intros(1))
  then show ?case by (simp only: mismatch_prefix.simps if_False prefix_code)
next
  case (3 p ps u us)
  then show ?case by (cases "p = u") (simp_all add: plain_name_def)
qed simp

definition improves :: "string set \<Rightarrow> string \<Rightarrow> nat \<Rightarrow> string option \<Rightarrow> string option \<Rightarrow> bool" where
  \<comment> \<open>\<open>r\<close> is \<open>best\<close> unless one of the locations matches with at least \<open>n\<close> characters\<close>
  "improves L url n best r \<longleftrightarrow>
     (r = best \<and> (\<forall>p \<in> L. prefix p url \<longrightarrow> length p < n) \<or>
      (\<exists>p \<in> L. r = Some p \<and> prefix p url \<and> n \<le> length p \<and>
         (\<forall>q \<in> L. prefix q url \<longrightarrow> length q \<le> length p)))"

lemma improves_taken:
  assumes "improves L url (length p) (Some p) r" and "prefix p url" and "n \<le> length p"
  shows "improves (insert p L) url n best r"
proof -
  from assms(1) consider "r = Some p" "\<forall>q \<in> L. prefix q url \<longrightarrow> length q < length p"
    | q where "q \<in> L" "r = Some q" "prefix q url" "length p \<le> length q"
        "\<forall>q' \<in> L. prefix q' url \<longrightarrow> length q' \<le> length q"
    unfolding improves_def by blast
  then show ?thesis
  proof cases
    case 1
    then have "\<forall>q \<in> insert p L. prefix q url \<longrightarrow> length q \<le> length p" using less_imp_le by blast
    with 1(1) assms(2,3) show ?thesis unfolding improves_def by blast
  next
    case (2 q)
    then have "n \<le> length q" using assms(3) by simp
    with 2 show ?thesis unfolding improves_def by blast
  qed
qed

lemma improves_skipped:
  assumes "improves L url n best r" and "\<not> (prefix p url \<and> n \<le> length p)"
  shows "improves (insert p L) url n best r"
proof -
  have p: "prefix p url \<longrightarrow> length p < n" using assms(2) by auto
  from assms(1) consider "r = best" "\<forall>q \<in> L. prefix q url \<longrightarrow> length q < n"
    | q where "q \<in> L" "r = Some q" "prefix q url" "n \<le> length q"
        "\<forall>q' \<in> L. prefix q' url \<longrightarrow> length q' \<le> length q"
    unfolding improves_def by blast
  then show ?thesis
  proof cases
    case 1
    with p show ?thesis unfolding improves_def by blast
  next
    case (2 q)
    then have "prefix p url \<longrightarrow> length p \<le> length q" using p by linarith
    with 2 show ?thesis unfolding improves_def by blast
  qed
qed

lemma match_from_result:
  assumes "\<forall>p \<in> fst ` set fs. plain_name p"
  shows "\<exists>r. match_from n best fs url = Inr r \<and> improves (fst ` set fs) url n best r"
  using assms
proof (induction fs arbitrary: n best)
  case Nil
  then show ?case by (simp add: improves_def)
next
  case (Cons e fs)
  obtain p k where e: "e = (p, k)" by (cases e)
  have plain: "mismatch_prefix p url = Inr (prefix p url)" "\<forall>p \<in> fst ` set fs. plain_name p"
    using Cons.prems e by (simp_all add: mismatch_prefix_plain)
  have keys: "fst ` set (e # fs) = insert p (fst ` set fs)" by (simp add: e)
  show ?case
  proof (cases "prefix p url \<and> n \<le> length p")
    case True
    then have "match_from n best (e # fs) url = match_from (length p) (Some p) fs url"
      by (simp add: e plain(1))
    with Cons.IH [OF plain(2), of "length p" "Some p"] True show ?thesis
      unfolding keys using improves_taken by metis
  next
    case False
    then have "match_from n best (e # fs) url = match_from n best fs url"
      by (auto simp: e plain(1))
    with Cons.IH [OF plain(2), of n best] False show ?thesis
      unfolding keys using improves_skipped by metis
  qed
qed

lemma prefix_same_length: "prefix p url \<Longrightarrow> prefix q url \<Longrightarrow> length p = length q \<Longrightarrow> p = q"
  by (auto simp: prefix_def)

definition longest_location :: "string set \<Rightarrow> string \<Rightarrow> string \<Rightarrow> bool" where
  \<comment> \<open>the specification of \<open>match\<close>\<close>
  "longest_location locations url p \<longleftrightarrow>
     p \<in> locations \<and> prefix p url \<and> (\<forall>q \<in> locations. prefix q url \<longrightarrow> length q \<le> length p)"

lemma longest_unique:
  "longest_location L url p \<Longrightarrow> longest_location L url q \<Longrightarrow> p = q"
  unfolding longest_location_def using prefix_same_length by (meson dual_order.antisym)

lemma match_result:
  assumes "\<forall>p \<in> fst ` set fs. plain_name p"
  shows "match fs url = Inr None \<and> (\<forall>p \<in> fst ` set fs. \<not> prefix p url) \<or>
    (\<exists>p. match fs url = Inr (Some p) \<and> longest_location (fst ` set fs) url p)"
  using match_from_result [OF assms, of 0 None url]
  unfolding match_def longest_location_def improves_def by fastforce

section \<open>What reaches the client\<close>

lemma finish_response_simps [simp]:
  "res_result (finish_response st res) =
     (if st \<in> {Not_found, Internal_server_error, Bad_request} then st else res_result res)"
  "res_fields (finish_response st res) Content_length = res_fields res Content_length"
  by (auto simp: finish_response_def plain_response_def split: status.split)

context status_contract
begin

text \<open>After the dispatcher's \<open>switch\<close> the result of the response is the status, whatever it is.\<close>

lemma finished_result:
  assumes "valid" and "res_result res = Status_ok" and "handle req res s = (Inr st, res', s')"
    and "st \<noteq> Continue"
  shows "res_result (finish_response st res') = st"
proof (cases "st \<in> {Not_found, Internal_server_error, Bad_request}")
  case False
  then have "st = Status_ok \<or> st = Created" using assms(4) by (cases st) auto
  with success_result [OF assms(1-3) this] show ?thesis by auto
qed simp

end

lemma run_static_cases:
  assumes "run_static b os location url cfg req res W = (Inr st, res', W')"
  obtains file_name w where "static_handle_request b os file_name req res (world_disk W) = (Inr st, res', w)"
  using assms by (cases "static_create location url cfg") (auto simp: run_static_def split: prod.splits)

lemma run_crud_cases:
  assumes "run_crud b os ch location cfg req res W = (Inr st, res', W')"
  obtains root ids s where
    "crud_create os (world_disk W) (junk_entity ch) cfg (crud_tables W location) = (Inr (Some root), ids)"
    and "crud_handle_request b os root req res \<lparr>crud_ids = ids, crud_disk = world_disk W\<rparr> = (Inr st, res', s)"
    and "W' = W\<lparr>world_disk := crud_disk s, crud_tables := (crud_tables W)(location := crud_ids s)\<rparr>"
proof -
  obtain r ids where c: "crud_create os (world_disk W) (junk_entity ch) cfg (crud_tables W location) = (r, ids)"
    by (cases "crud_create os (world_disk W) (junk_entity ch) cfg (crud_tables W location)")
  with assms obtain root where r: "r = Inr (Some root)"
    by (auto simp: run_crud_def split: sum.splits option.splits)
  obtain q res1 s where h: "crud_handle_request b os root req res \<lparr>crud_ids = ids, crud_disk = world_disk W\<rparr> =
      (q, res1, s)"
    by (cases "crud_handle_request b os root req res \<lparr>crud_ids = ids, crud_disk = world_disk W\<rparr>")
  from assms c r h show ?thesis by (intro that [of root ids s]) (simp_all add: run_crud_def)
qed

lemma run_meme_cases:
  assumes "run_meme b os P ch location cfg req res W = (Inr st, res', W')"
  obtains m m' where
    "meme_handle_request b os P (rand_value ch) (uuid_value ch) location req res m = (Inr st, res', m')"
proof -
  obtain r ms where c: "meme_create os P (junk_meme ch) (world_disk W) cfg (meme_tables W location) = (r, ms)"
    by (cases "meme_create os P (junk_meme ch) (world_disk W) cfg (meme_tables W location)")
  with assms obtain root where r: "r = Inr (Some root)"
    by (auto simp: run_meme_def split: sum.splits option.splits)
  with assms c obtain m where m: "ms root = Some m"
    by (auto simp: run_meme_def split: option.splits)
  let ?m = "m\<lparr>store := (store m)\<lparr>disk_of := world_disk W\<rparr>\<rparr>"
  obtain q res1 m' where h:
    "meme_handle_request b os P (rand_value ch) (uuid_value ch) location req res ?m = (q, res1, m')"
    by (cases "meme_handle_request b os P (rand_value ch) (uuid_value ch) location req res ?m")
  from assms c r m h show ?thesis by (intro that [of ?m m']) (simp add: run_meme_def)
qed

lemma create_and_handle_result:
  assumes "payload_law b" and "res_result res = Status_ok"
    and "create_and_handle b os P ch kind location url cfg req res W = (Inr st, res', W')"
    and "st \<noteq> Continue"
  shows "res_result (finish_response st res') = st"
proof (cases kind)
  case StaticHandlerFactory
  with assms(3) have "run_static b os location url cfg req res W = (Inr st, res', W')"
    by (simp add: create_and_handle_def)
  then obtain f w where "static_handle_request b os f req res (world_disk W) = (Inr st, res', w)"
    by (rule run_static_cases)
  with assms(1,2) show ?thesis using assms(4) by (rule static.finished_result)
next
  case EchoHandlerFactory
  with assms(3) have "echo_handle_request b req res W = (Inr st, res', W')"
    by (simp add: create_and_handle_def)
  with assms(1,2) show ?thesis using assms(4) by (rule echo.finished_result)
next
  case FileNotFoundHandlerFactory
  with assms(3) have "file_not_found_handle_request b req res W = (Inr st, res', W')"
    by (simp add: create_and_handle_def)
  with assms(1,2) show ?thesis using assms(4) by (rule file_not_found.finished_result)
next
  case CrudHandlerFactory
  with assms(3) have "run_crud b os ch location cfg req res W = (Inr st, res', W')"
    by (simp add: create_and_handle_def)
  then obtain root ids s where
    "crud_handle_request b os root req res \<lparr>crud_ids = ids, crud_disk = world_disk W\<rparr> = (Inr st, res', s)"
    by (rule run_crud_cases)
  with assms(1,2) show ?thesis using assms(4) by (rule crud.finished_result)
next
  case HealthHandlerFactory
  with assms(3) have "health_handle_request b req res W = (Inr st, res', W')"
    by (simp add: create_and_handle_def)
  with assms(1,2) show ?thesis using assms(4) by (rule health.finished_result)
next
  case BlockHandlerFactory
  with assms(3) have "block_handle_request req res W = (Inr st, res', W')"
    by (simp add: create_and_handle_def)
  with assms(1,2) show ?thesis using assms(4) by (rule block.finished_result)
next
  case MemeHandlerFactory
  with assms(3) have "run_meme b os P ch location cfg req res W = (Inr st, res', W')"
    by (simp add: create_and_handle_def)
  then obtain m m' where
    "meme_handle_request b os P (rand_value ch) (uuid_value ch) location req res m = (Inr st, res', m')"
    by (rule run_meme_cases)
  with assms(1,2) show ?thesis using assms(4) by (rule meme.finished_result)
qed

section \<open>An example\<close>

definition shop :: "(disk, int) world" where
  \<comment> \<open>the disk of \<open>shoes\<close>, before the first request\<close>
  "shop = \<lparr>world_disk = crud_disk shoes, crud_tables = (\<lambda>_ _. None), meme_tables = (\<lambda>_ _. None)\<rparr>"

definition shop_factories :: factories where
  "shop_factories = [(''/api'', CrudHandlerFactory), (''/echo'', EchoHandlerFactory), (''/static'', StaticHandlerFactory)]"

definition shop_arguments :: arguments where
  "shop_arguments = [(''/api'', data_config), (''/echo'', Config []), (''/static'', Config [])]"

definition no_chance :: chance where
  "no_chance = \<lparr>junk_entity = 0, junk_meme = 0, rand_value = 0, uuid_value = ''u''\<rparr>"

lemma shop_plain: "\<forall>p \<in> fst ` set shop_factories. plain_name p"
  by (simp add: shop_factories_def plain_name_def nul_def)

definition error_text :: "status \<Rightarrow> string" where
  "error_text st =
     (if st = Not_found then text_404 else if st = Bad_request then text_400 else text_500)"

definition configured_root :: "config \<Rightarrow> string option" where
  \<comment> \<open>the directory a handler with a root is configured with\<close>
  "configured_root cfg =
     (case statements cfg of
        Stmt [key, dir] _ # _ \<Rightarrow> if key = ''root'' then Some dir else None
      | _ \<Rightarrow> None)"

section \<open>Properties\<close>

text \<open>
  C11: for locations without null characters, \<open>match\<close> returns the longest location that is a prefix
  of the target, and none exactly when no location is one; a location counts wherever it ends in
  the target, at the end of a path element or inside it.
\<close>
theorem match_longest_prefix:
  assumes "\<forall>p \<in> fst ` set fs. plain_name p"
  shows "(match fs url = Inr None \<longleftrightarrow> (\<forall>p \<in> fst ` set fs. \<not> prefix p url)) \<and>
    (match fs url = Inr (Some p) \<longleftrightarrow> longest_location (fst ` set fs) url p)"
  using match_result [OF assms, of url]
proof (elim disjE exE conjE)
  assume "match fs url = Inr None" "\<forall>p \<in> fst ` set fs. \<not> prefix p url"
  then show ?thesis by (auto simp: longest_location_def)
next
  fix q
  assume q: "match fs url = Inr (Some q)" "longest_location (fst ` set fs) url q"
  then have "q \<in> fst ` set fs" "prefix q url" by (simp_all add: longest_location_def)
  then have some: "\<not> (\<forall>p \<in> fst ` set fs. \<not> prefix p url)" by blast
  have "p = q \<longleftrightarrow> longest_location (fst ` set fs) url p" using q(2) longest_unique by blast
  with some show ?thesis by (simp only: q(1) sum.inject option.inject option.distinct simp_thms) blast
qed

theorem match_longest_prefix_witness:
  "match shop_factories ''/echofoo'' = Inr (Some ''/echo'') \<and> match shop_factories ''/'' = Inr None"
proof -
  have "longest_location (fst ` set shop_factories) ''/echofoo'' ''/echo''"
    by (simp add: longest_location_def shop_factories_def)
  moreover have "\<forall>p \<in> fst ` set shop_factories. \<not> prefix p ''/''" by (simp add: shop_factories_def)
  ultimately show ?thesis using match_longest_prefix [OF shop_plain] by blast
qed

text \<open>
  A target that no location is a prefix of is answered 404 with the canned text and its
  length, and nothing else happens.
\<close>
lemma unmatched_is_404:
  assumes "payload_law b" and "\<forall>p \<in> fst ` set factories. plain_name p \<and> \<not> prefix p (req_target req)"
  shows "\<exists>res'. dispatch_request b os P ch factories arguments req res W = (Inr res', W) \<and>
    res_result res' = Not_found \<and> res_body res' = text_404 \<and>
    res_fields res' Content_length = Some (nat_to_string (length text_404))"
proof -
  have "match factories (req_target req) = Inr None"
    using match_result [of factories "req_target req"] assms(2) by (auto simp: longest_location_def)
  with assms(1) show ?thesis
    unfolding dispatch_request_def Let_def payload_law_def by (simp add: plain_response_def)
qed



text \<open>
  When a handler reports an error, the dispatcher replaces the body of its response but not
  its length: the Content-Length sent is the one the handler set for its own text (of which the
  client sees nothing), or none at all.
\<close>
lemma error_length_not_updated:
  assumes "match factories (req_target req) = Inr (Some location)"
    and "map_get arguments location = Some cfg" and "map_get factories location = Some kind"
    and "create_and_handle b os P ch kind location (req_target req) cfg req res W = (Inr st, res', W')"
    and "st \<in> {Not_found, Bad_request, Internal_server_error}"
  shows "\<exists>sent. dispatch_request b os P ch factories arguments req res W = (Inr sent, W') \<and>
    res_body sent = error_text st \<and>
    res_fields sent Content_length = res_fields res' Content_length"
proof -
  have "dispatch_request b os P ch factories arguments req res W = (Inr (finish_response st res'), W')"
    by (simp add: dispatch_request_def Let_def assms(1-4))
  moreover have "res_body (finish_response st res') = error_text st"
    using assms(5) by (auto simp: finish_response_def error_text_def)
  ultimately show ?thesis by (metis finish_response_simps(2))
qed

text \<open>
  A CRUD, static or meme location whose block does not begin with a statement of the form
  \<open>root <dir>\<close> has no handler: the factory returns a null pointer and the dispatcher calls through
  it.
\<close>
lemma unconfigured_location_undefined:
  assumes "match factories (req_target req) = Inr (Some location)"
    and "map_get arguments location = Some cfg" and "map_get factories location = Some kind"
    and "kind \<in> {CrudHandlerFactory, StaticHandlerFactory, MemeHandlerFactory}"
    and "configured_root cfg = None"
  shows "dispatch_request b os P ch factories arguments req res W = (Inl Undefined_behaviour, W)"
proof -
  have "create_and_handle b os P ch kind location (req_target req) cfg req res W =
      (Inl Undefined_behaviour, res, W)"
    using assms(4,5)
    by (auto simp: create_and_handle_def run_static_def run_crud_def run_meme_def static_create_def
        crud_create_def meme_create_def configured_root_def split: list.splits stmt.splits if_splits)
  then show ?thesis by (simp add: dispatch_request_def Let_def assms(1-3))
qed

end
