(* ===== verification/Crud_Served.thy ===== *)
theory Crud_Served
  imports Crud_Restart Dispatcher
begin

text \<open>
  The entity store as the server runs it: every request makes a new handler, and every new handler
  makes the factory scan the disk into the shared table again. \<open>rescanned\<close> is the state of a type
  from its second request on; \<open>serve_all\<close> gives a list of requests to the dispatcher.
\<close>

section \<open>The disk under a write\<close>

definition write_frame :: "'w os \<Rightarrow> string \<Rightarrow> bool" where
  \<comment> \<open>writing the file of one entity leaves the directories and every other file of a type alone\<close>
  "write_frame os root \<longleftrightarrow>
     (\<forall>d i w c w'. name_part d \<longrightarrow> os_write os w (entity_path root d i) c = Some w' \<longrightarrow>
        os_exists os w' root = os_exists os w root \<and> os_is_directory os w' root = os_is_directory os w root \<and>
        (\<forall>e. name_part e \<longrightarrow>
           os_exists os w' (root @ slash # e) = os_exists os w (root @ slash # e) \<and>
           os_is_directory os w' (root @ slash # e) = os_is_directory os w (root @ slash # e) \<and>
           (\<forall>n. name_part n \<and> (e, n) \<noteq> (d, int_to_string i) \<longrightarrow>
              os_exists os w' (root @ slash # e @ slash # n) = os_exists os w (root @ slash # e @ slash # n) \<and>
              os_read os w' (root @ slash # e @ slash # n) = os_read os w (root @ slash # e @ slash # n))))"

lemma write_frameD:
  assumes "write_frame os root" and "name_part d" and "os_write os w (entity_path root d i) c = Some w'"
  shows "os_exists os w' root = os_exists os w root \<and> os_is_directory os w' root = os_is_directory os w root"
    and "name_part e \<Longrightarrow> os_exists os w' (root @ slash # e) = os_exists os w (root @ slash # e) \<and>
      os_is_directory os w' (root @ slash # e) = os_is_directory os w (root @ slash # e)"
    and "name_part e \<Longrightarrow> name_part n \<Longrightarrow> (e, n) \<noteq> (d, int_to_string i) \<Longrightarrow>
      os_exists os w' (root @ slash # e @ slash # n) = os_exists os w (root @ slash # e @ slash # n) \<and>
      os_read os w' (root @ slash # e @ slash # n) = os_read os w (root @ slash # e @ slash # n)"
  using assms(1) [unfolded write_frame_def, rule_format, OF assms(2,3)] by blast+

lemma only_entities_write:
  assumes "os_laws os" and "write_frame os root" and "only_entities os root w" and "name_part d"
    and "1 \<le> i" and "in_int_range i" and "os_exists os w (root @ slash # d)" and "os_is_directory os w (root @ slash # d)"
    and "os_write os w (entity_path root d i) c = Some w'"
  shows "only_entities os root w'"
proof -
  note same = write_frameD [OF assms(2,4,9)]
  note old = only_entitiesD [OF assms(3)]
  have "os_exists os w' (root @ slash # e) \<and> os_is_directory os w' (root @ slash # e) \<and>
      os_read os w' (root @ slash # e @ slash # n) \<noteq> None \<and> (\<exists>i \<ge> 1. in_int_range i \<and> n = int_to_string i)"
    if e: "name_part e" "name_part n" "os_exists os w' (root @ slash # e @ slash # n)" for e n
  proof (cases "(e, n) = (d, int_to_string i)")
    case True
    with assms(5-8) same(2) [OF assms(4)] os_lawsD(1) [OF assms(1,9)] show ?thesis
      by (auto simp: entity_path_slash)
  next
    case False
    with same(3) [OF e(1,2)] e(3) have "os_exists os w (root @ slash # e @ slash # n)" by blast
    with old(3) [OF e(1,2)] same(2) [OF e(1)] same(3) [OF e(1,2) False] show ?thesis by metis
  qed
  with same(1) old(1,2) show ?thesis unfolding only_entities_def by blast
qed

section \<open>From the second scan on\<close>

definition rescanned :: "'w os \<Rightarrow> string \<Rightarrow> string \<Rightarrow> entity_ids \<Rightarrow> 'w \<Rightarrow> bool" where
  "rescanned os root d ids w \<longleftrightarrow>
     sorted (ids_of ids d) \<and> (\<forall>i \<in> set (ids_of ids d). 1 \<le> i) \<and> 1 \<in> set (ids_of ids d) \<and>
     only_entities os root w \<and> os_exists os w (entity_path root d 1)"

lemma rescan_gives_two:
  assumes "listing_law os" and "name_part d" and "rescanned os root d ids w"
    and "crud_create os w junk cfg ids = (Inr (Some root), ids1)"
  shows "get_available_id ids1 d = 2" and "rescanned os root d ids1 w"
proof -
  from assms(3) have only: "only_entities os root w" by (simp add: rescanned_def)
  note root_dir = only_entitiesD(1,2) [OF only]
  obtain xs where xs: "mset xs = disk_ids os w junk (os_entries os w root) d" using ex_mset by blast
  note listed = disk_ids_listed(2) [OF assms(1) only xs]
  have m: "mset (ids_of ids1 d) = mset (ids_of ids d) + mset xs" and s: "sorted (ids_of ids1 d)"
    using crud_create_ids [OF assms(4) root_dir, of d] assms(3) xs by (simp_all add: rescanned_def)
  have set: "set (ids_of ids1 d) = set (ids_of ids d) \<union> set xs"
    using arg_cong [OF m, of set_mset] by simp
  have "1 \<le> i" if "i \<in> set xs" for i
    using that listed [of i] only_entitiesD(3) [OF only assms(2), of "int_to_string i"]
    by (auto simp: entity_path_slash)
  with assms(3) set have pos: "\<forall>i \<in> set (ids_of ids1 d). 1 \<le> i" by (auto simp: rescanned_def)
  have "1 \<in> set xs" and "1 \<in> set (ids_of ids d)"
    using listed [of 1] assms(2,3) by (simp_all add: rescanned_def)
  then have "1 \<le> count (mset xs) 1" "1 \<le> count (mset (ids_of ids d)) 1"
    by (simp_all add: Suc_le_eq)
  then have "2 \<le> count (mset (ids_of ids1 d)) 1" unfolding m count_union by linarith
  with s pos show "get_available_id ids1 d = 2" by (simp add: get_available_ids_of available_duplicate)
  show "rescanned os root d ids1 w" using assms(3) s pos set by (simp add: rescanned_def)
qed

lemma post_rescanned:
  assumes "os_laws os" and "listing_law os" and "write_frame os root" and "name_part d"
    and "rescanned os root d (crud_tables W location) (world_disk W)"
    and "statements cfg = Stmt [''root'', dir] ch' # ss" and "remove_trailing_slashes dir = root"
    and "req_method req = Verb_post" and "req_target req = base @ slash # d"
    and "run_crud b os ch location cfg req res W = (Inr Created, res', W')"
  shows "res' = prepare_created_response b 2 res"
    and "os_read os (world_disk W') (entity_path root d 2) = Some (req_body req)"
    and "rescanned os root d (crud_tables W' location) (world_disk W')"
proof -
  let ?w = "world_disk W"
  from assms(5) have only: "only_entities os root ?w" and one: "os_exists os ?w (entity_path root d 1)"
    by (simp_all add: rescanned_def)
  obtain root' ids s where
    scan: "crud_create os ?w (junk_entity ch) cfg (crud_tables W location) = (Inr (Some root'), ids)"
    and run: "crud_handle_request b os root' req res \<lparr>crud_ids = ids, crud_disk = ?w\<rparr> = (Inr Created, res', s)"
    and W': "W' = W\<lparr>world_disk := crud_disk s, crud_tables := (crud_tables W)(location := crud_ids s)\<rparr>"
    using assms(10) by (rule run_crud_cases)
  from create_scans [OF assms(2) only assms(6,7)] scan have "root' = root" by (metis Pair_inject option.inject sum.inject(2))
  note scan = scan [unfolded this] and run = run [unfolded this]
  note two = rescan_gives_two [OF assms(2,4,5) scan]
  from run assms(8) have c: "handle_creation b os root req res \<lparr>crud_ids = ids, crud_disk = ?w\<rparr> = (Inr Created, res', s)"
    by (simp add: crud_handle_request_def)
  note made = creation_target [OF assms(9,4) c, unfolded crud.simps two(1)]
  then show "res' = prepare_created_response b 2 res" by blast
  have dir: "os_exists os ?w (root @ slash # d)" "os_is_directory os ?w (root @ slash # d)"
    using only_entitiesD(3) [OF only assms(4) name_part_int one [unfolded entity_path_slash]] by blast+
  with c two(1) have wrote: "os_write os ?w (entity_path root d 2) (req_body req) = Some (crud_disk s)"
    by (auto simp: creation_target_eq [OF assms(9,4)] Let_def bad_request_def split: option.splits)
  with os_lawsD(1) [OF assms(1)] show "os_read os (world_disk W') (entity_path root d 2) = Some (req_body req)"
    by (simp add: W')
  have "in_int_range 2" by (simp add: in_int_range_def)
  from only_entities_write [OF assms(1,3) only assms(4) _ this dir wrote] have "only_entities os root (crud_disk s)"
    by simp
  moreover have "os_exists os (crud_disk s) (entity_path root d 1)"
    using write_frameD(3) [OF assms(3,4) wrote, of d "int_to_string 1"] assms(4) one by (simp add: entity_path_slash)
  moreover have "ids_of (crud_ids s) d = insert_id 2 (ids_of ids d)"
    unfolding made(1) by (simp only: ids_of_add if_True simp_thms)
  ultimately show "rescanned os root d (crud_tables W' location) (world_disk W')"
    using two(2) by (auto simp: rescanned_def W' insert_id_def)
qed

fun serve_all ::
    "('w, 'f) world dispatcher \<Rightarrow> request list \<Rightarrow> ('w, 'f) world \<Rightarrow> response result list \<times> ('w, 'f) world" where
  \<comment> \<open>requests one after the other, each with a response of its own\<close>
  "serve_all D [] W = ([], W)"
| "serve_all D (r # rs) W =
     (case D r fresh_response W of
        (a, W1) \<Rightarrow> (case serve_all D rs W1 of (as, W2) \<Rightarrow> (a # as, W2)))"

lemma creation_status:
  "handle_creation b os root req res s = (r, res', s') \<Longrightarrow> r = Inr Created \<or> r = Inr Bad_request"
  by (auto simp: handle_creation_def bad_request_def Let_def split: option.splits if_splits)

lemma dispatched_post:
  assumes "payload_law b" and "match factories (req_target req) = Inr (Some location)"
    and "map_get arguments location = Some cfg" and "map_get factories location = Some CrudHandlerFactory"
    and "req_method req = Verb_post"
    and "dispatch_request b os P ch factories arguments req fresh_response W = (Inr sent, W')"
    and "res_result sent = Created"
  shows "run_crud b os ch location cfg req fresh_response W = (Inr Created, sent, W')"
proof -
  obtain r res' W1 where run: "run_crud b os ch location cfg req fresh_response W = (r, res', W1)"
    by (cases "run_crud b os ch location cfg req fresh_response W")
  with assms(2-4,6) obtain st where st: "r = Inr st" "sent = finish_response st res'" "W1 = W'"
    by (cases r) (auto simp: dispatch_request_def create_and_handle_def Let_def)
  from run st(1) obtain root ids s where
    "crud_handle_request b os root req fresh_response \<lparr>crud_ids = ids, crud_disk = world_disk W\<rparr> = (Inr st, res', s)"
    using run_crud_cases by metis
  with assms(5) have "handle_creation b os root req fresh_response \<lparr>crud_ids = ids, crud_disk = world_disk W\<rparr> =
      (Inr st, res', s)"
    by (simp add: crud_handle_request_def)
  from creation_status [OF this] have "st = Created \<or> st = Bad_request" by simp
  with st(2) assms(7) have "st = Created" by (auto simp: finish_response_def plain_response_def)
  with run st show ?thesis by (simp add: finish_response_def)
qed

section \<open>The example\<close>

lemma sample_file_paths:
  assumes "name_part d" and "name_part e" and "name_part n" and "(e, n) \<noteq> (d, int_to_string i)"
  shows "root @ slash # e @ slash # n \<noteq> entity_path root d i"
proof
  assume "root @ slash # e @ slash # n = entity_path root d i"
  then have eq: "e @ slash # n = d @ slash # int_to_string i" by (simp add: entity_path_slash)
  then have "after_last slash ([slash] @ e @ slash # n) = after_last slash ([slash] @ d @ slash # int_to_string i)"
    by (simp only: eq)
  then have "after_last slash (([slash] @ e) @ slash # n) = after_last slash (([slash] @ d) @ slash # int_to_string i)"
    by (simp only: append_assoc)
  then have "n = int_to_string i" using assms(3) by (simp only: after_last_target name_part_int)
  with eq assms(4) show False by simp
qed

lemma sample_write_frame: "write_frame sample_os root"
proof -
  have other: "os_exists sample_os w' q = os_exists sample_os w q \<and>
      os_is_directory sample_os w' q = os_is_directory sample_os w q \<and> os_read sample_os w' q = os_read sample_os w q"
    if "os_write sample_os w p c = Some w'" "q \<noteq> p" for w w' p q c
    using that by (simp add: sample_os_def split: if_splits) auto
  show ?thesis
    unfolding write_frame_def
  proof (intro allI impI)
    fix d i w c w'
    assume d: "name_part d" and wr: "os_write sample_os w (entity_path root d i) c = Some w'"
    have "root \<noteq> entity_path root d i" by (simp add: entity_path_slash)
    moreover have "root @ slash # e \<noteq> entity_path root d i" if "name_part e" for e
      using sample_dir_path [OF that d] by simp
    ultimately show "os_exists sample_os w' root = os_exists sample_os w root \<and>
        os_is_directory sample_os w' root = os_is_directory sample_os w root \<and>
        (\<forall>e. name_part e \<longrightarrow>
           os_exists sample_os w' (root @ slash # e) = os_exists sample_os w (root @ slash # e) \<and>
           os_is_directory sample_os w' (root @ slash # e) = os_is_directory sample_os w (root @ slash # e) \<and>
           (\<forall>n. name_part n \<and> (e, n) \<noteq> (d, int_to_string i) \<longrightarrow>
              os_exists sample_os w' (root @ slash # e @ slash # n) = os_exists sample_os w (root @ slash # e @ slash # n) \<and>
              os_read sample_os w' (root @ slash # e @ slash # n) = os_read sample_os w (root @ slash # e @ slash # n)))"
      using other [OF wr] sample_file_paths [OF d] by blast
  qed
qed

lemma all_created:
  "list_all (\<lambda>a. case a of Inl e \<Rightarrow> False | Inr sent \<Rightarrow> res_result sent = Created) as \<Longrightarrow>
   \<forall>a \<in> set as. \<exists>sent. a = Inr sent \<and> res_result sent = Created"
proof
  fix a
  assume "list_all (\<lambda>a. case a of Inl e \<Rightarrow> False | Inr sent \<Rightarrow> res_result sent = Created) as" "a \<in> set as"
  then show "\<exists>sent. a = Inr sent \<and> res_result sent = Created" by (cases a) (auto simp: list_all_iff)
qed

definition busy_shop :: "(disk, int) world" where
  \<comment> \<open>after the first request of the location: entities 1 and 2 on the disk, both in the table\<close>
  "busy_shop = shop\<lparr>world_disk := two_shoes,
     crud_tables := (\<lambda>l d. if l = ''/api'' \<and> d = ''Shoes'' then Some [1, 2] else None)\<rparr>"

lemma two_shoes_only_entities: "only_entities sample_os ''/data'' two_shoes"
proof -
  have "os_exists sample_os (crud_disk shoes) (''/data'' @ slash # ''Shoes'')"
    "os_is_directory sample_os (crud_disk shoes) (''/data'' @ slash # ''Shoes'')"
    "os_write sample_os (crud_disk shoes) (entity_path ''/data'' ''Shoes'' 2) ''kept'' = Some two_shoes"
    by code_simp+
  from only_entities_write [OF sample_os_laws sample_write_frame shoes_only_entities shoes_facts(1) _ shoes_facts(2) this]
  show ?thesis by simp
qed

lemma busy_shop_rescanned:
  "rescanned sample_os ''/data'' ''Shoes'' (crud_tables busy_shop ''/api'') (world_disk busy_shop)"
proof -
  have "os_exists sample_os two_shoes (entity_path ''/data'' ''Shoes'' 1)" by code_simp
  with two_shoes_only_entities show ?thesis by (simp add: rescanned_def busy_shop_def ids_of_def)
qed

section \<open>Property\<close>

text \<open>
  C37: the server loses data: from the second POST to a type on (entity 1 exists, and the table
  holds it), every POST is answered 201 with the identifier 2, whatever is stored under 2, and
  what is left under 2 is the body of the last one.
\<close>
theorem posts_overwrite_entity_two:
  assumes "os_laws os" and "payload_law b" and "listing_law os" and "write_frame os root" and "name_part d"
    and "statements cfg = Stmt [''root'', dir] ch' # ss" and "remove_trailing_slashes dir = root"
    and "match factories (base @ slash # d) = Inr (Some location)"
    and "map_get arguments location = Some cfg" and "map_get factories location = Some CrudHandlerFactory"
    and "rescanned os root d (crud_tables W location) (world_disk W)"
    and "\<forall>r \<in> set (reqs @ [req]). req_method r = Verb_post \<and> req_target r = base @ slash # d"
    and "serve_all (dispatch_request b os P ch factories arguments) (reqs @ [req]) W = (answers, W')"
    and "\<forall>a \<in> set answers. \<exists>sent. a = Inr sent \<and> res_result sent = Created"
  shows "(\<forall>a \<in> set answers. \<exists>sent. a = Inr sent \<and> res_body sent = id_note ''Created'' 2) \<and>
    os_read os (world_disk W') (entity_path root d 2) = Some (req_body req)"
  using assms(11-14)
proof (induction reqs arbitrary: W answers)
  case (Cons r rs)
  let ?D = "dispatch_request b os P ch factories arguments"
  obtain a W1 where one: "?D r fresh_response W = (a, W1)" by (cases "?D r fresh_response W")
  obtain as W2 where rest: "serve_all ?D (rs @ [req]) W1 = (as, W2)" by (cases "serve_all ?D (rs @ [req]) W1")
  from one rest Cons.prems(3) have ans: "answers = a # as" "W2 = W'" by auto
  with Cons.prems(4) obtain sent where a: "a = Inr sent" "res_result sent = Created" by auto
  from Cons.prems(2) have r: "req_method r = Verb_post" "req_target r = base @ slash # d" by auto
  from dispatched_post [OF assms(2) _ assms(9,10) r(1) one [unfolded a(1)] a(2)] assms(8) r(2)
  have "run_crud b os ch location cfg r fresh_response W = (Inr Created, sent, W1)" by simp
  note stored = post_rescanned [OF assms(1,3-5) Cons.prems(1) assms(6,7) r this]
  have "(\<forall>a \<in> set as. \<exists>sent. a = Inr sent \<and> res_body sent = id_note ''Created'' 2) \<and>
      os_read os (world_disk W') (entity_path root d 2) = Some (req_body req)"
  proof (rule Cons.IH [OF stored(3) _ rest [unfolded ans(2)]])
    show "\<forall>r \<in> set (rs @ [req]). req_method r = Verb_post \<and> req_target r = base @ slash # d"
      using Cons.prems(2) unfolding append_Cons by (meson list.set_intros(2))
    show "\<forall>a \<in> set as. \<exists>sent. a = Inr sent \<and> res_result sent = Created"
      using Cons.prems(4) unfolding ans(1) by (meson list.set_intros(2))
  qed
  moreover have "res_body sent = id_note ''Created'' 2" using stored(1) assms(2) by simp
  ultimately show ?case by (simp add: ans(1) a(1))
next
  case Nil
  let ?D = "dispatch_request b os P ch factories arguments"
  obtain a W1 where one: "?D req fresh_response W = (a, W1)" by (cases "?D req fresh_response W")
  with Nil.prems(3) have ans: "answers = [a]" "W1 = W'" by auto
  with Nil.prems(4) obtain sent where a: "a = Inr sent" "res_result sent = Created" by auto
  from Nil.prems(2) have r: "req_method req = Verb_post" "req_target req = base @ slash # d" by auto
  from dispatched_post [OF assms(2) _ assms(9,10) r(1) one [unfolded a(1)] a(2)] assms(8) r(2)
  have "run_crud b os ch location cfg req fresh_response W = (Inr Created, sent, W1)" by simp
  from post_rescanned [OF assms(1,3-5) Nil.prems(1) assms(6,7) r this] assms(2) show ?case
    by (simp add: ans a(1))
qed

theorem posts_overwrite_entity_two_witness:
  "os_read sample_os two_shoes ''/data/Shoes/2'' = Some ''kept'' \<and>
   os_read sample_os (world_disk (snd (serve_all
     (dispatch_request sample_beast sample_os sample_platform no_chance shop_factories shop_arguments)
     [crud_request Verb_post ''/api/Shoes'' ''a'', crud_request Verb_post ''/api/Shoes'' ''b''] busy_shop)))
     (entity_path ''/data'' ''Shoes'' 2) = Some ''b''"
proof -
  let ?D = "dispatch_request sample_beast sample_os sample_platform no_chance shop_factories shop_arguments"
  let ?rs = "[crud_request Verb_post ''/api/Shoes'' ''a''] @ [crud_request Verb_post ''/api/Shoes'' ''b'']"
  have c: "statements data_config = Stmt [''root'', ''/data''] None # []" by (simp add: data_config_def)
  have r: "remove_trailing_slashes ''/data'' = ''/data''" by (simp add: remove_trailing_slashes_stable)
  have m: "match shop_factories (''/api'' @ slash # ''Shoes'') = Inr (Some ''/api'')" by code_simp
  have a: "map_get shop_arguments ''/api'' = Some data_config"
    and k: "map_get shop_factories ''/api'' = Some CrudHandlerFactory"
    by (simp_all add: shop_arguments_def shop_factories_def map_get_def)
  have rs: "\<forall>r \<in> set ?rs. req_method r = Verb_post \<and> req_target r = ''/api'' @ slash # ''Shoes''" by simp
  have "list_all (\<lambda>a. case a of Inl e \<Rightarrow> False | Inr sent \<Rightarrow> res_result sent = Created) (fst (serve_all ?D ?rs busy_shop))"
    by code_simp
  note created = all_created [OF this]
  have run: "serve_all ?D ?rs busy_shop = (fst (serve_all ?D ?rs busy_shop), snd (serve_all ?D ?rs busy_shop))"
    by (rule surjective_pairing)
  have body: "req_body (crud_request Verb_post ''/api/Shoes'' ''b'') = ''b''" by simp
  have "os_read sample_os two_shoes ''/data/Shoes/2'' = Some ''kept''" by code_simp
  with posts_overwrite_entity_two [OF sample_os_laws sample_beast_payload sample_listing sample_write_frame
      shoes_facts(1) c r m a k busy_shop_rescanned rs run created, unfolded body]
  show ?thesis unfolding append.simps by blast
qed

end
