(* ===== verification/File_Locks.thy ===== *)
theory File_Locks
  imports File_System
begin

text \<open>
  Overlapping file operations (\<open>src/file_system.cc\<close>, \<open>src/boost_file_system.cc\<close>). Every operation
  takes the mutex of its path from the registry, locks it, works and unlocks it; the registry can
  be cleaned at any moment. A thread inside an operation is listed with its path, its mutex and
  whether it has locked it.
\<close>

record lock_state =
  lock_registry :: registry
  running :: "(nat \<times> string \<times> nat \<times> bool) list"

definition use_count :: "lock_state \<Rightarrow> nat \<Rightarrow> nat" where
  \<comment> \<open>the registry's reference to the shared pointer and one of each running operation\<close>
  "use_count s m = 1 + length (filter (\<lambda>(t, p, m', h). m' = m) (running s))"

definition leave :: "nat \<Rightarrow> (nat \<times> string \<times> nat \<times> bool) list \<Rightarrow> (nat \<times> string \<times> nat \<times> bool) list" where
  "leave t = filter (\<lambda>e. fst e \<noteq> t)"

inductive lock_step :: "lock_state \<Rightarrow> lock_state \<Rightarrow> bool" where
  request: "t \<notin> fst ` set (running s) \<Longrightarrow> get_mutex p (lock_registry s) = (m, r) \<Longrightarrow>
    lock_step s \<lparr>lock_registry = r, running = (t, p, m, False) # running s\<rparr>"
| acquire: "(t, p, m, False) \<in> set (running s) \<Longrightarrow>
    \<forall>(t', p', m', h) \<in> set (running s). m' = m \<longrightarrow> \<not> h \<Longrightarrow>
    lock_step s (s\<lparr>running := (t, p, m, True) # leave t (running s)\<rparr>)"
| release: "(t, p, m, True) \<in> set (running s) \<Longrightarrow>
    lock_step s (s\<lparr>running := leave t (running s)\<rparr>)"
| cleanup: "lock_step s (s\<lparr>lock_registry := cleanup_mutexes (use_count s) (lock_registry s)\<rparr>)"

definition lock_start :: lock_state where
  "lock_start = \<lparr>lock_registry = new_registry, running = []\<rparr>"

definition registry_ok :: "registry \<Rightarrow> bool" where
  "registry_ok r \<longleftrightarrow>
     (\<forall>p m. file_mutexes r p = Some m \<longrightarrow> m < allocated r) \<and>
     (\<forall>p q m. file_mutexes r p = Some m \<and> file_mutexes r q = Some m \<longrightarrow> p = q)"

definition lock_inv :: "lock_state \<Rightarrow> bool" where
  "lock_inv s \<longleftrightarrow>
     registry_ok (lock_registry s) \<and> distinct (map fst (running s)) \<and>
     (\<forall>t p m h. (t, p, m, h) \<in> set (running s) \<longrightarrow> file_mutexes (lock_registry s) p = Some m) \<and>
     (\<forall>t p m t' p'. (t, p, m, True) \<in> set (running s) \<and> (t', p', m, True) \<in> set (running s) \<longrightarrow>
        t = t')"

lemma allocated_unused: "registry_ok r \<Longrightarrow> file_mutexes r q \<noteq> Some (allocated r)"
  unfolding registry_ok_def by blast

lemma get_mutex_ok:
  assumes "registry_ok r" and "get_mutex p r = (m, r')"
  shows "registry_ok r'" and "file_mutexes r' p = Some m"
    and "file_mutexes r q = Some n \<Longrightarrow> file_mutexes r' q = Some n"
    and "file_mutexes r q = Some m \<Longrightarrow> q = p"
proof -
  note unused = allocated_unused [OF assms(1)]
  show "registry_ok r'" and "file_mutexes r' p = Some m"
    and "file_mutexes r q = Some n \<Longrightarrow> file_mutexes r' q = Some n"
    and "file_mutexes r q = Some m \<Longrightarrow> q = p"
    using assms unused
    by (auto simp: registry_ok_def get_mutex_def less_Suc_eq split: option.splits if_splits)
qed

lemma lock_invD:
  assumes "lock_inv s"
  shows "registry_ok (lock_registry s)" and "distinct (map fst (running s))"
    and "(t, p, m, h) \<in> set (running s) \<Longrightarrow> file_mutexes (lock_registry s) p = Some m"
    and "(t, p, m, True) \<in> set (running s) \<Longrightarrow> (t', p', m, True) \<in> set (running s) \<Longrightarrow> t = t'"
  using assms unfolding lock_inv_def by (blast, blast, blast, blast)

lemma lock_invI:
  assumes "registry_ok (lock_registry s)" and "distinct (map fst (running s))"
    and "\<And>t p m h. (t, p, m, h) \<in> set (running s) \<Longrightarrow> file_mutexes (lock_registry s) p = Some m"
    and "\<And>t p m t' p'. (t, p, m, True) \<in> set (running s) \<Longrightarrow> (t', p', m, True) \<in> set (running s) \<Longrightarrow> t = t'"
  shows "lock_inv s"
  using assms unfolding lock_inv_def by blast

lemma use_count_running: "(t, p, m, h) \<in> set (running s) \<Longrightarrow> use_count s m \<noteq> 1"
  by (auto simp: use_count_def filter_empty_conv)

lemma cleanup_keeps:
  "file_mutexes (cleanup_mutexes c r) p = Some m \<longleftrightarrow> file_mutexes r p = Some m \<and> c m \<noteq> 1"
  by (auto simp: cleanup_mutexes_def split: option.splits)

lemma allocated_cleanup [simp]: "allocated (cleanup_mutexes c r) = allocated r"
  by (simp add: cleanup_mutexes_def)

lemma set_leave [simp]: "set (leave t rs) = {e \<in> set rs. fst e \<noteq> t}"
  by (auto simp: leave_def)

lemma distinct_leave: "distinct (map fst rs) \<Longrightarrow> distinct (map fst (leave t rs))"
  by (induction rs) (auto simp: leave_def)

lemma lock_inv_step:
  assumes "lock_step s s'" and "lock_inv s"
  shows "lock_inv s'"
  using assms(1)
proof cases
  case (request t p m r)
  note inv = lock_invD [OF assms(2)] and got = get_mutex_ok [OF lock_invD(1) [OF assms(2)] request(3)]
  show ?thesis
  proof (rule lock_invI)
    show "registry_ok (lock_registry s')" using got(1) request(1) by simp
    show "distinct (map fst (running s'))" using inv(2) request(1,2) by simp
  next
    fix t' p' m' h
    assume "(t', p', m', h) \<in> set (running s')"
    then show "file_mutexes (lock_registry s') p' = Some m'"
      using inv(3) got(2,3) request(1) by auto
  next
    fix t1 p1 m1 t2 p2
    assume "(t1, p1, m1, True) \<in> set (running s')" "(t2, p2, m1, True) \<in> set (running s')"
    then show "t1 = t2" using inv(4) request(1) by auto
  qed
next
  case (acquire t p m)
  note inv = lock_invD [OF assms(2)]
  show ?thesis
  proof (rule lock_invI)
    show "registry_ok (lock_registry s')" using inv(1) acquire(1) by simp
    show "distinct (map fst (running s'))"
      using distinct_leave [OF inv(2), of t] acquire(1) by (simp add: image_iff)
  next
    fix t' p' m' h
    assume "(t', p', m', h) \<in> set (running s')"
    then show "file_mutexes (lock_registry s') p' = Some m'"
      using inv(3) acquire(1,2) by auto
  next
    fix t1 p1 m1 t2 p2
    assume "(t1, p1, m1, True) \<in> set (running s')" "(t2, p2, m1, True) \<in> set (running s')"
    then show "t1 = t2" using inv(4) acquire(1,3) by fastforce
  qed
next
  case (release t p m)
  note inv = lock_invD [OF assms(2)]
  show ?thesis
    by (rule lock_invI) (use inv release(1) distinct_leave in auto)
next
  case cleanup
  note inv = lock_invD [OF assms(2)]
  have "registry_ok (cleanup_mutexes (use_count s) (lock_registry s))"
    using inv(1) by (auto simp: registry_ok_def cleanup_keeps)
  then show ?thesis
    by (intro lock_invI) (use inv cleanup use_count_running in \<open>auto simp: cleanup_keeps\<close>)
qed

lemma lock_inv_reachable:
  assumes "lock_step\<^sup>*\<^sup>* lock_start s"
  shows "lock_inv s"
  using assms
proof (induction rule: rtranclp_induct)
  case base
  show ?case by (simp add: lock_inv_def lock_start_def registry_ok_def new_registry_def)
next
  case (step s s')
  then show ?case using lock_inv_step by blast
qed

section \<open>Properties\<close>

text \<open>Two operations on one path: the first has locked the mutex, the second waits for it.\<close>

definition two_running :: lock_state where
  "two_running = \<lparr>lock_registry = \<lparr>file_mutexes = [''/a'' \<mapsto> 0], allocated = 1\<rparr>,
     running = [(0, ''/a'', 0, True), (1, ''/a'', 0, False)]\<rparr>"

lemma two_running_reachable: "lock_step\<^sup>*\<^sup>* lock_start two_running"
proof -
  let ?r = "\<lparr>file_mutexes = [''/a'' \<mapsto> 0], allocated = 1\<rparr>"
  let ?s1 = "\<lparr>lock_registry = ?r, running = [(0, ''/a'', 0, False)]\<rparr>"
  let ?s2 = "\<lparr>lock_registry = ?r, running = [(1, ''/a'', 0, False), (0, ''/a'', 0, False)]\<rparr>"
  have "lock_step lock_start ?s1"
    using lock_step.request [of 0 lock_start "''/a''" 0 ?r]
    by (simp add: lock_start_def new_registry_def get_mutex_def)
  moreover have "lock_step ?s1 ?s2"
    using lock_step.request [of 1 ?s1 "''/a''" 0 ?r] by (simp add: get_mutex_def)
  moreover have "lock_step ?s2 two_running"
    using lock_step.acquire [of 0 "''/a''" 0 ?s2] by (simp add: two_running_def leave_def)
  ultimately show ?thesis by (meson r_into_rtranclp rtranclp_trans)
qed

text \<open>
  C20: two operations never work on the same path at the same time, however requests, lock
  hand-overs and clean-ups of the registry are interleaved: a clean-up never drops a mutex that
  is in use, so all operations on a path that overlap share one, and only one has it locked.
\<close>
theorem path_mutual_exclusion:
  assumes "lock_step\<^sup>*\<^sup>* lock_start s"
    and "(t1, p, m1, True) \<in> set (running s)" and "(t2, p, m2, h) \<in> set (running s)" and "t1 \<noteq> t2"
  shows "m2 = m1 \<and> \<not> h"
proof -
  note inv = lock_invD [OF lock_inv_reachable [OF assms(1)]]
  have "m2 = m1" using inv(3) [OF assms(2)] inv(3) [OF assms(3)] by simp
  then show ?thesis using inv(4) [OF assms(2)] assms(3,4) by (cases h) auto
qed

theorem path_mutual_exclusion_witness:
  "(0, ''/a'', 0, True) \<in> set (running two_running) \<and> (1, ''/a'', 0, True) \<notin> set (running two_running)"
proof -
  have "(0, ''/a'', 0, True) \<in> set (running two_running)" by (simp add: two_running_def)
  with path_mutual_exclusion [OF two_running_reachable this, of 1 0 True] show ?thesis by auto
qed



end
