(* ===== verification/Meme_Properties.thy ===== *)
theory Meme_Properties
  imports Complex_Main Meme_Handler Crud_Properties
begin

text \<open>
  What the meme service promises: what is created is read back under a fresh identifier, views
  are counted and survive a restart, ratings are averaged, identifiers found on the disk are not
  given out again, requests are routed by their form; and the places where it falls short.
\<close>

section \<open>Lemmas on the module\<close>

lemma meme_path_updates [simp]:
  "meme_path (m\<lparr>store := fs\<rparr>) i = meme_path m i" "meme_path (m\<lparr>id_count := n\<rparr>) i = meme_path m i"
  "meme_path (m\<lparr>view_counts := v\<rparr>) i = meme_path m i" "meme_path (m\<lparr>ratings := r\<rparr>) i = meme_path m i"
  by (simp_all add: meme_path_def)

lemma create_meme_cases:
  "create_meme os content m = (Some i, m') \<Longrightarrow>
   i = id_count m + 1 \<and> root_dir m' = root_dir m \<and>
   (\<exists>fs1. create_directory os (meme_path m i) (store m) = (Success, fs1) \<and>
      write_file os (meme_path m i @ ''/content'') content fs1 = (Success, store m'))"
  by (auto simp: create_meme_def generate_id_def Let_def split: prod.splits if_splits)

lemma create_meme_count: "create_meme os content m = (r, m') \<Longrightarrow> id_count m' = id_count m + 1"
  by (auto simp: create_meme_def generate_id_def Let_def split: prod.splits if_splits)

lemma create_meme_result:
  "create_meme os content m = (r, m') \<Longrightarrow> r = None \<or> r = Some (id_count m + 1)"
  by (auto simp: create_meme_def generate_id_def Let_def split: prod.splits if_splits)

lemma get_content_written:
  assumes "os_laws os" and "write_file os (meme_path m i @ ''/content'') content fs = (Success, store m)"
  shows "fst (get_content os i m) = content"
proof -
  obtain fs' where "read_file os (meme_path m i @ ''/content'') [] (store m) = (Success, content, fs')"
    using files.read_written [OF assms] by blast
  then show ?thesis by (simp add: get_content_def)
qed

lemma increment_views:
  "increment_view_count os i m = (Inr u, m') \<Longrightarrow>
   view_counts m' = (view_counts m)(sint i \<mapsto> (case view_counts m (sint i) of Some c \<Rightarrow> c + 1 | None \<Rightarrow> 1)) \<and>
   in_int_range (case view_counts m (sint i) of Some c \<Rightarrow> c + 1 | None \<Rightarrow> 1) \<and>
   ratings m' = ratings m \<and> root_dir m' = root_dir m \<and>
   store m' = snd (write_file os (meme_path m i @ ''/views'')
     (int_to_string (case view_counts m (sint i) of Some c \<Rightarrow> c + 1 | None \<Rightarrow> 1)) (store m))"
  by (auto simp: increment_view_count_def Let_def split: if_splits)

lemma make_meme_fields:
  "make_meme P content v r = Inr x \<Longrightarrow> meme_content x = content \<and> view_count x = v \<and> rating x = r"
  by (auto simp: make_meme_def Let_def and_then_Inr_iff)

lemma get_content_tables [simp]:
  "view_counts (snd (get_content os i m)) = view_counts m" "ratings (snd (get_content os i m)) = ratings m"
  by (simp_all add: get_content_def split: prod.split)

lemma get_meme_cases:
  assumes "get_meme os P i m = (Inr (Some x), m')"
  obtains m1 where "increment_view_count os i m = (Inr (), m1)" and "m' = snd (get_content os i m1)"
    and "meme_content x = fst (get_content os i m1)" and "view_count x = get_view_count i m'"
    and "rating x = get_rating P i m'"
proof -
  from assms have e: "exist os (meme_path m i) (store m)" "os_is_directory os (disk_of (store m)) (meme_path m i)"
    by (auto simp: get_meme_def split: if_splits)
  obtain r m1 where inc: "increment_view_count os i m = (r, m1)"
    by (cases "increment_view_count os i m")
  with assms e have r: "r = Inr ()" by (auto simp: get_meme_def split: sum.splits)
  obtain c m2 where c: "get_content os i m1 = (c, m2)" by (cases "get_content os i m1")
  with assms e inc r have "c \<noteq> []" "m' = m2" "make_meme P c (get_view_count i m2) (get_rating P i m2) = Inr x"
    by (auto simp: get_meme_def and_then_Inr_iff split: if_splits)
  with make_meme_fields [of P c] inc r c show ?thesis by (intro that [of m1]) auto
qed

section \<open>Runs of operations\<close>

fun create_memes ::
    "'w os \<Rightarrow> string list \<Rightarrow> ('w, 'f) meme_module \<Rightarrow> meme_id option list \<times> ('w, 'f) meme_module" where
  "create_memes os [] m = ([], m)"
| "create_memes os (c # cs) m =
     (case create_meme os c m of
        (r, m1) \<Rightarrow> (case create_memes os cs m1 of (rs, m2) \<Rightarrow> (r # rs, m2)))"

fun rate_all ::
    "'w os \<Rightarrow> 'f platform \<Rightarrow> meme_id \<Rightarrow> int list \<Rightarrow> ('w, 'f) meme_module \<Rightarrow> unit result \<times> ('w, 'f) meme_module"
where
  "rate_all os P i [] m = (Inr (), m)"
| "rate_all os P i (r # rs) m =
     (case add_rating os P i r m of
        (Inl e, m1) \<Rightarrow> (Inl e, m1)
      | (Inr _, m1) \<Rightarrow> rate_all os P i rs m1)"

lemma create_memes_ids:
  "create_memes os cs m = (rs, m') \<Longrightarrow> k < length cs \<Longrightarrow>
   length rs = length cs \<and> (rs ! k = None \<or> rs ! k = Some (id_count m + of_nat k + 1))"
proof (induction cs arbitrary: k m rs)
  case Nil
  then show ?case by simp
next
  case (Cons c cs)
  obtain r m1 where r: "create_meme os c m = (r, m1)" by (cases "create_meme os c m")
  obtain rs1 m2 where rs: "create_memes os cs m1 = (rs1, m2)" by (cases "create_memes os cs m1")
  from Cons.prems(1) r rs have parts: "rs = r # rs1" "m' = m2" by simp_all
  note count = create_meme_count [OF r] and res = create_meme_result [OF r]
  show ?case
  proof (cases k)
    case 0
    have "length rs1 = length cs"
    proof (cases cs)
      case Nil
      with rs show ?thesis by simp
    next
      case (Cons x xs)
      with Cons.IH [of m1 rs1 0] rs parts show ?thesis by simp
    qed
    with 0 parts res show ?thesis by simp
  next
    case (Suc j)
    with Cons.IH [of m1 rs1 j] Cons.prems(2) rs parts count show ?thesis
      by (simp add: algebra_simps)
  qed
qed

text \<open>Platforms whose \<open>float\<close> is exact.\<close>

definition exact :: "'f::field_char_0 platform \<Rightarrow> bool" where
  "exact P \<longleftrightarrow> float_of_int P = of_int \<and> float_plus P = (+) \<and> float_times P = (*) \<and> float_divide P = (/)"

lemma next_rating_exact:
  assumes "exact P" and "0 \<le> n"
  shows "next_rating P (Some (n, of_int s / of_int n)) r = (n + 1, of_int (s + r) / of_int (n + 1)) \<or> n = 0"
  using assms by (cases "n = 0") (simp_all add: next_rating_def exact_def)

lemma add_rating_table:
  "in_int_range (fst (next_rating P (ratings m (sint i)) r)) \<Longrightarrow>
   \<exists>m1. add_rating os P i r m = (Inr (), m1) \<and>
     ratings m1 = (ratings m)(sint i \<mapsto> next_rating P (ratings m (sint i)) r)"
  by (auto simp: add_rating_def Let_def split: prod.split)

lemma rate_all_exact:
  assumes "exact P" and "0 < n" and "n + int (length rs) < 2 ^ 31"
    and "ratings m (sint i) = Some (n, of_int s / of_int n)"
  shows "\<exists>m'. rate_all os P i rs m = (Inr (), m') \<and>
    ratings m' (sint i) = Some (n + int (length rs), of_int (s + sum_list rs) / of_int (n + int (length rs)))"
  using assms(2-4)
proof (induction rs arbitrary: m n s)
  case Nil
  then show ?case by simp
next
  case (Cons r rs)
  have nr: "next_rating P (ratings m (sint i)) r = (n + 1, of_int (s + r) / of_int (n + 1))"
    using next_rating_exact [OF assms(1), of n s r] Cons.prems by simp
  then have "in_int_range (fst (next_rating P (ratings m (sint i)) r))"
    using Cons.prems(1,2) by (simp add: in_int_range_def)
  from add_rating_table [OF this, of os] obtain m1 where
    m1: "add_rating os P i r m = (Inr (), m1)"
    and "ratings m1 = (ratings m)(sint i \<mapsto> next_rating P (ratings m (sint i)) r)"
    by blast
  then have "ratings m1 (sint i) = Some (n + 1, of_int (s + r) / of_int (n + 1))" by (simp only: nr fun_upd_same)
  with m1 Cons.IH [of "n + 1" m1 "s + r"] Cons.prems show ?case by (simp add: algebra_simps)
qed

section \<open>Loading\<close>

lemma load_views_keeps:
  "id_count (load_views os path i m) = id_count m \<and> root_dir (load_views os path i m) = root_dir m \<and>
   disk_of (store (load_views os path i m)) = disk_of (store m)"
proof -
  obtain st c fs where r: "read_file os (path @ ''/views'') [] (store m) = (st, c, fs)"
    by (cases "read_file os (path @ ''/views'') [] (store m)")
  have "disk_of fs = disk_of (store m)" by (rule files.read_view [OF r])
  then show ?thesis by (simp add: load_views_def r Let_def)
qed

lemma load_ratings_keeps:
  assumes "load_ratings os P path i m = Inr m'"
  shows "id_count m' = id_count m \<and> root_dir m' = root_dir m \<and> disk_of (store m') = disk_of (store m)"
proof -
  obtain st c fs where r: "read_file os (path @ ''/ratings'') [] (store m) = (st, c, fs)"
    by (cases "read_file os (path @ ''/ratings'') [] (store m)")
  have "disk_of fs = disk_of (store m)" by (rule files.read_view [OF r])
  with assms show ?thesis
    by (auto simp: load_ratings_def r Let_def and_then_Inr_iff split: if_splits prod.splits)
qed

definition same_place :: "('w, 'f) meme_module \<Rightarrow> ('w, 'f) meme_module \<Rightarrow> bool" where
  \<comment> \<open>loading moves only the count, upwards\<close>
  "same_place m m' \<longleftrightarrow> id_count m \<le> id_count m' \<and> root_dir m' = root_dir m \<and> disk_of (store m') = disk_of (store m)"

lemma load_entry_place:
  assumes "load_entry os P junk path m = Inr m'"
  shows "same_place m m'"
proof (cases "os_is_directory os (disk_of (store m)) path")
  case True
  with assms obtain i where "load_ratings os P path i (load_views os path i
      (if id_count m < i then m\<lparr>id_count := i\<rparr> else m)) = Inr m'"
    by (auto simp: load_entry_def Let_def and_then_Inr_iff)
  from load_ratings_keeps [OF this] show ?thesis
    by (auto simp: same_place_def load_views_keeps)
next
  case False
  with assms show ?thesis by (simp add: load_entry_def same_place_def)
qed

lemma load_entry_count:
  assumes "load_entry os P junk (root_dir m @ ''/'' @ name) m = Inr m'" and "stoul name = Inr i"
    and "os_is_directory os (disk_of (store m)) (root_dir m @ ''/'' @ name)"
  shows "i \<le> id_count m'"
proof -
  let ?m = "if id_count m < i then m\<lparr>id_count := i\<rparr> else m"
  have "substr (root_dir m @ ''/'' @ name) (length (root_dir m) + 1) None = Inr name"
    by (simp add: substr_def)
  with assms(2,3) have "load_entry os P junk (root_dir m @ ''/'' @ name) m =
      load_ratings os P (root_dir m @ ''/'' @ name) i (load_views os (root_dir m @ ''/'' @ name) i ?m)"
    unfolding load_entry_def Let_def by (simp only: and_then_simps sum.case not_True_eq_False if_False)
  with assms(1) have "load_ratings os P (root_dir m @ ''/'' @ name) i
      (load_views os (root_dir m @ ''/'' @ name) i ?m) = Inr m'" by (simp only:)
  from load_ratings_keeps [OF this] load_views_keeps [of os _ i ?m] have "id_count m' = id_count ?m" by simp
  then show ?thesis by auto
qed

lemma load_entries_count:
  assumes "load_entries os P junk es m = Inr m'"
  shows "same_place m m'"
    and "(root_dir m @ ''/'' @ name, n) \<in> set es \<Longrightarrow> stoul name = Inr i \<Longrightarrow>
      os_is_directory os (disk_of (store m)) (root_dir m @ ''/'' @ name) \<Longrightarrow> i \<le> id_count m'"
proof -
  have "same_place m m' \<and> ((root_dir m @ ''/'' @ name, n) \<in> set es \<longrightarrow> stoul name = Inr i \<longrightarrow>
      os_is_directory os (disk_of (store m)) (root_dir m @ ''/'' @ name) \<longrightarrow> i \<le> id_count m')"
    using assms
  proof (induction es arbitrary: m)
    case Nil
    then show ?case by (simp add: same_place_def)
  next
    case (Cons e es)
    obtain path k where e: "e = (path, k)" by (cases e)
    from Cons.prems e obtain m1 where m1: "load_entry os P junk path m = Inr m1"
      and rest: "load_entries os P junk es m1 = Inr m'"
      by (auto simp: and_then_Inr_iff)
    note place = load_entry_place [OF m1] and IH = Cons.IH [OF rest]
    have "i \<le> id_count m1" if "path = root_dir m @ ''/'' @ name" "stoul name = Inr i"
      "os_is_directory os (disk_of (store m)) (root_dir m @ ''/'' @ name)"
      using load_entry_count [OF m1 [unfolded that(1)] that(2,3)] .
    with place IH e show ?case
      unfolding same_place_def by (auto dest: order_trans)
  qed
  then show "same_place m m'"
    and "(root_dir m @ ''/'' @ name, n) \<in> set es \<Longrightarrow> stoul name = Inr i \<Longrightarrow>
      os_is_directory os (disk_of (store m)) (root_dir m @ ''/'' @ name) \<Longrightarrow> i \<le> id_count m'" by blast+
qed

section \<open>Routing\<close>

lemma number_not_keyword:
  "stoi e \<noteq> Inl Invalid_argument \<Longrightarrow>
   e \<noteq> ''creation_form'' \<and> e \<noteq> ''random'' \<and> e \<noteq> ''all'' \<and> e \<noteq> ''comment_form''"
proof -
  have "stoi ''creation_form'' = Inl Invalid_argument" "stoi ''random'' = Inl Invalid_argument"
    "stoi ''all'' = Inl Invalid_argument" "stoi ''comment_form'' = Inl Invalid_argument"
    by code_simp+
  then show "stoi e \<noteq> Inl Invalid_argument \<Longrightarrow> ?thesis" by metis
qed

lemma check_number_target:
  assumes "name_part e"
  shows "check_number convert (base @ slash # e) url =
    (case convert e of
       Inr _ \<Rightarrow> Inr (base @ [slash] = url)
     | Inl x \<Rightarrow> if x = Invalid_argument then Inr False else Inl x)"
proof -
  have "substr (base @ slash # e) (Suc (length base)) None = Inr e" by (simp add: substr_def)
  moreover have "rfind_char slash (base @ slash # e) = Some (length base)" using assms by (rule rfind_target)
  ultimately show ?thesis by (simp add: check_number_def split: sum.split)
qed

lemma target_last:
  assumes "name_part e" and "base @ slash # e = location @ slash # k" and "slash \<notin> set k"
  shows "e = k"
  using assms by (metis after_last_append name_part_def)

section \<open>An example\<close>

definition memes_disk :: disk where
  "memes_disk = [(''/memes/7/views'', Some ''41''), (''/memes/7/content'', Some ''c''),
     (''/memes/7'', None), (''/memes'', None)]"

definition memes :: "(disk, int) meme_module" where
  \<comment> \<open>what the constructor loads from that disk\<close>
  "memes = \<lparr>root_dir = ''/memes'', id_count = 7, view_counts = [7 \<mapsto> 41], ratings = (\<lambda>_. None),
     store = \<lparr>registry_of = new_registry, disk_of = memes_disk\<rparr>\<rparr>"

section \<open>Properties\<close>

text \<open>
  Creating a meme that succeeds uses the identifier after the last one, under a directory
  that did not exist, and the content read under that identifier is the text posted.
\<close>
lemma created_meme_readable:
  assumes "os_laws os" and "create_meme os content m = (Some i, m')"
  shows "i = id_count m + 1 \<and> \<not> exist os (meme_path m i) (store m) \<and> fst (get_content os i m') = content"
proof -
  from create_meme_cases [OF assms(2)] obtain fs1 where i: "i = id_count m + 1" "root_dir m' = root_dir m"
    and dir: "create_directory os (meme_path m i) (store m) = (Success, fs1)"
    and wr: "write_file os (meme_path m i @ ''/content'') content fs1 = (Success, store m')" by blast
  have "meme_path m i = meme_path m' i" using i(2) by (simp add: meme_path_def)
  with wr get_content_written [OF assms(1)] have "fst (get_content os i m') = content" by simp
  with i(1) files.make_dir_new [OF dir] show ?thesis by simp
qed

text \<open>
  C32: as long as fewer than 2^32 memes have been created, identifiers are never given out twice:
  the successful creations of any run, failures in between or not, have pairwise different
  identifiers, all above the last one before.
\<close>
theorem created_ids_distinct:
  assumes "create_memes os cs m = (rs, m')" and "unat (id_count m) + length cs < 2 ^ 32"
    and "j < k" and "k < length cs" and "rs ! j = Some i1" and "rs ! k = Some i2"
  shows "id_count m < i1 \<and> i1 < i2"
proof -
  have i1: "i1 = id_count m + of_nat j + 1" and i2: "i2 = id_count m + of_nat k + 1"
    using create_memes_ids [OF assms(1), of j] create_memes_ids [OF assms(1), of k] assms(3-6) by auto
  have small: "unat (id_count m + of_nat n + 1) = unat (id_count m) + n + 1" if "n < length cs" for n
  proof -
    have "id_count m + of_nat n + 1 = word_of_nat (unat (id_count m) + n + 1)" by simp
    moreover have "unat (id_count m) + n + 1 < 2 ^ 32" using assms(2) that by simp
    ultimately show ?thesis by (simp only: unat_of_nat len_num1 len_bit0 mod_less) simp
  qed
  have "unat i1 = unat (id_count m) + j + 1" "unat i2 = unat (id_count m) + k + 1"
    using small [of j] small [of k] assms(3,4) i1 i2 by simp_all
  with assms(3) show ?thesis by (simp add: word_less_nat_alt)
qed

theorem created_ids_distinct_witness:
  "fst (create_memes sample_os [''a'', ''b''] memes) = [Some 8, Some 9] \<and> (7 :: meme_id) < 8 \<and> (8 :: meme_id) < 9"
proof -
  have rs: "fst (create_memes sample_os [''a'', ''b''] memes) = [Some 8, Some 9]" by code_simp
  from run_result [OF this] obtain m' where r: "create_memes sample_os [''a'', ''b''] memes = ([Some 8, Some 9], m')"
    by blast
  have "unat (id_count memes) + length [''a'', ''b''] < 2 ^ 32" "(0::nat) < 1" "1 < length [''a'', ''b'']"
    "[Some 8, Some (9 :: meme_id)] ! 0 = Some 8" "[Some 8, Some (9 :: meme_id)] ! 1 = Some 9"
    by (simp_all add: memes_def)
  from created_ids_distinct [OF r this] rs show ?thesis by (simp add: memes_def)
qed

text \<open>
  Showing a meme counts exactly one view, of that meme and no other, and the number shown
  includes it; the count on the disk, when it could be written, is what a restart loads.
\<close>
lemma view_counted:
  assumes "os_laws os" and "get_meme os P i m = (Inr (Some x), m')"
  shows "view_count x = (case view_counts m (sint i) of None \<Rightarrow> 1 | Some c \<Rightarrow> c + 1) \<and>
    view_counts m' = (view_counts m)(sint i \<mapsto> view_count x) \<and>
    (\<forall>w w'. os_write os w (meme_path m i @ ''/views'') (int_to_string (view_count x)) = Some w' \<longrightarrow>
      view_counts (load_views os (meme_path m i) i (m0\<lparr>store := \<lparr>registry_of = r, disk_of = w'\<rparr>\<rparr>)) (sint i) =
        Some (view_count x))"
proof -
  from get_meme_cases [OF assms(2)] obtain m1 where inc: "increment_view_count os i m = (Inr (), m1)"
    and m': "m' = snd (get_content os i m1)" and v: "view_count x = get_view_count i m'" by metis
  let ?n = "case view_counts m (sint i) of None \<Rightarrow> 1 | Some c \<Rightarrow> c + 1"
  have tab: "view_counts m' = (view_counts m)(sint i \<mapsto> ?n)" and range: "in_int_range ?n"
    using increment_views [OF inc] m' by simp_all
  then have n: "view_count x = ?n" using v by (simp add: get_view_count_def)
  then have "stream_int (int_to_string (view_count x)) = view_count x"
    using range by (simp add: stream_int_def in_int_range_def)
  then have "view_counts (load_views os (meme_path m i) i (m0\<lparr>store := \<lparr>registry_of = r, disk_of = w'\<rparr>\<rparr>)) (sint i) =
      Some (view_count x)"
    if "os_write os w (meme_path m i @ ''/views'') (int_to_string (view_count x)) = Some w'" for w w'
    using os_lawsD(1,2) [OF assms(1) that]
    by (simp add: load_views_def read_file_def exist_def Let_def lock_path_def)
  with n tab show ?thesis by simp
qed

text \<open>
  C33: after any number of ratings of a meme that had none, the table holds their number and, when
  \<open>float\<close> arithmetic is exact, their mean (the incremental formula of \<open>add_rating\<close> is right).
\<close>
theorem ratings_are_averaged:
  assumes "exact P" and "ratings m (sint i) = None" and "rs \<noteq> []" and "length rs < 2 ^ 31"
  shows "\<exists>m'. rate_all os P i rs m = (Inr (), m') \<and>
    ratings m' (sint i) = Some (int (length rs), of_int (sum_list rs) / of_int (int (length rs)))"
proof -
  obtain r rs' where rs: "rs = r # rs'" using assms(3) by (cases rs) auto
  have first: "next_rating P (ratings m (sint i)) r = (1, of_int r / of_int 1)"
    using assms(1,2) by (simp add: next_rating_def exact_def)
  then have "in_int_range (fst (next_rating P (ratings m (sint i)) r))" by (simp add: in_int_range_def)
  from add_rating_table [OF this, of os] obtain m1 where
    m1: "add_rating os P i r m = (Inr (), m1)"
    and "ratings m1 = (ratings m)(sint i \<mapsto> next_rating P (ratings m (sint i)) r)"
    by blast
  then have "ratings m1 (sint i) = Some (1, of_int r / of_int 1)" by (simp only: first fun_upd_same)
  moreover have "1 + int (length rs') < 2 ^ 31" using assms(4) rs by simp
  ultimately show ?thesis
    using rate_all_exact [OF assms(1), of 1 rs' m1 i r os] m1 by (simp add: rs)
qed

definition rational_platform :: "rat platform" where
  "rational_platform =
     \<lparr>float_of_int = of_int, float_plus = (+), float_times = (*), float_divide = (/), float_less = (<),
      float_to_string = (\<lambda>_. []), stof = (\<lambda>s. map_sum id of_int (stoi s)),
      read_json = (\<lambda>_. None), write_info = (\<lambda>_ _ _. [])\<rparr>"

definition no_memes :: "(disk, rat) meme_module" where
  "no_memes = \<lparr>root_dir = ''/memes'', id_count = 0, view_counts = (\<lambda>_. None), ratings = (\<lambda>_. None),
     store = \<lparr>registry_of = new_registry, disk_of = [(''/memes'', None)]\<rparr>\<rparr>"

theorem ratings_are_averaged_witness:
  "\<exists>m'. rate_all sample_os rational_platform 1 [5, 4] no_memes = (Inr (), m') \<and>
     ratings m' 1 = Some (2, 9 / 2)"
proof -
  have "exact rational_platform" "ratings no_memes (sint (1 :: meme_id)) = None" "[5, 4 :: int] \<noteq> []"
    "length [5, 4 :: int] < 2 ^ 31"
    by (simp_all add: exact_def rational_platform_def no_memes_def)
  from ratings_are_averaged [OF this, of sample_os] show ?thesis by simp
qed

text \<open>
  The constructor takes every identifier it can read among the directories of the root into
  account, so that the identifiers given out after a restart are above them.
\<close>
lemma loaded_ids_bounded:
  assumes "new_meme_module os P junk dir fs = Inr m"
    and "os_exists os (disk_of fs) dir" and "os_is_directory os (disk_of fs) dir"
    and "(dir @ ''/'' @ name, file_name) \<in> set (os_entries os (disk_of fs) dir)"
    and "os_is_directory os (disk_of fs) (dir @ ''/'' @ name)" and "stoul name = Inr i"
  shows "i \<le> id_count m"
proof -
  let ?m0 = "\<lparr>root_dir = dir, id_count = 0, view_counts = (\<lambda>_. None), ratings = (\<lambda>_. None), store = fs\<rparr>"
  have "load_entries os P junk (os_entries os (disk_of fs) dir) ?m0 = Inr m"
    using assms(1-3) by (simp add: new_meme_module_def Let_def)
  from load_entries_count(2) [OF this _ assms(6), of file_name] assms(4,5) show ?thesis by simp
qed

text \<open>
  A comment on a meme that does not exist is answered 201: its rating is entered into the
  table of ratings, and neither the comment nor the rating reaches the disk.
\<close>
lemma comment_on_missing_meme:
  assumes "payload_law b" and "make_comment P (req_body req) = Inr c"
    and "stoi (comment_id c) = Inr i" and "stoi (comment_rating c) = Inr r"
    and "ratings m (sint (word_of_int i :: meme_id)) = None"
    and "\<not> exist os (meme_path m (word_of_int i)) (store m)"
    and "\<And>t. os_write os (disk_of (store m)) (meme_path m (word_of_int i) @ ''/ratings'') t = None"
  shows "\<exists>res' m'. handle_post_comment b os P uuid req res m = (Inr Created, res', m') \<and>
    res_result res' = Created \<and> res_body res' = ''Successfully posted comment.'' \<and>
    ratings m' (sint (word_of_int i :: meme_id)) = Some (1, float_of_int P r) \<and>
    disk_of (store m') = disk_of (store m)"
proof -
  have n: "next_rating P None r = (1, float_of_int P r)" by (simp add: next_rating_def)
  from assms(1,5-7) show ?thesis
    by (simp add: handle_post_comment_def assms(2-4) add_rating_def n in_int_range_def Let_def
        add_comment_def exist_def write_file_def)
qed

text \<open>
  A GET of a number directly below the location, below \<open>info\<close> or below \<open>get_by_views\<close> goes to
  the handler of that form, whatever the location is.
\<close>
lemma numbered_targets_routed:
  assumes "name_part e" and "stoi e = Inr i"
    and "req_target req1 = location @ ''/'' @ e" and "req_target req2 = location @ ''/info/'' @ e"
    and "req_target req3 = location @ ''/get_by_views/'' @ e"
  shows "handle_get b os P rnd location req1 res m = handle_get_meme_by_id b os P location req1 res m \<and>
    handle_get b os P rnd location req2 res m = handle_get_other_info_by_id b os P req2 res m \<and>
    handle_get b os P rnd location req3 res m = handle_get_meme_by_views b location req3 res m"
proof -
  have k: "e \<noteq> ''creation_form''" "e \<noteq> ''random''" "e \<noteq> ''all''" "e \<noteq> ''comment_form''"
    using number_not_keyword [of e] assms(2) by simp_all
  have f: "check_format (location @ slash # e) url = Inr (location @ [slash] = url)"
    "check_format (location @ slash # ''info'' @ slash # e) url = Inr (location @ slash # ''info'' @ [slash] = url)"
    "check_format (location @ slash # ''get_by_views'' @ slash # e) url =
       Inr (location @ slash # ''get_by_views'' @ [slash] = url)" for url
    using check_number_target [OF assms(1), of stoi location url]
      check_number_target [OF assms(1), of stoi "location @ slash # ''info''" url]
      check_number_target [OF assms(1), of stoi "location @ slash # ''get_by_views''" url]
    by (simp_all add: check_format_def assms(2))
  show ?thesis
    using k f [of "location @ ''/''"] f [of "location @ ''/info/''"] f [of "location @ ''/get_by_views/''"]
    by (simp add: handle_get_def assms(3-5) Let_def)
qed

text \<open>
  A GET whose last path element starts with a number that does not fit an \<open>int\<close> throws, in
  whatever part of the service: the first format check lets \<open>out_of_range\<close> through. That includes
  every search for ratings above such a number.
\<close>
lemma large_number_escapes:
  assumes "name_part e" and "stoi e = Inl Out_of_range"
    and "req_method req = Verb_get" and "req_target req = base @ slash # e"
  shows "meme_handle_request b os P rnd uuid location req res m = (Inl Out_of_range, res, m)"
proof -
  have "e \<noteq> ''creation_form''" "e \<noteq> ''random''" "e \<noteq> ''all''"
    using number_not_keyword [of e] assms(2) by simp_all
  then have "req_target req \<noteq> location @ ''/creation_form''" "req_target req \<noteq> location @ ''/random''"
    "req_target req \<noteq> location @ ''/all''"
    using target_last [OF assms(1), of base] assms(4) by auto
  moreover have "check_format (req_target req) (location @ ''/'') = Inl Out_of_range"
    using check_number_target [OF assms(1), of stoi base] assms(2,4) by (simp add: check_format_def)
  ultimately show ?thesis using assms(3) by (simp add: meme_handle_request_def handle_get_def Let_def)
qed

end
