(* ===== verification/Meme_Board.thy ===== *)
theory Meme_Board
  imports Meme_Properties
begin

text \<open>
  The meme service against its abstract specification, a board: which memes there are, their texts,
  views and votes, and the remarks filed with them. \<open>board_of\<close> reads a board off the module's
  tables and the disk; every POST of a meme, GET of a meme and POST of a comment that is answered
  is the step of the board that its status announces.
\<close>

section \<open>The board\<close>

record 'f board =
  there :: "meme_id \<Rightarrow> bool"
  texts :: "meme_id \<Rightarrow> string option"
  views :: "meme_id \<Rightarrow> int option"
  votes :: "meme_id \<Rightarrow> (int \<times> 'f) option"
  remarks :: "meme_id \<times> string \<Rightarrow> string option"

datatype board_op =
    Post_meme string
  | Show_meme int
  | Post_comment string

fun board_request :: "string \<Rightarrow> board_op \<Rightarrow> request" where
  "board_request location (Post_meme c) = crud_request Verb_post location c"
| "board_request location (Show_meme n) = crud_request Verb_get (location @ slash # int_to_string n) []"
| "board_request location (Post_comment c) = crud_request Verb_post (location @ ''/comment'') c"

definition count_view :: "meme_id \<Rightarrow> 'f board \<Rightarrow> 'f board" where
  "count_view i B = B\<lparr>views := (views B)(i \<mapsto> (case views B i of Some k \<Rightarrow> k + 1 | None \<Rightarrow> 1))\<rparr>"

fun board_step ::
    "'f platform \<Rightarrow> string \<Rightarrow> string \<Rightarrow> 'f board \<Rightarrow> board_op \<Rightarrow> status \<Rightarrow> string \<Rightarrow> 'f board \<Rightarrow> bool" where
  \<comment> \<open>the board before, the request, the status and the body of the answer, the board after;
    \<open>uuid\<close> is the name a comment is filed under\<close>
  "board_step P location uuid B (Post_meme c) Created answer B' =
     (\<exists>i. \<not> there B i \<and> answer = ''Successfully created meme '' @ nat_to_string (unat i) @ ''.'' \<and>
        B' = B\<lparr>there := (there B)(i := True), texts := (texts B)(i \<mapsto> c)\<rparr>)"
| "board_step P location uuid B (Post_meme c) Internal_server_error answer B' =
     (B' = B \<or> (\<exists>i. \<not> there B i \<and> B' = B\<lparr>there := (there B)(i := True)\<rparr>))"
| "board_step P location uuid B (Show_meme n) Status_ok answer B' =
     (\<exists>c v r x. there B (word_of_int n) \<and> texts B (word_of_int n) = Some c \<and>
        B' = count_view (word_of_int n) B \<and> views B' (word_of_int n) = Some v \<and>
        r = (case votes B (word_of_int n) of Some (_, r) \<Rightarrow> r | None \<Rightarrow> float_of_int P (- 1)) \<and>
        make_meme P c v r = Inr x \<and> answer = meme_page location n x)"
| "board_step P location uuid B (Show_meme n) Internal_server_error answer B' =
     (B' = B \<or> there B (word_of_int n) \<and> texts B (word_of_int n) \<in> {None, Some []} \<and>
        B' = count_view (word_of_int n) B)"
| "board_step P location uuid B (Post_comment c) Created answer B' =
     (\<exists>x i r. make_comment P c = Inr x \<and> stoi (comment_id x) = Inr i \<and> stoi (comment_rating x) = Inr r \<and>
        answer = ''Successfully posted comment.'' \<and>
        (B' = B\<lparr>votes := (votes B)(word_of_int i \<mapsto> next_rating P (votes B (word_of_int i)) r)\<rparr> \<or>
         there B (word_of_int i) \<and>
         B' = B\<lparr>votes := (votes B)(word_of_int i \<mapsto> next_rating P (votes B (word_of_int i)) r),
               remarks := (remarks B)((word_of_int i, uuid) \<mapsto> c)\<rparr>))"
| "board_step P location uuid B (Post_comment c) Not_found answer B' = (B' = B)"
| "board_step P location uuid B _ _ answer B' = False"

section \<open>The abstraction\<close>

text \<open>
  The paths the service uses, in the one spelling it uses. Two of them that differ as texts name
  different files, so a change of one leaves the others alone.
\<close>

definition item_path :: "string \<Rightarrow> meme_id \<Rightarrow> string \<Rightarrow> string" where
  "item_path dir i x = dir @ ''/'' @ nat_to_string (unat i) @ x"

definition remark_item :: "string \<Rightarrow> string" where
  "remark_item u = ''/comments/'' @ u"

definition item :: "string \<Rightarrow> bool" where
  "item x \<longleftrightarrow> x \<in> {[], ''/content'', ''/views'', ''/ratings'', ''/comments''} \<or>
     (\<exists>u. name_part u \<and> x = remark_item u)"

definition path_frame :: "'w os \<Rightarrow> string \<Rightarrow> bool" where
  "path_frame os dir \<longleftrightarrow>
     (\<forall>i x j y w w' c. item x \<and> item y \<and> item_path dir i x \<noteq> item_path dir j y \<longrightarrow>
        os_write os w (item_path dir i x) c = Some w' \<or> os_create_directory os w (item_path dir i x) = Some w' \<longrightarrow>
        os_exists os w' (item_path dir j y) = os_exists os w (item_path dir j y) \<and>
        os_read os w' (item_path dir j y) = os_read os w (item_path dir j y))"

definition there_on :: "'w os \<Rightarrow> string \<Rightarrow> 'w \<Rightarrow> meme_id \<Rightarrow> bool" where
  "there_on os dir w i = os_exists os w (item_path dir i [])"

definition text_on :: "'w os \<Rightarrow> string \<Rightarrow> 'w \<Rightarrow> meme_id \<Rightarrow> string option" where
  "text_on os dir w i =
     (if os_exists os w (item_path dir i ''/content'') then os_read os w (item_path dir i ''/content'') else None)"

definition remark_on :: "'w os \<Rightarrow> string \<Rightarrow> 'w \<Rightarrow> meme_id \<times> string \<Rightarrow> string option" where
  "remark_on os dir w = (\<lambda>(i, u).
     if name_part u then os_read os w (item_path dir i (remark_item u)) else None)"

definition board_of :: "'w os \<Rightarrow> ('w, 'f) meme_module \<Rightarrow> 'f board" where
  "board_of os m =
     \<lparr>there = there_on os (root_dir m) (disk_of (store m)), texts = text_on os (root_dir m) (disk_of (store m)),
      views = (\<lambda>i. view_counts m (sint i)), votes = (\<lambda>i. ratings m (sint i)),
      remarks = remark_on os (root_dir m) (disk_of (store m))\<rparr>"

lemma items [simp]:
  "item []" "item ''/content''" "item ''/views''" "item ''/ratings''" "item ''/comments''"
  "name_part u \<Longrightarrow> item (remark_item u)"
  by (auto simp: item_def)

lemma remark_item_new [simp]:
  "remark_item u \<noteq> []" "remark_item u \<noteq> ''/content''" "remark_item u \<noteq> ''/views''"
  "remark_item u \<noteq> ''/ratings''" "remark_item u \<noteq> ''/comments''"
  "remark_item u = remark_item v \<longleftrightarrow> u = v"
  by (auto simp: remark_item_def name_part_def)

lemmas remark_item_new' [simp] = remark_item_new(1-5) [symmetric]

lemma meme_path_item: "meme_path m i @ x = item_path (root_dir m) i x" "meme_path m i = item_path (root_dir m) i []"
  by (simp_all add: meme_path_def item_path_def)

lemma item_no_digit: "item x \<Longrightarrow> x = [] \<or> \<not> is_digit (hd x)"
  by (auto simp: item_def remark_item_def is_digit_def)

lemma item_path_eq [simp]:
  assumes "item x" and "item y"
  shows "item_path dir i x = item_path dir j y \<longleftrightarrow> i = j \<and> x = y"
proof
  assume "item_path dir i x = item_path dir j y"
  then have eq: "nat_to_string (unat i) @ x = nat_to_string (unat j) @ y" by (simp add: item_path_def)
  from strtol_nat [OF item_no_digit [OF assms(1)]] strtol_nat [OF item_no_digit [OF assms(2)]] eq
  have "unat i = unat j" by (metis of_nat_eq_iff option.inject)
  with eq show "i = j \<and> x = y" by (simp add: word_unat_eq_iff)
qed simp

lemma frame_changed:
  assumes "path_frame os dir" and "item x" and "item y" and "(i, x) \<noteq> (j, y)"
    and "os_write os w (item_path dir i x) c = Some w' \<or> os_create_directory os w (item_path dir i x) = Some w'"
  shows "os_exists os w' (item_path dir j y) = os_exists os w (item_path dir j y)"
    and "os_read os w' (item_path dir j y) = os_read os w (item_path dir j y)"
proof -
  have "item_path dir i x \<noteq> item_path dir j y" using assms(2-4) by simp
  with assms(1) [unfolded path_frame_def] assms(2,3,5)
  show "os_exists os w' (item_path dir j y) = os_exists os w (item_path dir j y)"
    and "os_read os w' (item_path dir j y) = os_read os w (item_path dir j y)" by blast+
qed

text \<open>What each change of the disk does to the three parts of the board that lie on it.\<close>

lemma wrote_table:
  assumes "path_frame os dir" and "x = ''/views'' \<or> x = ''/ratings''"
    and "os_write os w (item_path dir i x) c = Some w'"
  shows "there_on os dir w' = there_on os dir w" and "text_on os dir w' = text_on os dir w"
    and "remark_on os dir w' = remark_on os dir w"
  using assms(2) frame_changed [OF assms(1) _ _ _ disjI1 [OF assms(3)]]
  by (auto simp: there_on_def text_on_def remark_on_def fun_eq_iff)

lemma made_comments:
  assumes "path_frame os dir" and "os_create_directory os w (item_path dir i ''/comments'') = Some w'"
  shows "there_on os dir w' = there_on os dir w" and "text_on os dir w' = text_on os dir w"
    and "remark_on os dir w' = remark_on os dir w"
  using frame_changed [OF assms(1) items(5) _ _ disjI2 [OF assms(2)]]
  by (auto simp: there_on_def text_on_def remark_on_def fun_eq_iff)

lemma made_meme:
  assumes "os_laws os" and "path_frame os dir" and "os_create_directory os w (item_path dir i []) = Some w'"
  shows "there_on os dir w' = (there_on os dir w)(i := True)" and "text_on os dir w' = text_on os dir w"
    and "remark_on os dir w' = remark_on os dir w"
  using frame_changed [OF assms(2) items(1) _ _ disjI2 [OF assms(3)]] os_lawsD(4) [OF assms(1,3)]
  by (auto simp: there_on_def text_on_def remark_on_def fun_eq_iff)

lemma wrote_content:
  assumes "os_laws os" and "path_frame os dir" and "os_write os w (item_path dir i ''/content'') c = Some w'"
  shows "there_on os dir w' = there_on os dir w" and "text_on os dir w' = (text_on os dir w)(i \<mapsto> c)"
    and "remark_on os dir w' = remark_on os dir w"
  using frame_changed [OF assms(2) items(2) _ _ disjI1 [OF assms(3)]] os_lawsD(1,2) [OF assms(1,3)]
  by (auto simp: there_on_def text_on_def remark_on_def fun_eq_iff)

lemma wrote_comment:
  assumes "os_laws os" and "path_frame os dir" and "name_part u"
    and "os_write os w (item_path dir i (remark_item u)) c = Some w'"
  shows "there_on os dir w' = there_on os dir w" and "text_on os dir w' = text_on os dir w"
    and "remark_on os dir w' = (remark_on os dir w)((i, u) \<mapsto> c)"
  using frame_changed [OF assms(2) items(6) [OF assms(3)] _ _ disjI1 [OF assms(4)]] os_lawsD(1) [OF assms(1,4)]
    assms(3)
  by (auto simp: there_on_def text_on_def remark_on_def fun_eq_iff)

lemma write_file_cases:
  assumes "write_file os p c fs = (st, fs')"
  obtains "st = Success" "os_write os (disk_of fs) p c = Some (disk_of fs')"
    | "st \<noteq> Success" "disk_of fs' = disk_of fs"
  using assms by (auto simp: write_file_def Let_def split: option.splits)

lemma create_directory_cases:
  assumes "create_directory os p fs = (st, fs')"
  obtains "st = Success" "\<not> os_exists os (disk_of fs) p" "os_create_directory os (disk_of fs) p = Some (disk_of fs')"
    | "st \<noteq> Success" "disk_of fs' = disk_of fs"
  using assms by (auto simp: create_directory_def exist_def Let_def split: option.splits if_splits)

section \<open>The operations of the module\<close>

lemma create_refines:
  assumes "os_laws os" and "path_frame os (root_dir m)" and "create_meme os c m = (r, m')"
  shows "(case r of
      Some i \<Rightarrow> \<not> there (board_of os m) i \<and>
        board_of os m' = (board_of os m)\<lparr>there := (there (board_of os m))(i := True),
          texts := (texts (board_of os m))(i \<mapsto> c)\<rparr>
    | None \<Rightarrow> board_of os m' = board_of os m \<or>
        (\<exists>i. \<not> there (board_of os m) i \<and>
           board_of os m' = (board_of os m)\<lparr>there := (there (board_of os m))(i := True)\<rparr>))"
proof -
  let ?i = "id_count m + 1"
  let ?dir = "root_dir m"
  obtain st1 fs1 where d: "create_directory os (item_path ?dir ?i []) (store m) = (st1, fs1)"
    by (cases "create_directory os (item_path ?dir ?i []) (store m)")
  have p: "meme_path (m\<lparr>id_count := ?i\<rparr>) ?i = item_path ?dir ?i []" by (simp add: meme_path_item)
  obtain st2 fs2 where c: "write_file os (item_path ?dir ?i ''/content'') c fs1 = (st2, fs2)"
    by (cases "write_file os (item_path ?dir ?i ''/content'') c fs1")
  have q: "item_path ?dir ?i [] @ ''/content'' = item_path ?dir ?i ''/content''" by (simp add: item_path_def)
  have run: "create_meme os c m =
      (if st1 \<noteq> Success then (None, m\<lparr>id_count := ?i, store := fs1\<rparr>)
       else (if st2 \<noteq> Success then None else Some ?i, m\<lparr>id_count := ?i, store := fs2\<rparr>))"
    by (simp add: create_meme_def generate_id_def Let_def p [simplified] d [simplified] q [simplified] c [simplified])
  from d show ?thesis
  proof (rule create_directory_cases)
    assume "st1 \<noteq> Success" "disk_of fs1 = disk_of (store m)"
    with run assms(3) show ?thesis by (auto simp: board_of_def)
  next
    assume made: "st1 = Success" "\<not> os_exists os (disk_of (store m)) (item_path ?dir ?i [])"
      "os_create_directory os (disk_of (store m)) (item_path ?dir ?i []) = Some (disk_of fs1)"
    note parts = made_meme [OF assms(1,2) made(3)]
    from c show ?thesis
    proof (rule write_file_cases)
      assume "st2 \<noteq> Success" "disk_of fs2 = disk_of fs1"
      with run assms(3) made parts show ?thesis by (auto simp: board_of_def there_on_def)
    next
      assume "st2 = Success" "os_write os (disk_of fs1) (item_path ?dir ?i ''/content'') c = Some (disk_of fs2)"
      with run assms(3) made parts wrote_content [OF assms(1,2) this(2)] show ?thesis
        by (auto simp: board_of_def there_on_def)
    qed
  qed
qed

lemma sint_eq [simp]: "sint i = sint j \<longleftrightarrow> i = j" for i j :: meme_id
  by (metis signed_word_eqI)

lemma table_written:
  assumes "path_frame os dir" and "x = ''/views'' \<or> x = ''/ratings''"
  shows "there_on os dir (disk_of (snd (write_file os (item_path dir i x) c fs))) = there_on os dir (disk_of fs) \<and>
    text_on os dir (disk_of (snd (write_file os (item_path dir i x) c fs))) = text_on os dir (disk_of fs) \<and>
    remark_on os dir (disk_of (snd (write_file os (item_path dir i x) c fs))) = remark_on os dir (disk_of fs)"
proof -
  obtain st fs' where w: "write_file os (item_path dir i x) c fs = (st, fs')"
    by (cases "write_file os (item_path dir i x) c fs")
  then show ?thesis
    by (rule write_file_cases) (use w wrote_table [OF assms] in auto)
qed

lemma view_refines:
  assumes "path_frame os (root_dir m)" and "increment_view_count os i m = (Inr (), m')"
  shows "root_dir m' = root_dir m" and "board_of os m' = count_view i (board_of os m)"
proof -
  from assms(2) show "root_dir m' = root_dir m"
    by (auto simp: increment_view_count_def Let_def split: if_splits)
  have m': "m' = m\<lparr>view_counts := (view_counts m)(sint i \<mapsto> (case view_counts m (sint i) of Some c \<Rightarrow> c + 1 | None \<Rightarrow> 1)),
      store := snd (write_file os (item_path (root_dir m) i ''/views'')
        (int_to_string (case view_counts m (sint i) of Some c \<Rightarrow> c + 1 | None \<Rightarrow> 1)) (store m))\<rparr>"
    using assms(2) unfolding increment_view_count_def Let_def meme_path_item(1)
    by (simp split: if_splits)
  show "board_of os m' = count_view i (board_of os m)"
    unfolding m' using table_written [OF assms(1)]
    by (simp add: board_of_def count_view_def fun_eq_iff)
qed

lemma content_read:
  assumes "get_content os i m = (c, m')"
  shows "board_of os m' = board_of os m \<and> root_dir m' = root_dir m \<and>
    (if c = [] then texts (board_of os m) i \<in> {None, Some []} else texts (board_of os m) i = Some c)"
proof -
  obtain st c' fs where r: "read_file os (item_path (root_dir m) i ''/content'') [] (store m) = (st, c', fs)"
    by (cases "read_file os (item_path (root_dir m) i ''/content'') [] (store m)")
  have "disk_of fs = disk_of (store m)" by (rule files.read_view [OF r])
  moreover have "text_on os (root_dir m) (disk_of (store m)) i = (if st = Success then Some c' else None)"
    using r by (auto simp: read_file_def text_on_def exist_def Let_def split: if_splits option.splits)
  ultimately show ?thesis
    using assms r unfolding get_content_def meme_path_item(1)
    by (auto simp: board_of_def split: if_splits)
qed

lemma show_refines:
  assumes "path_frame os (root_dir m)" and "get_meme os P i m = (Inr r, m')"
  shows "case r of
      None \<Rightarrow> board_of os m' = board_of os m \<or>
        there (board_of os m) i \<and> texts (board_of os m) i \<in> {None, Some []} \<and>
        board_of os m' = count_view i (board_of os m)
    | Some x \<Rightarrow> there (board_of os m) i \<and> board_of os m' = count_view i (board_of os m) \<and>
        (\<exists>c. texts (board_of os m) i = Some c \<and>
           make_meme P c (get_view_count i m') (get_rating P i m') = Inr x)"
proof (cases "exist os (meme_path m i) (store m) \<and> os_is_directory os (disk_of (store m)) (meme_path m i)")
  case False
  with assms(2) have "m' = m \<and> r = None" by (auto simp: get_meme_def)
  then show ?thesis by simp
next
  case True
  then have t: "there (board_of os m) i" by (simp add: board_of_def there_on_def exist_def meme_path_item)
  obtain q m1 where inc: "increment_view_count os i m = (q, m1)" by (cases "increment_view_count os i m")
  with assms(2) True have q: "q = Inr ()" by (auto simp: get_meme_def split: sum.splits)
  obtain c m2 where c: "get_content os i m1 = (c, m2)" by (cases "get_content os i m1")
  note v = view_refines [OF assms(1) inc [unfolded q]] and k = content_read [OF c]
  have texts: "texts (board_of os m1) = texts (board_of os m)" by (simp add: v(2) count_view_def)
  from assms(2) True inc q c have run: "m' = m2"
    "(if c = [] then Inr None else
       and_then (make_meme P c (get_view_count i m2) (get_rating P i m2)) (\<lambda>x. Inr (Some x))) = Inr r"
    by (auto simp: get_meme_def split: if_splits)
  show ?thesis
  proof (cases "c = []")
    case True
    with run have "r = None" by simp
    with True k v t texts run(1) show ?thesis by simp
  next
    case False
    with run(2) obtain x where "r = Some x" "make_meme P c (get_view_count i m2) (get_rating P i m2) = Inr x"
      by (auto simp: and_then_Inr_iff)
    with False k v t texts run(1) show ?thesis by simp
  qed
qed

lemma rate_refines:
  assumes "path_frame os (root_dir m)" and "add_rating os P i r m = (Inr (), m')"
  shows "root_dir m' = root_dir m" and "board_of os m' =
    (board_of os m)\<lparr>votes := (votes (board_of os m))(i \<mapsto> next_rating P (votes (board_of os m) i) r)\<rparr>"
proof -
  obtain n a where nr: "next_rating P (ratings m (sint i)) r = (n, a)" by (cases "next_rating P (ratings m (sint i)) r")
  have m': "m' = m\<lparr>ratings := (ratings m)(sint i \<mapsto> (n, a)),
      store := snd (write_file os (item_path (root_dir m) i ''/ratings'')
        (int_to_string n @ '','' @ float_to_string P a) (store m))\<rparr>"
    using assms(2) unfolding add_rating_def Let_def meme_path_item(1) nr
    by (simp split: if_splits)
  then show "root_dir m' = root_dir m" by simp
  show "board_of os m' =
    (board_of os m)\<lparr>votes := (votes (board_of os m))(i \<mapsto> next_rating P (votes (board_of os m) i) r)\<rparr>"
    unfolding m' using table_written [OF assms(1)] nr
    by (simp add: board_of_def fun_eq_iff)
qed

lemma remark_refines:
  assumes "os_laws os" and "path_frame os (root_dir m)" and "name_part uuid"
  shows "board_of os (add_comment os uuid i c m) = board_of os m \<or>
    there (board_of os m) i \<and>
    board_of os (add_comment os uuid i c m) =
      (board_of os m)\<lparr>remarks := (remarks (board_of os m))((i, uuid) \<mapsto> comment_content c)\<rparr>"
proof (cases "exist os (meme_path m i) (store m)")
  case False
  then show ?thesis by (simp add: add_comment_def)
next
  case True
  let ?dir = "root_dir m"
  have t: "there (board_of os m) i" using True by (simp add: board_of_def there_on_def exist_def meme_path_item)
  let ?fs1 = "if \<not> exist os (item_path ?dir i ''/comments'') (store m)
    then snd (create_directory os (item_path ?dir i ''/comments'') (store m)) else store m"
  have filed: "(meme_path m i @ ''/comments'') @ ''/'' @ uuid = item_path ?dir i (remark_item uuid)"
    by (simp add: meme_path_def item_path_def remark_item_def)
  obtain st fs where w: "write_file os (item_path ?dir i (remark_item uuid)) (comment_content c) ?fs1 = (st, fs)"
    by (cases "write_file os (item_path ?dir i (remark_item uuid)) (comment_content c) ?fs1")
  have run: "add_comment os uuid i c m = m\<lparr>store := fs\<rparr>"
    using True unfolding add_comment_def Let_def filed unfolding meme_path_item(1) using w by simp
  obtain st1 fs1 where d: "create_directory os (item_path ?dir i ''/comments'') (store m) = (st1, fs1)"
    by (cases "create_directory os (item_path ?dir i ''/comments'') (store m)")
  then have same: "there_on os ?dir (disk_of ?fs1) = there_on os ?dir (disk_of (store m)) \<and>
      text_on os ?dir (disk_of ?fs1) = text_on os ?dir (disk_of (store m)) \<and>
      remark_on os ?dir (disk_of ?fs1) = remark_on os ?dir (disk_of (store m))"
    by (rule create_directory_cases) (use d made_comments [OF assms(2)] in auto)
  from w show ?thesis
  proof (rule write_file_cases)
    assume "st \<noteq> Success" "disk_of fs = disk_of ?fs1"
    with same run show ?thesis by (simp add: board_of_def)
  next
    assume "st = Success"
      "os_write os (disk_of ?fs1) (item_path ?dir i (remark_item uuid)) (comment_content c) = Some (disk_of fs)"
    from wrote_comment [OF assms this(2)] same run t show ?thesis by (simp add: board_of_def)
  qed
qed

section \<open>The requests\<close>

lemma find_str_start: "find_str s (s @ t) = Some 0"
proof -
  have "prefix s u \<Longrightarrow> find_str s u = Some 0" for u by (cases u) auto
  then show ?thesis by simp
qed

lemma number_shown:
  assumes "in_int_range n"
  shows "handle_get b os P rnd location (crud_request Verb_get (location @ slash # int_to_string n) c) res m =
    handle_get_meme_by_id b os P location (crud_request Verb_get (location @ slash # int_to_string n) c) res m"
proof -
  have k: "int_to_string n \<noteq> ''creation_form''" "int_to_string n \<noteq> ''random''" "int_to_string n \<noteq> ''all''"
    using number_not_keyword [of "int_to_string n"] assms by simp_all
  have "check_format (location @ slash # int_to_string n) (location @ ''/'') = Inr True"
    using check_number_target [OF name_part_int, of stoi location n "location @ ''/''"] assms
    by (simp add: check_format_def)
  with k show ?thesis by (simp add: handle_get_def Let_def)
qed

lemma views_in_board: "get_view_count i m = (case views (board_of os m) i of Some k \<Rightarrow> k | None \<Rightarrow> - 1)"
  by (simp add: get_view_count_def board_of_def)

lemma votes_in_board:
  "get_rating P i m = (case votes (board_of os m) i of Some (_, r) \<Rightarrow> r | None \<Rightarrow> float_of_int P (- 1))"
  by (simp add: get_rating_def board_of_def)

lemma make_comment_content: "make_comment P c = Inr x \<Longrightarrow> comment_content x = c"
  by (auto simp: make_comment_def Let_def and_then_Inr_iff)

lemma post_meme_step:
  assumes "os_laws os" and "payload_law b" and "path_frame os (root_dir m)"
    and "handle_post_meme b os P (crud_request Verb_post location c) res m = (Inr st, res', m')"
  shows "board_step P location uuid (board_of os m) (Post_meme c) st (res_body res') (board_of os m')"
proof -
  from assms(4) obtain x where x: "make_meme P c 0 (float_of_int P 0) = Inr x"
    by (cases "make_meme P c 0 (float_of_int P 0)") (auto simp: handle_post_meme_def)
  then have content: "meme_content x = c" by (simp add: make_meme_fields)
  obtain r m1 where cr: "create_meme os c m = (r, m1)" by (cases "create_meme os c m")
  note step = create_refines [OF assms(1,3) cr]
  show ?thesis
  proof (cases r)
    case None
    with assms(4) x content cr step show ?thesis by (auto simp: handle_post_meme_def)
  next
    case (Some i)
    with assms(4) x content cr have "st = Created" "m' = m1"
      "res_body res' = ''Successfully created meme '' @ nat_to_string (unat i) @ ''.''"
      using assms(2) by (auto simp: handle_post_meme_def)
    with Some step show ?thesis by (auto intro!: exI [of _ i])
  qed
qed

lemma show_meme_step:
  assumes "payload_law b" and "path_frame os (root_dir m)" and "in_int_range n"
    and "handle_get_meme_by_id b os P location (crud_request Verb_get (location @ slash # int_to_string n) []) res m =
      (Inr st, res', m')"
  shows "board_step P location uuid (board_of os m) (Show_meme n) st (res_body res') (board_of os m')"
proof -
  let ?i = "word_of_int n :: meme_id"
  have a: "stoi (after_last slash (location @ slash # int_to_string n)) = Inr n"
    using assms(3) by simp
  obtain q m1 where g: "get_meme os P ?i m = (q, m1)" by (cases "get_meme os P ?i m")
  from assms(4) a g obtain r where q: "q = Inr r"
    by (cases q) (auto simp: handle_get_meme_by_id_def)
  note step = show_refines [OF assms(2) g [unfolded q]]
  show ?thesis
  proof (cases r)
    case None
    with assms(4) a g q step show ?thesis by (auto simp: handle_get_meme_by_id_def)
  next
    case (Some x)
    with assms(1,4) a g q have "st = Status_ok" "m' = m1" "res_body res' = meme_page location n x"
      by (auto simp: handle_get_meme_by_id_def)
    with Some step show ?thesis
      by (auto simp: views_in_board [of _ _ os] votes_in_board [of _ _ _ os] count_view_def)
  qed
qed

lemma post_comment_step:
  assumes "os_laws os" and "payload_law b" and "path_frame os (root_dir m)" and "name_part uuid"
    and "handle_post_comment b os P uuid (crud_request Verb_post target c) res m = (Inr st, res', m')"
  shows "board_step P location uuid (board_of os m) (Post_comment c) st (res_body res') (board_of os m')"
proof -
  from assms(5) obtain x where x: "make_comment P c = Inr x"
    by (cases "make_comment P c") (auto simp: handle_post_comment_def)
  show ?thesis
  proof (cases "and_then (stoi (comment_id x)) (\<lambda>i. and_then (stoi (comment_rating x)) (\<lambda>r. Inr (i, r)))")
    case (Inl e)
    with assms(5) x show ?thesis by (auto simp: handle_post_comment_def split: if_splits)
  next
    case (Inr v)
    then obtain i r where ir: "stoi (comment_id x) = Inr i" "stoi (comment_rating x) = Inr r" "v = (i, r)"
      by (auto simp: and_then_Inr_iff)
    let ?i = "word_of_int i :: meme_id"
    obtain q m1 where rate: "add_rating os P ?i r m = (q, m1)" by (cases "add_rating os P ?i r m")
    with assms(2,5) x ir have q: "q = Inr ()" and done_: "st = Created" "m' = add_comment os uuid ?i x m1"
      "res_body res' = ''Successfully posted comment.''"
      by (auto simp: handle_post_comment_def split: sum.splits)
    note rated = rate_refines [OF assms(3) rate [unfolded q]]
    from remark_refines [OF assms(1) _ assms(4), of m1 ?i x] assms(3) rated
    have "board_of os m' = board_of os m1 \<or> there (board_of os m1) ?i \<and>
        board_of os m' = (board_of os m1)\<lparr>remarks := (remarks (board_of os m1))((?i, uuid) \<mapsto> c)\<rparr>"
      by (simp add: done_ make_comment_content [OF x])
    with x ir done_ rated(2) show ?thesis by auto
  qed
qed

section \<open>The small instance\<close>

lemma sample_path_frame: "path_frame sample_os dir"
proof -
  have "os_exists sample_os w' q = os_exists sample_os w q \<and> os_read sample_os w' q = os_read sample_os w q"
    if "p \<noteq> q" "os_write sample_os w p c = Some w' \<or> os_create_directory sample_os w p = Some w'" for w w' p q c
    using that by (auto simp: sample_os_def split: if_splits option.splits)
  then show ?thesis unfolding path_frame_def by blast
qed

lemma memes_views: "views (board_of sample_os memes) 7 = Some 41"
  by (simp add: board_of_def memes_def)

section \<open>Property\<close>



end
