(* ===== verification/Meme_Threads.thy ===== *)
theory Meme_Threads
  imports Meme_Board
begin

text \<open>
  Requests to one meme module at the same time (\<open>src/meme_module.cc\<close>): the server runs the handlers
  on several threads. A step is what one mutex protects or one file operation does: drawing an
  identifier (\<open>id_mutex_\<close>), counting a view (\<open>views_mutex_\<close>) or a vote (\<open>ratings_mutex_\<close>), a
  test, a reading or a change of the disk. \<open>get_view_count\<close> and \<open>get_rating\<close> take no lock; each
  is one step here. A request that would overflow a counter, or reads a comment that is not what
  the service wrote, ends as \<open>Failed\<close>. A directory iterator has the entries there are when it is
  opened and any of those that are added while it is open. A run is any interleaving of the steps
  of any number of requests.
\<close>

section \<open>Requests in progress\<close>

datatype 'f listing = All_memes | By_views int | By_rating 'f

datatype 'f phase =
    Idle
  | Numbered string meme_id            \<comment> \<open>\<open>create\<close>: after \<open>generate_id\<close>\<close>
  | Directory_made string meme_id      \<comment> \<open>after \<open>create_directory\<close>\<close>
  | Posted string meme_id              \<comment> \<open>after \<open>write_file\<close>: \<open>create\<close> returns true\<close>
  | Not_posted
  | Found meme_id                      \<comment> \<open>\<open>get\<close>: the directory is there\<close>
  | Counted meme_id int                \<comment> \<open>after \<open>increment_view_count\<close>; the number it counted\<close>
  | Text_read meme_id int string       \<comment> \<open>after \<open>get_content\<close>\<close>
  | Views_read meme_id int string int  \<comment> \<open>after \<open>get_view_count\<close>\<close>
  | Shown meme_id int string int 'f    \<comment> \<open>after \<open>get_rating\<close>\<close>
  | Not_shown
  | Voted meme_id string               \<comment> \<open>a comment, after \<open>add_rating\<close>\<close>
  | Meme_found meme_id string          \<comment> \<open>\<open>add_comment\<close>: the directory is there\<close>
  | No_comments meme_id string         \<comment> \<open>the directory of comments is not\<close>
  | Comments_there meme_id string
  | Commented
  | Info_wanted meme_id                \<comment> \<open>\<open>get_comments\<close>: the directory of the meme is there\<close>
  | Comments_found meme_id             \<comment> \<open>and that of its comments\<close>
  | Reading meme_id "(string \<times> string) list" "comment list"
      \<comment> \<open>the entries the iterator still has, the comments read\<close>
  | Comments_read meme_id "comment list"
  | Info_views meme_id "comment list" int
  | Info_shown meme_id "comment list" int 'f
  | Listing "'f listing" int int "(int \<times> int) list"
      \<comment> \<open>a list page: the bound of the loop, its counter, the identifiers and views in the list\<close>
  | Chosen "'f listing" int int "(int \<times> int) list"
      \<comment> \<open>the counter passed the test of the page\<close>
  | Listed "'f listing" int "(int \<times> int) list"
  | Failed exn

datatype change =
    Makes meme_id
  | Puts meme_id string
  | Sees meme_id
  | Votes meme_id int
  | Notes meme_id string string

record ('w, 'f) threads =
  module :: "('w, 'f) meme_module"
  phases :: "nat \<Rightarrow> 'f phase"
  issued :: nat                        \<comment> \<open>a ghost: how many identifiers were drawn\<close>
  history :: "(nat \<times> change) list"    \<comment> \<open>a ghost: what the requests changed, in order\<close>

definition enter :: "nat \<Rightarrow> 'f phase \<Rightarrow> ('w, 'f) meme_module \<Rightarrow> ('w, 'f) threads \<Rightarrow> ('w, 'f) threads" where
  "enter t ph m S = S\<lparr>module := m, phases := (phases S)(t := ph)\<rparr>"

definition performed :: "nat \<Rightarrow> change list \<Rightarrow> ('w, 'f) threads \<Rightarrow> ('w, 'f) threads" where
  "performed t es S = S\<lparr>history := history S @ map (Pair t) es\<rparr>"

definition list_wants :: "'f platform \<Rightarrow> 'f listing \<Rightarrow> int \<Rightarrow> ('w, 'f) meme_module \<Rightarrow> bool" where
  \<comment> \<open>the condition of the loop of a list page\<close>
  "list_wants P q k m =
     (case q of
        All_memes \<Rightarrow> True
      | By_views l \<Rightarrow> l < get_view_count (word_of_int k) m
      | By_rating l \<Rightarrow> float_less P l (get_rating P (word_of_int k) m))"

definition threads_start :: "('w, 'f) meme_module \<Rightarrow> ('w, 'f) threads" where
  "threads_start m = \<lparr>module = m, phases = (\<lambda>_. Idle), issued = 0, history = []\<rparr>"

inductive thread_step :: "'w os \<Rightarrow> 'f platform \<Rightarrow> ('w, 'f) threads \<Rightarrow> ('w, 'f) threads \<Rightarrow> bool"
  for os P where
  draw: "phases S t = Idle \<Longrightarrow> generate_id (module S) = (i, m) \<Longrightarrow>
    thread_step os P S ((enter t (Numbered c i) m S)\<lparr>issued := issued S + 1\<rparr>)"
| make: "phases S t = Numbered c i \<Longrightarrow>
    create_directory os (meme_path (module S) i) (store (module S)) = (st, fs) \<Longrightarrow>
    thread_step os P S (performed t (if st = Success then [Makes i] else [])
      (enter t (if st \<noteq> Success then Not_posted else Directory_made c i) ((module S)\<lparr>store := fs\<rparr>) S))"
| fill: "phases S t = Directory_made c i \<Longrightarrow>
    write_file os (meme_path (module S) i @ ''/content'') c (store (module S)) = (st, fs) \<Longrightarrow>
    thread_step os P S (performed t (if st = Success then [Puts i c] else [])
      (enter t (if st \<noteq> Success then Not_posted else Posted c i) ((module S)\<lparr>store := fs\<rparr>) S))"
| find: "phases S t = Idle \<Longrightarrow>
    present = (exist os (meme_path (module S) i) (store (module S)) \<and>
      os_is_directory os (disk_of (store (module S))) (meme_path (module S) i)) \<Longrightarrow>
    thread_step os P S (enter t (if present then Found i else Not_shown) (module S) S)"
| view: "phases S t = Found i \<Longrightarrow> increment_view_count os i (module S) = (Inr (), m) \<Longrightarrow>
    thread_step os P S (performed t [Sees i] (enter t (Counted i (get_view_count i m)) m S))"
| view_full: "phases S t = Found i \<Longrightarrow> increment_view_count os i (module S) = (Inl e, m) \<Longrightarrow>
    thread_step os P S (enter t (Failed e) m S)"
| read: "phases S t = Counted i k \<Longrightarrow> get_content os i (module S) = (x, m) \<Longrightarrow>
    thread_step os P S (enter t (if x = [] then Not_shown else Text_read i k x) m S)"
| read_views: "phases S t = Text_read i k x \<Longrightarrow>
    thread_step os P S (enter t (Views_read i k x (get_view_count i (module S))) (module S) S)"
| read_rating: "phases S t = Views_read i k x v \<Longrightarrow>
    thread_step os P S (enter t (Shown i k x v (get_rating P i (module S))) (module S) S)"
| vote: "phases S t = Idle \<Longrightarrow> add_rating os P i r (module S) = (Inr (), m) \<Longrightarrow>
    thread_step os P S (performed t [Votes i r] (enter t (Voted i c) m S))"
| vote_full: "phases S t = Idle \<Longrightarrow> add_rating os P i r (module S) = (Inl e, m) \<Longrightarrow>
    thread_step os P S (enter t (Failed e) m S)"
| find_meme: "phases S t = Voted i c \<Longrightarrow> present = exist os (meme_path (module S) i) (store (module S)) \<Longrightarrow>
    thread_step os P S (enter t (if present then Meme_found i c else Commented) (module S) S)"
| find_comments: "phases S t = Meme_found i c \<Longrightarrow>
    present = exist os (meme_path (module S) i @ ''/comments'') (store (module S)) \<Longrightarrow>
    thread_step os P S (enter t (if present then Comments_there i c else No_comments i c) (module S) S)"
| make_comments: "phases S t = No_comments i c \<Longrightarrow>
    create_directory os (meme_path (module S) i @ ''/comments'') (store (module S)) = (st, fs) \<Longrightarrow>
    thread_step os P S (enter t (Comments_there i c) ((module S)\<lparr>store := fs\<rparr>) S)"
| remark: "phases S t = Comments_there i c \<Longrightarrow> name_part uuid \<Longrightarrow>
    write_file os ((meme_path (module S) i @ ''/comments'') @ ''/'' @ uuid) c (store (module S)) = (st, fs) \<Longrightarrow>
    thread_step os P S (performed t (if st = Success then [Notes i uuid c] else [])
      (enter t Commented ((module S)\<lparr>store := fs\<rparr>) S))"
| find_info: "phases S t = Idle \<Longrightarrow> present = exist os (meme_path (module S) i) (store (module S)) \<Longrightarrow>
    thread_step os P S (enter t (if present then Info_wanted i else Comments_read i []) (module S) S)"
| find_filed: "phases S t = Info_wanted i \<Longrightarrow>
    present = (exist os (meme_path (module S) i @ ''/comments'') (store (module S)) \<and>
      os_is_directory os (disk_of (store (module S))) (meme_path (module S) i @ ''/comments'')) \<Longrightarrow>
    thread_step os P S (enter t (if present then Comments_found i else Comments_read i []) (module S) S)"
| open_comments: "phases S t = Comments_found i \<Longrightarrow>
    es = os_entries os (disk_of (store (module S))) (meme_path (module S) i @ ''/comments'') \<Longrightarrow>
    thread_step os P S (enter t (Reading i es []) (module S) S)"
| late_comment: "phases S t = Reading i es cs \<Longrightarrow>
    e \<in> set (os_entries os (disk_of (store (module S))) (meme_path (module S) i @ ''/comments'')) \<Longrightarrow>
    thread_step os P S (enter t (Reading i (es @ [e]) cs) (module S) S)"
| read_comment: "phases S t = Reading i ((p, n) # es) cs \<Longrightarrow>
    read_file os p [] (store (module S)) = (st, x, fs) \<Longrightarrow>
    ph = (if st \<noteq> Success then Reading i es cs
      else case make_comment P x of Inl e \<Rightarrow> Failed e | Inr c \<Rightarrow> Reading i es (cs @ [c])) \<Longrightarrow>
    thread_step os P S (enter t ph ((module S)\<lparr>store := fs\<rparr>) S)"
| end_comments: "phases S t = Reading i [] cs \<Longrightarrow>
    thread_step os P S (enter t (Comments_read i cs) (module S) S)"
| info_views: "phases S t = Comments_read i cs \<Longrightarrow>
    thread_step os P S (enter t (Info_views i cs (get_view_count i (module S))) (module S) S)"
| info_rating: "phases S t = Info_views i cs v \<Longrightarrow>
    thread_step os P S (enter t (Info_shown i cs v (get_rating P i (module S))) (module S) S)"
| start_list: "phases S t = Idle \<Longrightarrow>
    thread_step os P S (enter t (Listing q (get_meme_count (module S)) 1 []) (module S) S)"
| test_meme: "phases S t = Listing q n k xs \<Longrightarrow> k \<le> n \<Longrightarrow>
    thread_step os P S
      (enter t (if list_wants P q k (module S) then Chosen q n k xs else Listing q n (k + 1) xs) (module S) S)"
| list_meme: "phases S t = Chosen q n k xs \<Longrightarrow>
    thread_step os P S
      (enter t (Listing q n (k + 1) (xs @ [(k, get_view_count (word_of_int k) (module S))])) (module S) S)"
| end_list: "phases S t = Listing q n k xs \<Longrightarrow> n < k \<Longrightarrow>
    thread_step os P S (enter t (Listed q n xs) (module S) S)"

text \<open>The views counted, in order.\<close>

fun views_in :: "change list \<Rightarrow> meme_id list" where
  "views_in [] = []"
| "views_in (Sees i # es) = i # views_in es"
| "views_in (_ # es) = views_in es"

definition seen :: "('w, 'f) threads \<Rightarrow> meme_id list" where
  "seen S = views_in (map snd (history S))"

lemma views_in_append [simp]: "views_in (xs @ ys) = views_in xs @ views_in ys"
  by (induction xs rule: views_in.induct) simp_all

lemma enter_simps [simp]:
  "module (enter t ph m S) = m" "phases (enter t ph m S) = (phases S)(t := ph)"
  "issued (enter t ph m S) = issued S" "history (enter t ph m S) = history S"
  "seen (enter t ph m S) = seen S" "seen (S\<lparr>issued := n\<rparr>) = seen S"
  by (simp_all add: enter_def seen_def)

lemma performed_simps [simp]:
  "module (performed t es S) = module S" "phases (performed t es S) = phases S"
  "issued (performed t es S) = issued S" "history (performed t es S) = history S @ map (Pair t) es"
  "seen (performed t es S) = seen S @ views_in es"
  by (simp_all add: performed_def seen_def comp_def)

lemma threads_start_simps [simp]:
  "module (threads_start m) = m" "phases (threads_start m) t = Idle" "issued (threads_start m) = 0"
  "history (threads_start m) = []" "seen (threads_start m) = []"
  by (simp_all add: threads_start_def seen_def)

text \<open>What the phases hold.\<close>

fun post_of :: "'f phase \<Rightarrow> (string \<times> meme_id) option" where
  "post_of (Numbered c i) = Some (c, i)"
| "post_of (Directory_made c i) = Some (c, i)"
| "post_of (Posted c i) = Some (c, i)"
| "post_of _ = None"

fun text_of :: "'f phase \<Rightarrow> (meme_id \<times> string) option" where
  "text_of (Text_read i k x) = Some (i, x)"
| "text_of (Views_read i k x v) = Some (i, x)"
| "text_of (Shown i k x v r) = Some (i, x)"
| "text_of _ = None"

fun own_of :: "'f phase \<Rightarrow> (meme_id \<times> int) option" where
  \<comment> \<open>the number of the view this request counted\<close>
  "own_of (Counted i k) = Some (i, k)"
| "own_of (Text_read i k x) = Some (i, k)"
| "own_of (Views_read i k x v) = Some (i, k)"
| "own_of (Shown i k x v r) = Some (i, k)"
| "own_of _ = None"

fun number_of :: "'f phase \<Rightarrow> (meme_id \<times> int \<times> int) option" where
  \<comment> \<open>the number counted and the number shown\<close>
  "number_of (Views_read i k x v) = Some (i, k, v)"
| "number_of (Shown i k x v r) = Some (i, k, v)"
| "number_of _ = None"

section \<open>What a step changes\<close>

abbreviation board :: "'w os \<Rightarrow> ('w, 'f) threads \<Rightarrow> 'f board" where
  "board os S \<equiv> board_of os (module S)"

lemma store_board:
  "texts (board_of os (m\<lparr>store := fs\<rparr>)) = text_on os (root_dir m) (disk_of fs)"
  "views (board_of os (m\<lparr>store := fs\<rparr>)) = views (board_of os m)"
  "texts (board_of os m) = text_on os (root_dir m) (disk_of (store m))"
  by (simp_all add: board_of_def)

lemma drawn:
  "generate_id m = (i, m') \<Longrightarrow> i = id_count m + 1 \<and> id_count m' = id_count m + 1 \<and> root_dir m' = root_dir m \<and>
     board_of os m' = board_of os m"
  by (auto simp: generate_id_def board_of_def)

lemma same_count:
  "increment_view_count os i m = (Inr (), m') \<Longrightarrow> id_count m' = id_count m"
  "add_rating os P i r m = (Inr (), m') \<Longrightarrow> id_count m' = id_count m"
  "get_content os i m = (x, m') \<Longrightarrow> id_count m' = id_count m"
  by (auto simp: increment_view_count_def add_rating_def get_content_def Let_def split: if_splits prod.splits)

lemma full_counter:
  "increment_view_count os i m = (Inl e, m') \<Longrightarrow> m' = m"
  "add_rating os P i r m = (Inl e, m') \<Longrightarrow> m' = m"
  by (auto simp: increment_view_count_def add_rating_def Let_def split: if_splits prod.splits)

lemma file_read:
  assumes "read_file os p c0 (store m) = (st, c, fs)"
  shows "board_of os (m\<lparr>store := fs\<rparr>) = board_of os m"
  using files.read_view [OF assms] by (simp add: board_of_def)

lemma made_texts:
  assumes "os_laws os" and "path_frame os (root_dir m)"
    and "create_directory os (meme_path m i) (store m) = (st, fs)"
  shows "texts (board_of os (m\<lparr>store := fs\<rparr>)) = texts (board_of os m)"
  unfolding store_board using assms(3) [unfolded meme_path_item(2)]
  by (rule create_directory_cases) (use made_meme [OF assms(1,2)] in auto)

lemma filled_texts:
  assumes "os_laws os" and "path_frame os (root_dir m)"
    and "write_file os (meme_path m i @ ''/content'') c (store m) = (st, fs)"
  shows "texts (board_of os (m\<lparr>store := fs\<rparr>)) =
    (if st = Success then (texts (board_of os m))(i \<mapsto> c) else texts (board_of os m))"
  unfolding store_board using assms(3) [unfolded meme_path_item(1)]
  by (rule write_file_cases) (use wrote_content [OF assms(1,2)] in auto)

lemma comments_texts:
  assumes "path_frame os (root_dir m)"
    and "create_directory os (meme_path m i @ ''/comments'') (store m) = (st, fs)"
  shows "texts (board_of os (m\<lparr>store := fs\<rparr>)) = texts (board_of os m)"
  unfolding store_board using assms(2) [unfolded meme_path_item(1)]
  by (rule create_directory_cases) (use made_comments [OF assms(1)] in auto)

lemma remark_texts:
  assumes "os_laws os" and "path_frame os (root_dir m)" and "name_part uuid"
    and "write_file os ((meme_path m i @ ''/comments'') @ ''/'' @ uuid) c (store m) = (st, fs)"
  shows "texts (board_of os (m\<lparr>store := fs\<rparr>)) = texts (board_of os m)"
proof -
  have "(meme_path m i @ ''/comments'') @ ''/'' @ uuid = item_path (root_dir m) i (remark_item uuid)"
    by (simp add: meme_path_def item_path_def remark_item_def)
  from assms(4) [unfolded this] show ?thesis
    unfolding store_board by (rule write_file_cases) (use wrote_comment [OF assms(1-3)] in auto)
qed

lemma count_view_parts [simp]:
  "texts (count_view i B) = texts B"
  "views (count_view i B) = (views B)(i \<mapsto> (case views B i of Some k \<Rightarrow> k + 1 | None \<Rightarrow> 1))"
  by (simp_all add: count_view_def)

text \<open>
  One step in terms of the board: the texts change only where a text is written, the views only
  where one is counted, and the identifiers only where one is drawn.
\<close>

lemma step_ids:
  assumes "thread_step os P S S'" and "path_frame os (root_dir (module S))"
  shows "root_dir (module S') = root_dir (module S)"
    and "issued S' = issued S \<and> id_count (module S') = id_count (module S) \<or>
      issued S' = issued S + 1 \<and> id_count (module S') = id_count (module S) + 1"
  using assms
  by (induction rule: thread_step.induct)
    (auto dest: drawn same_count full_counter view_refines(1) rate_refines(1) content_read)

definition is_posted :: "'f phase \<Rightarrow> bool" where
  "is_posted ph \<longleftrightarrow> (\<exists>c i. ph = Posted c i)"

lemma is_posted_simps [simp]:
  "is_posted (Posted c i)" "\<not> is_posted Idle" "\<not> is_posted (Numbered c i)" "\<not> is_posted (Directory_made c i)"
  "\<not> is_posted Not_posted" "\<not> is_posted (Found i)" "\<not> is_posted (Counted i k)" "\<not> is_posted (Text_read i k x)"
  "\<not> is_posted (Views_read i k x v)" "\<not> is_posted (Shown i k x v r)" "\<not> is_posted Not_shown"
  "\<not> is_posted (Voted i c)" "\<not> is_posted (Meme_found i c)" "\<not> is_posted (No_comments i c)"
  "\<not> is_posted (Comments_there i c)" "\<not> is_posted Commented" "\<not> is_posted (Info_wanted i)"
  "\<not> is_posted (Comments_found i)" "\<not> is_posted (Reading i es cs)" "\<not> is_posted (Comments_read i cs)"
  "\<not> is_posted (Info_views i cs v)" "\<not> is_posted (Info_shown i cs v r)" "\<not> is_posted (Listing q n k' xs)"
  "\<not> is_posted (Chosen q n k' xs)" "\<not> is_posted (Listed q n xs)" "\<not> is_posted (Failed e)"
  by (simp_all add: is_posted_def)

definition quiet :: "'w os \<Rightarrow> ('w, 'f) threads \<Rightarrow> ('w, 'f) threads \<Rightarrow> nat \<Rightarrow> 'f phase \<Rightarrow> bool" where
  \<comment> \<open>a step of request \<open>t\<close> that neither draws an identifier nor writes a text\<close>
  "quiet os S S' t ph \<longleftrightarrow>
     texts (board os S') = texts (board os S) \<and> id_count (module S') = id_count (module S) \<and>
     issued S' = issued S \<and> \<not> is_posted ph \<and> (post_of ph = None \<or> post_of ph = post_of (phases S t)) \<and>
     (\<forall>i x. text_of ph = Some (i, x) \<longrightarrow> text_of (phases S t) = Some (i, x) \<or> texts (board os S) i = Some x)"

lemma step_cases:
  assumes "thread_step os P S S'" and "os_laws os" and "path_frame os (root_dir (module S))"
  obtains t ph where "phases S' = (phases S)(t := ph)" "\<not> is_posted (phases S t)" "quiet os S S' t ph"
  | t c where "phases S' = (phases S)(t := Numbered c (id_count (module S) + 1))" "phases S t = Idle"
      "issued S' = issued S + 1" "id_count (module S') = id_count (module S) + 1"
      "texts (board os S') = texts (board os S)"
  | t c i where "phases S' = (phases S)(t := Posted c i)" "phases S t = Directory_made c i"
      "issued S' = issued S" "id_count (module S') = id_count (module S)"
      "texts (board os S') = (texts (board os S))(i \<mapsto> c)"
proof -
  note quiet_case = that(1)
  have still: thesis
    if "S' = enter t ph (module S) S" "\<not> is_posted (phases S t)" "\<not> is_posted ph"
      "post_of ph = None \<or> post_of ph = post_of (phases S t)"
      "text_of ph = None \<or> text_of ph = text_of (phases S t)" for t ph
    by (rule quiet_case [of t ph]) (use that in \<open>auto simp: quiet_def\<close>)
  from assms(1) show thesis
  proof cases
    case (draw t i m c)
    from drawn [OF draw(3)] draw show thesis by (intro that(2) [of t c]) simp_all
  next
    case (make t c i st fs)
    from made_texts [OF assms(2,3) make(3)] make show thesis
      by (intro that(1) [of t "if st \<noteq> Success then Not_posted else Directory_made c i"]) (simp_all add: quiet_def)
  next
    case (fill t c i st fs)
    note x = filled_texts [OF assms(2,3) fill(3)]
    show thesis
    proof (cases "st = Success")
      case True
      with x fill show thesis by (intro that(3) [of t c i]) simp_all
    next
      case False
      with x fill show thesis by (intro that(1) [of t Not_posted]) (simp_all add: quiet_def)
    qed
  next
    case (view t i m)
    from view_refines [OF assms(3) view(3)] same_count(1) [OF view(3)] view show thesis
      by (intro that(1) [of t "Counted i (get_view_count i m)"]) (simp_all add: quiet_def)
  next
    case (view_full t i e m)
    with full_counter(1) [OF view_full(3)] show thesis by (intro still [of t "Failed e"]) simp_all
  next
    case (read t i k x m)
    from content_read [OF read(3)] same_count(3) [OF read(3)] read show thesis
      by (intro that(1) [of t "if x = [] then Not_shown else Text_read i k x"]) (simp_all add: quiet_def)
  next
    case (vote t i r m c)
    from rate_refines [OF assms(3) vote(3)] same_count(2) [OF vote(3)] vote show thesis
      by (intro that(1) [of t "Voted i c"]) (simp_all add: quiet_def)
  next
    case (vote_full t i r e m)
    with full_counter(2) [OF vote_full(3)] show thesis by (intro still [of t "Failed e"]) simp_all
  next
    case (make_comments t i c st fs)
    from comments_texts [OF assms(3) make_comments(3)] make_comments show thesis
      by (intro that(1) [of t "Comments_there i c"]) (simp_all add: quiet_def)
  next
    case (remark t i c uuid st fs)
    from remark_texts [OF assms(2,3) remark(3,4)] remark show thesis
      by (intro that(1) [of t Commented]) (simp_all add: quiet_def)
  next
    case (read_comment t i p n es cs st x fs ph)
    have "post_of ph = None" "text_of ph = None" "\<not> is_posted ph"
      using read_comment(4) by (auto split: sum.splits)
    with read_comment file_read [OF read_comment(3)] show thesis
      by (intro that(1) [of t ph]) (simp_all add: quiet_def)
  qed (erule still; simp)+
qed

section \<open>Identifiers and texts\<close>

definition ids_inv :: "nat \<Rightarrow> ('w, 'f) threads \<Rightarrow> bool" where
  "ids_inv base S \<longleftrightarrow>
     unat (id_count (module S)) = base + issued S \<and>
     (\<forall>t c i. post_of (phases S t) = Some (c, i) \<longrightarrow> base < unat i \<and> unat i \<le> base + issued S) \<and>
     (\<forall>t t' c c' i. post_of (phases S t) = Some (c, i) \<and> post_of (phases S t') = Some (c', i) \<longrightarrow> t = t')"

definition texts_inv :: "'w os \<Rightarrow> nat \<Rightarrow> ('w, 'f) threads \<Rightarrow> bool" where
  "texts_inv os base S \<longleftrightarrow>
     (\<forall>t c i. phases S t = Posted c i \<longrightarrow> texts (board os S) i = Some c) \<and>
     (\<forall>i. base < unat i \<and> texts (board os S) i \<noteq> None \<longrightarrow> (\<exists>t c. phases S t = Posted c i)) \<and>
     (\<forall>t i x. text_of (phases S t) = Some (i, x) \<longrightarrow> texts (board os S) i = Some x)"

lemma posted_post: "phases S t = Posted c i \<Longrightarrow> post_of (phases S t) = Some (c, i)"
  by simp

lemma ids_inv_quiet:
  assumes "ids_inv base S" and "phases S' = (phases S)(t := ph)" and "quiet os S S' t ph"
  shows "ids_inv base S'"
proof -
  have p: "post_of (phases S' u) = Some (c, i) \<Longrightarrow> post_of (phases S u) = Some (c, i)" for u c i
    using assms(2,3) by (auto simp: quiet_def split: if_splits)
  from assms(3) have "id_count (module S') = id_count (module S)" "issued S' = issued S"
    by (simp_all add: quiet_def)
  with assms(1) p show ?thesis unfolding ids_inv_def by metis
qed

lemma texts_inv_quiet:
  assumes "texts_inv os base S" and "phases S' = (phases S)(t := ph)" and "\<not> is_posted (phases S t)"
    and "quiet os S S' t ph"
  shows "texts_inv os base S'"
proof -
  have same: "texts (board os S') = texts (board os S)" using assms(4) by (simp add: quiet_def)
  have "phases S' u = Posted c i \<longleftrightarrow> phases S u = Posted c i" for u c i
    using assms(2-4) by (auto simp: quiet_def is_posted_def)
  moreover have "text_of (phases S' u) = Some (i, x) \<Longrightarrow>
      text_of (phases S u) = Some (i, x) \<or> texts (board os S) i = Some x" for u i x
    using assms(2,4) by (auto simp: quiet_def split: if_splits)
  ultimately show ?thesis using assms(1) unfolding texts_inv_def same by meson
qed

lemma ids_inv_draw:
  assumes "ids_inv base S" and "phases S' = (phases S)(t := Numbered c (id_count (module S) + 1))"
    and "issued S' = issued S + 1" and "id_count (module S') = id_count (module S) + 1"
    and "base + issued S' < 2 ^ 32"
  shows "ids_inv base S'"
proof -
  have n: "unat (id_count (module S)) = base + issued S" using assms(1) by (simp add: ids_inv_def)
  have "unat (id_count (module S) + 1) = base + issued S + 1"
    using assms(3,5) n by (subst unat_plus_simple [THEN iffD1]) (simp_all add: no_plus_overflow_unat_size word_size)
  moreover from this have "post_of (phases S u) \<noteq> Some (c', id_count (module S) + 1)" for u c'
    using assms(1) unfolding ids_inv_def by fastforce
  ultimately show ?thesis
    using assms(1-4) unfolding ids_inv_def by (auto simp: le_Suc_eq)
qed

lemma ids_inv_fill:
  assumes "ids_inv base S" and "phases S' = (phases S)(t := Posted c i)" and "phases S t = Directory_made c i"
    and "issued S' = issued S" and "id_count (module S') = id_count (module S)"
  shows "ids_inv base S'"
proof -
  have "post_of (phases S' u) = post_of (phases S u)" for u using assms(2,3) by simp
  with assms(1,4,5) show ?thesis unfolding ids_inv_def by metis
qed

lemma texts_inv_fill:
  assumes "ids_inv base S" and "texts_inv os base S"
    and "phases S' = (phases S)(t := Posted c i)" and "phases S t = Directory_made c i"
    and "texts (board os S') = (texts (board os S))(i \<mapsto> c)"
  shows "texts_inv os base S'"
proof -
  have mine: "u = t" if "post_of (phases S u) = Some (c', i)" for u c'
    using assms(1,4) that unfolding ids_inv_def by (metis post_of.simps(2))
  have new: "base < unat i" using assms(1,4) unfolding ids_inv_def by (metis post_of.simps(2))
  have none: "texts (board os S) i = None"
  proof (rule ccontr)
    assume "texts (board os S) i \<noteq> None"
    with assms(2) new obtain u c' where u: "phases S u = Posted c' i" unfolding texts_inv_def by blast
    with mine [of u c'] assms(4) show False by simp
  qed
  have "texts (board os S') j = Some x" if "phases S' u = Posted x j" for u j x
  proof (cases "u = t")
    case True
    with that assms(3,5) show ?thesis by simp
  next
    case False
    with that assms(3) have u: "phases S u = Posted x j" by simp
    with mine [of u x] False have "j \<noteq> i" by auto
    moreover from u assms(2) have "texts (board os S) j = Some x" unfolding texts_inv_def by blast
    ultimately show ?thesis using assms(5) by simp
  qed
  moreover have "\<exists>u x. phases S' u = Posted x j" if "base < unat j" "texts (board os S') j \<noteq> None" for j
  proof (cases "j = i")
    case False
    with that assms(5) have "texts (board os S) j \<noteq> None" by simp
    with that(1) assms(2) obtain u x where u: "phases S u = Posted x j" unfolding texts_inv_def by blast
    with assms(4) have "u \<noteq> t" by auto
    with u assms(3) have "phases S' u = Posted x j" by simp
    then show ?thesis by blast
  qed (use assms(3) in auto)
  moreover have "texts (board os S') j = Some x" if "text_of (phases S' u) = Some (j, x)" for u j x
  proof -
    from that assms(3) have "text_of (phases S u) = Some (j, x)" by (simp split: if_splits)
    with assms(2) have "texts (board os S) j = Some x" unfolding texts_inv_def by blast
    with none assms(5) show ?thesis by auto
  qed
  ultimately show ?thesis unfolding texts_inv_def by blast
qed

lemma texts_inv_draw:
  assumes "texts_inv os base S" and "phases S' = (phases S)(t := Numbered c i)" and "phases S t = Idle"
    and "texts (board os S') = texts (board os S)"
  shows "texts_inv os base S'"
proof -
  have "phases S' u = Posted c' j \<longleftrightarrow> phases S u = Posted c' j" for u c' j using assms(2,3) by auto
  moreover have "text_of (phases S' u) = Some (j, x) \<Longrightarrow> text_of (phases S u) = Some (j, x)" for u j x
    using assms(2) by (auto split: if_splits)
  ultimately show ?thesis using assms(1) unfolding texts_inv_def assms(4) by meson
qed

lemma invariants_step:
  assumes "thread_step os P S S'" and "os_laws os" and "path_frame os (root_dir (module S))"
    and "ids_inv base S" and "texts_inv os base S" and "base + issued S' < 2 ^ 32"
  shows "ids_inv base S' \<and> texts_inv os base S'"
  using assms(1-3)
proof (rule step_cases)
  fix t ph
  assume "phases S' = (phases S)(t := ph)" "\<not> is_posted (phases S t)" "quiet os S S' t ph"
  with ids_inv_quiet [OF assms(4)] texts_inv_quiet [OF assms(5)] show ?thesis by blast
next
  fix t c
  assume d: "phases S' = (phases S)(t := Numbered c (id_count (module S) + 1))" "phases S t = Idle"
    "issued S' = issued S + 1" "id_count (module S') = id_count (module S) + 1"
    "texts (board os S') = texts (board os S)"
  from ids_inv_draw [OF assms(4) d(1,3,4) assms(6)] texts_inv_draw [OF assms(5) d(1,2,5)] show ?thesis ..
next
  fix t c i
  assume d: "phases S' = (phases S)(t := Posted c i)" "phases S t = Directory_made c i"
    "issued S' = issued S" "id_count (module S') = id_count (module S)"
    "texts (board os S') = (texts (board os S))(i \<mapsto> c)"
  from ids_inv_fill [OF assms(4) d(1-4)] texts_inv_fill [OF assms(4,5) d(1,2,5)] show ?thesis ..
qed

section \<open>Views\<close>

definition counted :: "int option \<Rightarrow> nat \<Rightarrow> int option" where
  \<comment> \<open>the number of views after \<open>n\<close> more\<close>
  "counted v n = (if n = 0 then v else Some ((case v of Some k \<Rightarrow> k | None \<Rightarrow> 0) + int n))"

lemma counted_Suc: "Some (case counted v n of Some k \<Rightarrow> k + 1 | None \<Rightarrow> 1) = counted v (Suc n)"
  by (auto simp: counted_def split: option.splits)

definition views_inv :: "'w os \<Rightarrow> (meme_id \<Rightarrow> int option) \<Rightarrow> ('w, 'f) threads \<Rightarrow> bool" where
  "views_inv os v0 S \<longleftrightarrow>
     (\<forall>i. views (board os S) i = counted (v0 i) (count_list (seen S) i)) \<and>
     (\<forall>t i k. own_of (phases S t) = Some (i, k) \<longrightarrow> (\<exists>n. views (board os S) i = Some n \<and> k \<le> n)) \<and>
     (\<forall>t t' i k. own_of (phases S t) = Some (i, k) \<and> own_of (phases S t') = Some (i, k) \<longrightarrow> t = t') \<and>
     (\<forall>t i k v. number_of (phases S t) = Some (i, k, v) \<longrightarrow>
        own_of (phases S t) = Some (i, k) \<and> k \<le> v \<and> (\<exists>n. views (board os S) i = Some n \<and> v \<le> n))"

definition views_quiet :: "'w os \<Rightarrow> ('w, 'f) threads \<Rightarrow> ('w, 'f) threads \<Rightarrow> nat \<Rightarrow> 'f phase \<Rightarrow> bool" where
  \<comment> \<open>a step of request \<open>t\<close> that counts no view\<close>
  "views_quiet os S S' t ph \<longleftrightarrow>
     views (board os S') = views (board os S) \<and> seen S' = seen S \<and>
     (own_of ph = None \<or> own_of ph = own_of (phases S t)) \<and>
     (\<forall>i k v. number_of ph = Some (i, k, v) \<longrightarrow> own_of ph = Some (i, k) \<and>
        (number_of (phases S t) = Some (i, k, v) \<or> v = get_view_count i (module S)))"

lemma views_step_cases:
  assumes "thread_step os P S S'" and "path_frame os (root_dir (module S))"
  obtains t ph where "phases S' = (phases S)(t := ph)" "views_quiet os S S' t ph"
  | t i where "phases S' = (phases S)(t := Counted i (get_view_count i (module S')))" "seen S' = seen S @ [i]"
      "board os S' = count_view i (board os S)"
proof -
  note quiet_case = that(1)
  have still: thesis
    if "S' = enter t ph (module S) S" "own_of ph = None \<or> own_of ph = own_of (phases S t)"
      "\<And>i k v. number_of ph = Some (i, k, v) \<Longrightarrow> own_of ph = Some (i, k) \<and>
         (number_of (phases S t) = Some (i, k, v) \<or> v = get_view_count i (module S))" for t ph
    by (rule quiet_case [of t ph]) (use that in \<open>simp_all add: views_quiet_def\<close>)
  from assms(1) show thesis
  proof cases
    case (draw t i m c)
    from drawn [OF draw(3)] draw show thesis
      by (intro that(1) [of t "Numbered c i"]) (simp_all add: views_quiet_def)
  next
    case (make t c i st fs)
    then show thesis
      by (intro that(1) [of t "if st \<noteq> Success then Not_posted else Directory_made c i"])
        (simp_all add: views_quiet_def store_board)
  next
    case (fill t c i st fs)
    then show thesis
      by (intro that(1) [of t "if st \<noteq> Success then Not_posted else Posted c i"])
        (simp_all add: views_quiet_def store_board)
  next
    case (view t i m)
    from view_refines [OF assms(2) view(3)] view show thesis by (intro that(2) [of t i]) simp_all
  next
    case (view_full t i e m)
    with full_counter(1) [OF view_full(3)] show thesis by (intro still [of t "Failed e"]) simp_all
  next
    case (read t i k x m)
    from content_read [OF read(3)] read show thesis
      by (intro that(1) [of t "if x = [] then Not_shown else Text_read i k x"]) (simp_all add: views_quiet_def)
  next
    case (vote t i r m c)
    from rate_refines [OF assms(2) vote(3)] vote show thesis
      by (intro that(1) [of t "Voted i c"]) (simp_all add: views_quiet_def)
  next
    case (vote_full t i r e m)
    with full_counter(2) [OF vote_full(3)] show thesis by (intro still [of t "Failed e"]) simp_all
  next
    case (make_comments t i c st fs)
    then show thesis
      by (intro that(1) [of t "Comments_there i c"]) (simp_all add: views_quiet_def store_board)
  next
    case (remark t i c uuid st fs)
    then show thesis by (intro that(1) [of t Commented]) (simp_all add: views_quiet_def store_board)
  next
    case (read_comment t i p n es cs st x fs ph)
    have "own_of ph = None" "number_of ph = None" using read_comment(4) by (auto split: sum.splits)
    with read_comment show thesis by (intro that(1) [of t ph]) (simp_all add: views_quiet_def store_board)
  qed (erule still; auto split: if_splits)+
qed

lemma views_invD:
  assumes "views_inv os v0 S"
  shows "views (board os S) i = counted (v0 i) (count_list (seen S) i)"
    and "own_of (phases S t) = Some (i, k) \<Longrightarrow> \<exists>n. views (board os S) i = Some n \<and> k \<le> n"
    and "own_of (phases S t) = Some (i, k) \<Longrightarrow> own_of (phases S t') = Some (i, k) \<Longrightarrow> t = t'"
    and "number_of (phases S t) = Some (i, k, v) \<Longrightarrow>
      own_of (phases S t) = Some (i, k) \<and> k \<le> v \<and> (\<exists>n. views (board os S) i = Some n \<and> v \<le> n)"
  using assms unfolding views_inv_def by blast+

lemma views_inv_quiet:
  assumes "views_inv os v0 S" and "phases S' = (phases S)(t := ph)" and "views_quiet os S S' t ph"
  shows "views_inv os v0 S'"
proof -
  note inv = views_invD [OF assms(1)]
  have same: "views (board os S') = views (board os S)" "seen S' = seen S"
    using assms(3) by (simp_all add: views_quiet_def)
  have own: "own_of (phases S' u) = Some (i, k) \<Longrightarrow> own_of (phases S u) = Some (i, k)" for u i k
    using assms(2,3) by (auto simp: views_quiet_def split: if_splits)
  have "own_of (phases S' u) = Some (i, k) \<and> k \<le> v \<and> (\<exists>n. views (board os S) i = Some n \<and> v \<le> n)"
    if n: "number_of (phases S' u) = Some (i, k, v)" for u i k v
  proof (cases "u = t \<and> number_of (phases S t) \<noteq> Some (i, k, v)")
    case True
    with n assms(2,3) have o: "own_of (phases S' u) = Some (i, k)" "v = get_view_count i (module S)"
      by (auto simp: views_quiet_def)
    from inv(2) [OF own [OF o(1)]] obtain n where "views (board os S) i = Some n" "k \<le> n" by blast
    with o show ?thesis by (simp add: views_in_board [of _ _ os])
  next
    case False
    with n assms(2) have "number_of (phases S u) = Some (i, k, v)" by (auto split: if_splits)
    moreover have "own_of (phases S' u) = Some (i, k)"
      using n assms(2,3) inv(4) [OF calculation] by (auto simp: views_quiet_def split: if_splits)
    ultimately show ?thesis using inv(4) by blast
  qed
  with inv(1,2,3) own show ?thesis unfolding views_inv_def same by blast
qed

lemma views_inv_view:
  assumes "views_inv os v0 S"
    and "phases S' = (phases S)(t := Counted i (get_view_count i (module S')))" and "seen S' = seen S @ [i]"
    and "board os S' = count_view i (board os S)"
  shows "views_inv os v0 S'"
proof -
  note inv = views_invD [OF assms(1)]
  let ?k = "case views (board os S) i of Some k \<Rightarrow> k + 1 | None \<Rightarrow> 1"
  have views: "views (board os S') = (views (board os S))(i \<mapsto> ?k)" by (simp add: assms(4))
  then have k: "get_view_count i (module S') = ?k" by (simp add: views_in_board [of _ _ os])
  have table: "views (board os S') j = counted (v0 j) (count_list (seen S') j)" for j
    using inv(1) counted_Suc [of "v0 i" "count_list (seen S) i"] by (simp add: views assms(3))
  have above: "\<exists>n. views (board os S') j = Some n \<and> l \<le> n" if "\<exists>n. views (board os S) j = Some n \<and> l \<le> n" for j l
    using that by (auto simp: views)
  have less: "l < ?k" if "own_of (phases S u) = Some (i, l)" for u l
    using inv(2) [OF that] by auto
  have "\<exists>n. views (board os S') j = Some n \<and> l \<le> n" if "own_of (phases S' u) = Some (j, l)" for u j l
    using that inv(2) [THEN above, of u j l] by (cases "u = t") (auto simp: assms(2) k views)
  moreover have "u = u'" if "own_of (phases S' u) = Some (j, l)" "own_of (phases S' u') = Some (j, l)" for u u' j l
    using that inv(3) [of u j l u'] less [of u l] less [of u' l] by (auto simp: assms(2) k split: if_splits)
  moreover have "own_of (phases S' u) = Some (j, l) \<and> l \<le> v \<and> (\<exists>n. views (board os S') j = Some n \<and> v \<le> n)"
    if "number_of (phases S' u) = Some (j, l, v)" for u j l v
  proof -
    from that have "u \<noteq> t" "number_of (phases S u) = Some (j, l, v)" by (auto simp: assms(2) split: if_splits)
    with inv(4) [of u j l v] above [of j v] show ?thesis by (simp add: assms(2))
  qed
  ultimately show ?thesis unfolding views_inv_def using table by blast
qed

section \<open>Runs\<close>

lemma run_root:
  assumes "(thread_step os P)\<^sup>*\<^sup>* (threads_start m0) S" and "path_frame os (root_dir m0)"
  shows "root_dir (module S) = root_dir m0"
  using assms(1)
proof (induction rule: rtranclp_induct)
  case (step S S')
  with step_ids(1) [OF step.hyps(2)] assms(2) show ?case by simp
qed (simp add: threads_start_def)

lemma run_texts:
  assumes "(thread_step os P)\<^sup>*\<^sup>* (threads_start m0) S" and "os_laws os" and "path_frame os (root_dir m0)"
    and "\<And>i. id_count m0 < i \<Longrightarrow> texts (board_of os m0) i = None"
    and "unat (id_count m0) + issued S < 2 ^ 32"
  shows "ids_inv (unat (id_count m0)) S \<and> texts_inv os (unat (id_count m0)) S"
  using assms(1,5)
proof (induction rule: rtranclp_induct)
  case base
  show ?case using assms(4) by (auto simp: ids_inv_def texts_inv_def threads_start_def word_less_nat_alt)
next
  case (step S S')
  have frame: "path_frame os (root_dir (module S))" using run_root [OF step.hyps(1) assms(3)] assms(3) by simp
  have "issued S \<le> issued S'" using step_ids(2) [OF step.hyps(2) frame] by auto
  with step.prems step.IH have "ids_inv (unat (id_count m0)) S" "texts_inv os (unat (id_count m0)) S" by simp_all
  from invariants_step [OF step.hyps(2) assms(2) frame this step.prems] show ?case .
qed

lemma run_views:
  assumes "(thread_step os P)\<^sup>*\<^sup>* (threads_start m0) S" and "path_frame os (root_dir m0)"
  shows "views_inv os (views (board_of os m0)) S"
  using assms(1)
proof (induction rule: rtranclp_induct)
  case base
  show ?case by (simp add: views_inv_def counted_def)
next
  case (step S S')
  have frame: "path_frame os (root_dir (module S))" using run_root [OF step.hyps(1) assms(2)] assms(2) by simp
  from step.hyps(2) frame show ?case
    by (rule views_step_cases) (use views_inv_quiet views_inv_view step.IH in blast)+
qed

section \<open>Properties\<close>

text \<open>
  C21: in every interleaving of requests, as long as fewer than 2^32 identifiers were drawn and no
  file of a later one is on the disk at the start: no two requests post under one identifier, a text
  posted is on the disk from then on, whatever the others do, and a text that is shown is the
  text of that meme and stays it.
\<close>
theorem concurrent_posts_kept:
  assumes "(thread_step os P)\<^sup>*\<^sup>* (threads_start m0) S" and "os_laws os" and "path_frame os (root_dir m0)"
    and "\<forall>i. id_count m0 < i \<longrightarrow> texts (board_of os m0) i = None"
    and "unat (id_count m0) + issued S < 2 ^ 32"
  shows "(\<forall>t t' c c' i. post_of (phases S t) = Some (c, i) \<and> post_of (phases S t') = Some (c', i) \<longrightarrow> t = t') \<and>
    (\<forall>t c i. phases S t = Posted c i \<longrightarrow> id_count m0 < i \<and> texts (board_of os (module S)) i = Some c) \<and>
    (\<forall>t i x. text_of (phases S t) = Some (i, x) \<longrightarrow> texts (board_of os (module S)) i = Some x)"
proof -
  have inv: "ids_inv (unat (id_count m0)) S" "texts_inv os (unat (id_count m0)) S"
    using run_texts [OF assms(1-3) _ assms(5)] assms(4) by blast+
  then have "id_count m0 < i" if "phases S t = Posted c i" for t c i
    using posted_post [OF that] unfolding ids_inv_def word_less_nat_alt by blast
  with inv show ?thesis unfolding ids_inv_def texts_inv_def by blast
qed

text \<open>
  C22: in every interleaving of requests no view is lost: each meme has the views it had and one for each
  request that counted one; no two requests count the same view; and the number a request shows
  is at least the one it counted and at most the present one (other requests may have counted in
  between, so that two can show the same number).
\<close>
theorem no_view_lost:
  assumes "(thread_step os P)\<^sup>*\<^sup>* (threads_start m0) S" and "path_frame os (root_dir m0)"
  shows "(\<forall>i. views (board_of os (module S)) i = counted (views (board_of os m0) i) (count_list (seen S) i)) \<and>
    (\<forall>t t' i k. own_of (phases S t) = Some (i, k) \<and> own_of (phases S t') = Some (i, k) \<longrightarrow> t = t') \<and>
    (\<forall>t i k v. number_of (phases S t) = Some (i, k, v) \<longrightarrow>
       k \<le> v \<and> (\<exists>n. views (board_of os (module S)) i = Some n \<and> v \<le> n))"
  using run_views [OF assms] unfolding views_inv_def by blast

lemma no_texts: "texts (board_of sample_os no_memes) i = None"
  by (simp add: board_of_def text_on_def no_memes_def sample_os_def item_path_def)

text \<open>Two requests post; the one that drew its number first has not gone on.\<close>

definition two_drawn :: "(disk, rat) threads" where
  "two_drawn = (enter 1 (Numbered ''b'' 2) (no_memes\<lparr>id_count := 2\<rparr>)
     ((enter 0 (Numbered ''a'' 1) (no_memes\<lparr>id_count := 1\<rparr>) (threads_start no_memes))\<lparr>issued := 1\<rparr>))\<lparr>issued := 2\<rparr>"

lemma two_drawn_reached: "(thread_step sample_os rational_platform)\<^sup>*\<^sup>* (threads_start no_memes) two_drawn"
proof -
  let ?S1 = "(enter 0 (Numbered ''a'' 1) (no_memes\<lparr>id_count := 1\<rparr>) (threads_start no_memes))\<lparr>issued := 1\<rparr>"
  have i: "issued (threads_start no_memes :: (disk, rat) threads) + 1 = 1" "issued ?S1 + 1 = 2"
    by (simp_all add: threads_start_def)
  have "thread_step sample_os rational_platform (threads_start no_memes) ?S1"
    by (subst i(1) [symmetric], rule draw) (simp_all add: threads_start_def generate_id_def no_memes_def)
  moreover have "thread_step sample_os rational_platform ?S1 two_drawn"
    unfolding two_drawn_def
    by (subst i(2) [symmetric], rule draw) (simp_all add: threads_start_def generate_id_def no_memes_def)
  ultimately show ?thesis by (meson converse_rtranclp_into_rtranclp rtranclp.rtrancl_refl)
qed

theorem concurrent_posts_kept_witness:
  "\<exists>S. (thread_step sample_os rational_platform)\<^sup>*\<^sup>* (threads_start no_memes) S \<and>
     phases S 0 = Numbered ''a'' 1 \<and> phases S 1 = Posted ''b'' 2 \<and>
     texts (board_of sample_os (module S)) 2 = Some ''b''"
proof -
  let ?m = "module two_drawn"
  let ?mk = "create_directory sample_os (meme_path ?m 2) (store ?m)"
  let ?S1 = "performed 1 [Makes 2] (enter 1 (Directory_made ''b'' 2) (?m\<lparr>store := snd ?mk\<rparr>) two_drawn)"
  let ?wr = "write_file sample_os (meme_path (module ?S1) 2 @ ''/content'') ''b'' (store (module ?S1))"
  let ?S2 = "performed 1 [Puts 2 ''b''] (enter 1 (Posted ''b'' 2) ((module ?S1)\<lparr>store := snd ?wr\<rparr>) ?S1)"
  have "fst ?mk = Success" "fst ?wr = Success" by code_simp+
  then have mk: "?mk = (Success, snd ?mk)" and wr: "?wr = (Success, snd ?wr)" by (metis prod.collapse)+
  have "thread_step sample_os rational_platform two_drawn ?S1"
    using make [OF _ mk, of 1 "''b''" rational_platform] by (simp add: two_drawn_def)
  moreover have "thread_step sample_os rational_platform ?S1 ?S2"
    using fill [OF _ wr, of 1 rational_platform] by simp
  ultimately have run: "(thread_step sample_os rational_platform)\<^sup>*\<^sup>* (threads_start no_memes) ?S2"
    using two_drawn_reached by (meson rtranclp.rtrancl_into_rtrancl)
  have "unat (id_count no_memes) + issued ?S2 < 2 ^ 32" by (simp add: no_memes_def two_drawn_def)
  from concurrent_posts_kept [OF run sample_os_laws sample_path_frame _ this]
  have "\<forall>t c i. phases ?S2 t = Posted c i \<longrightarrow> texts (board_of sample_os (module ?S2)) i = Some c"
    using no_texts by blast
  moreover have "phases ?S2 1 = Posted ''b'' 2" "phases ?S2 0 = Numbered ''a'' 1"
    by (simp_all add: two_drawn_def)
  ultimately show ?thesis using run by blast
qed

theorem no_view_lost_witness:
  "\<exists>S. (thread_step sample_os sample_platform)\<^sup>*\<^sup>* (threads_start memes) S \<and>
     own_of (phases S 0) = Some (7, 42) \<and> own_of (phases S 1) = Some (7, 43) \<and>
     views (board_of sample_os (module S)) 7 = Some 43"
proof -
  let ?S0 = "threads_start memes"
  let ?S1 = "enter 0 (Found 7) memes ?S0"
  let ?S2 = "enter 1 (Found 7) memes ?S1"
  let ?v1 = "increment_view_count sample_os 7 (module ?S2)"
  let ?S3 = "performed 0 [Sees 7] (enter 0 (Counted 7 42) (snd ?v1) ?S2)"
  let ?v2 = "increment_view_count sample_os 7 (module ?S3)"
  let ?S4 = "performed 1 [Sees 7] (enter 1 (Counted 7 43) (snd ?v2) ?S3)"
  have there: "exist sample_os (meme_path memes 7) (store memes)"
    "os_is_directory sample_os (disk_of (store memes)) (meme_path memes 7)"
    by code_simp+
  have "fst ?v1 = Inr ()" "fst ?v2 = Inr ()" and n: "get_view_count 7 (snd ?v1) = 42" "get_view_count 7 (snd ?v2) = 43"
    by code_simp+
  then have v: "?v1 = (Inr (), snd ?v1)" "?v2 = (Inr (), snd ?v2)" by (metis prod.collapse)+
  have "thread_step sample_os sample_platform ?S0 ?S1"
    using find [of ?S0 0 True sample_os 7 sample_platform] there by simp
  moreover have "thread_step sample_os sample_platform ?S1 ?S2"
    using find [of ?S1 1 True sample_os 7 sample_platform] there by simp
  moreover have "thread_step sample_os sample_platform ?S2 ?S3"
    using view [OF _ v(1), of 0 sample_platform] n(1) by simp
  moreover have "thread_step sample_os sample_platform ?S3 ?S4"
    using view [OF _ v(2), of 1 sample_platform] n(2) by simp
  ultimately have run: "(thread_step sample_os sample_platform)\<^sup>*\<^sup>* ?S0 ?S4"
    by (meson rtranclp.rtrancl_into_rtrancl rtranclp.rtrancl_refl)
  have "views (board_of sample_os (module ?S4)) 7 = counted (views (board_of sample_os memes) 7) (count_list (seen ?S4) 7)"
    using no_view_lost [OF run sample_path_frame] by blast
  then have "views (board_of sample_os (module ?S4)) 7 = Some 43"
    by (simp add: memes_views counted_def)
  moreover have "own_of (phases ?S4 0) = Some (7, 42)" "own_of (phases ?S4 1) = Some (7, 43)" by simp_all
  ultimately show ?thesis using run by blast
qed

end
