(* ===== verification/Meme_History.thy ===== *)
theory Meme_History
  imports Meme_Threads
begin

text \<open>
  What the requests to a meme module do together: the board after any interleaving is the board
  before with the changes the requests made, one after the other in the order they were made, and
  each request has made the changes of its own operation and no others. What a request shows is
  described by the same changes: the comments of an information page were filed with that meme, and
  the rows of a list page fit its condition although other requests count views meanwhile.
\<close>

section \<open>The changes\<close>

fun apply_change :: "'f platform \<Rightarrow> change \<Rightarrow> 'f board \<Rightarrow> 'f board" where
  "apply_change P (Makes i) B = B\<lparr>there := (there B)(i := True)\<rparr>"
| "apply_change P (Puts i c) B = B\<lparr>texts := (texts B)(i \<mapsto> c)\<rparr>"
| "apply_change P (Sees i) B = count_view i B"
| "apply_change P (Votes i r) B = B\<lparr>votes := (votes B)(i \<mapsto> next_rating P (votes B i) r)\<rparr>"
| "apply_change P (Notes i u c) B = B\<lparr>remarks := (remarks B)((i, u) \<mapsto> c)\<rparr>"

definition apply_changes :: "'f platform \<Rightarrow> change list \<Rightarrow> 'f board \<Rightarrow> 'f board" where
  "apply_changes P = fold (apply_change P)"

lemma apply_changes_simps [simp]:
  "apply_changes P [] B = B"
  "apply_changes P (e # es) B = apply_changes P es (apply_change P e B)"
  "apply_changes P (es @ fs) B = apply_changes P fs (apply_changes P es B)"
  by (simp_all add: apply_changes_def)

fun has_done :: "'f phase \<Rightarrow> change list \<Rightarrow> bool" where
  \<comment> \<open>the changes a request has made when it is in a phase\<close>
  "has_done (Directory_made c i) es = (es = [Makes i])"
| "has_done (Posted c i) es = (es = [Makes i, Puts i c])"
| "has_done Not_posted es = (es = [] \<or> (\<exists>i. es = [Makes i]))"
| "has_done (Counted i k) es = (es = [Sees i])"
| "has_done (Text_read i k x) es = (es = [Sees i])"
| "has_done (Views_read i k x v) es = (es = [Sees i])"
| "has_done (Shown i k x v r) es = (es = [Sees i])"
| "has_done Not_shown es = (es = [] \<or> (\<exists>i. es = [Sees i]))"
| "has_done (Voted i c) es = (\<exists>r. es = [Votes i r])"
| "has_done (Meme_found i c) es = (\<exists>r. es = [Votes i r])"
| "has_done (No_comments i c) es = (\<exists>r. es = [Votes i r])"
| "has_done (Comments_there i c) es = (\<exists>r. es = [Votes i r])"
| "has_done Commented es = (\<exists>i r. es = [Votes i r] \<or> (\<exists>u c. es = [Votes i r, Notes i u c]))"
| "has_done _ es = (es = [])"

definition changes_of :: "nat \<Rightarrow> ('w, 'f) threads \<Rightarrow> change list" where
  "changes_of t S = map snd (filter (\<lambda>e. fst e = t) (history S))"

lemma changes_of_performed:
  "history S' = history S @ map (Pair t) es \<Longrightarrow>
   changes_of u S' = (if u = t then changes_of u S @ es else changes_of u S)"
  by (simp add: changes_of_def filter_map comp_def)

section \<open>One step\<close>

lemma made_board:
  assumes "os_laws os" and "path_frame os (root_dir m)"
    and "create_directory os (meme_path m i) (store m) = (st, fs)"
  shows "board_of os (m\<lparr>store := fs\<rparr>) = apply_changes P (if st = Success then [Makes i] else []) (board_of os m)"
  using assms(3) [unfolded meme_path_item(2)]
  by (rule create_directory_cases) (use made_meme [OF assms(1,2)] in \<open>auto simp: board_of_def\<close>)

lemma filled_board:
  assumes "os_laws os" and "path_frame os (root_dir m)"
    and "write_file os (meme_path m i @ ''/content'') c (store m) = (st, fs)"
  shows "board_of os (m\<lparr>store := fs\<rparr>) = apply_changes P (if st = Success then [Puts i c] else []) (board_of os m)"
  using assms(3) [unfolded meme_path_item(1)]
  by (rule write_file_cases) (use wrote_content [OF assms(1,2)] in \<open>auto simp: board_of_def\<close>)

lemma comments_board:
  assumes "path_frame os (root_dir m)"
    and "create_directory os (meme_path m i @ ''/comments'') (store m) = (st, fs)"
  shows "board_of os (m\<lparr>store := fs\<rparr>) = board_of os m"
  using assms(2) [unfolded meme_path_item(1)]
  by (rule create_directory_cases) (use made_comments [OF assms(1)] in \<open>auto simp: board_of_def\<close>)

lemma remark_board:
  assumes "os_laws os" and "path_frame os (root_dir m)" and "name_part u"
    and "write_file os ((meme_path m i @ ''/comments'') @ ''/'' @ u) c (store m) = (st, fs)"
  shows "board_of os (m\<lparr>store := fs\<rparr>) = apply_changes P (if st = Success then [Notes i u c] else []) (board_of os m)"
proof -
  have "(meme_path m i @ ''/comments'') @ ''/'' @ u = item_path (root_dir m) i (remark_item u)"
    by (simp add: meme_path_def item_path_def remark_item_def)
  from assms(4) [unfolded this] show ?thesis
    by (rule write_file_cases) (use wrote_comment [OF assms(1-3)] in \<open>auto simp: board_of_def\<close>)
qed

text \<open>Each step appends the changes it makes; one that makes none leaves the board as it is.\<close>

lemma step_history:
  assumes "thread_step os P S S'" and "os_laws os" and "path_frame os (root_dir (module S))"
  obtains t ph es where "phases S' = (phases S)(t := ph)" "history S' = history S @ map (Pair t) es"
    "board os S' = apply_changes P es (board os S)" "\<And>ds. has_done (phases S t) ds \<Longrightarrow> has_done ph (ds @ es)"
proof -
  note one = that
  have still: thesis
    if "S' = enter t ph (module S) S" "\<And>ds. has_done (phases S t) ds \<Longrightarrow> has_done ph ds" for t ph
    by (rule one [of t ph "[]"]) (use that in simp_all)
  from assms(1) show thesis
  proof cases
    case (draw t i m c)
    with drawn [OF draw(3)] show thesis by (intro one [of t "Numbered c i" "[]"]) simp_all
  next
    case (make t c i st fs)
    from made_board [OF assms(2,3) make(3), of P] make show thesis
      by (intro one [of t "if st \<noteq> Success then Not_posted else Directory_made c i" "if st = Success then [Makes i] else []"]) (auto split: if_splits)
  next
    case (fill t c i st fs)
    from filled_board [OF assms(2,3) fill(3), of P] fill show thesis
      by (intro one [of t "if st \<noteq> Success then Not_posted else Posted c i" "if st = Success then [Puts i c] else []"]) (auto split: if_splits)
  next
    case (view t i m)
    with view_refines(2) [OF assms(3) view(3)] show thesis by (intro one [of t "Counted i (get_view_count i m)" "[Sees i]"]) simp_all
  next
    case (view_full t i e m)
    with full_counter(1) [OF view_full(3)] show thesis by (intro still [of t "Failed e"]) simp_all
  next
    case (read t i k x m)
    with content_read [OF read(3)] show thesis
      by (intro one [of t "if x = [] then Not_shown else Text_read i k x" "[]"]) simp_all
  next
    case (vote t i r m c)
    with rate_refines(2) [OF assms(3) vote(3)] show thesis by (intro one [of t "Voted i c" "[Votes i r]"]) simp_all
  next
    case (vote_full t i r e m)
    with full_counter(2) [OF vote_full(3)] show thesis by (intro still [of t "Failed e"]) simp_all
  next
    case (make_comments t i c st fs)
    with comments_board [OF assms(3) make_comments(3)] show thesis
      by (intro one [of t "Comments_there i c" "[]"]) simp_all
  next
    case (remark t i c uuid st fs)
    from remark_board [OF assms(2,3) remark(3,4), of P] remark show thesis
      by (intro one [of t Commented "if st = Success then [Notes i uuid c] else []"]) auto
  next
    case (read_comment t i p n es cs st x fs ph)
    have "has_done ph ds = (ds = [])" for ds using read_comment(4) by (auto split: sum.splits)
    with read_comment file_read [OF read_comment(3)] show thesis by (intro one [of t ph "[]"]) simp_all
  qed (erule still; auto split: if_splits)+
qed

section \<open>Runs\<close>

lemma run_frame:
  assumes "(thread_step os P)\<^sup>*\<^sup>* (threads_start m0) S" and "path_frame os (root_dir m0)"
  shows "path_frame os (root_dir (module S))"
  using run_root [OF assms] assms(2) by simp

lemma run_history:
  assumes "(thread_step os P)\<^sup>*\<^sup>* (threads_start m0) S" and "os_laws os" and "path_frame os (root_dir m0)"
  shows "board os S = apply_changes P (map snd (history S)) (board_of os m0) \<and>
    (\<forall>t. has_done (phases S t) (changes_of t S))"
  using assms(1)
proof (induction rule: rtranclp_induct)
  case base
  show ?case by (simp add: changes_of_def)
next
  case (step S S')
  from step.hyps(2) assms(2) run_frame [OF step.hyps(1) assms(3)] show ?case
  proof (rule step_history)
    fix t ph es
    assume "phases S' = (phases S)(t := ph)" and h: "history S' = history S @ map (Pair t) es"
      "board os S' = apply_changes P es (board os S)" "\<And>ds. has_done (phases S t) ds \<Longrightarrow> has_done ph (ds @ es)"
    with step.IH changes_of_performed [OF h(1)] show ?case by (simp add: comp_def)
  qed
qed

section \<open>What is shown\<close>

text \<open>The comments a request has read, or is about to read.\<close>

definition filed :: "'f board \<Rightarrow> (nat \<times> change) list \<Rightarrow> meme_id \<Rightarrow> string \<Rightarrow> bool" where
  \<comment> \<open>a remark on the meme that was there at the start or was filed since\<close>
  "filed B hs i x \<longleftrightarrow> (\<exists>u. remarks B (i, u) = Some x) \<or> (\<exists>t u. (t, Notes i u x) \<in> set hs)"

fun comments_of :: "'f phase \<Rightarrow> (meme_id \<times> comment list) option" where
  "comments_of (Reading i es cs) = Some (i, cs)"
| "comments_of (Comments_read i cs) = Some (i, cs)"
| "comments_of (Info_views i cs v) = Some (i, cs)"
| "comments_of (Info_shown i cs v r) = Some (i, cs)"
| "comments_of _ = None"

fun entries_of :: "'f phase \<Rightarrow> (meme_id \<times> (string \<times> string) list) option" where
  "entries_of (Reading i es cs) = Some (i, es)"
| "entries_of _ = None"

definition names_law :: "'w os \<Rightarrow> bool" where
  \<comment> \<open>the entries a directory iterator gives are names below the path it was opened with\<close>
  "names_law os \<longleftrightarrow>
     (\<forall>w q p n. (p, n) \<in> set (os_entries os w (q @ ''/comments'')) \<longrightarrow>
        name_part n \<and> p = q @ ''/comments/'' @ n)"

definition comments_inv :: "'f board \<Rightarrow> ('w, 'f) threads \<Rightarrow> bool" where
  "comments_inv B S \<longleftrightarrow>
     (\<forall>t i cs. comments_of (phases S t) = Some (i, cs) \<longrightarrow>
        (\<forall>c \<in> set cs. filed B (history S) i (comment_content c))) \<and>
     (\<forall>t i es. entries_of (phases S t) = Some (i, es) \<longrightarrow>
        (\<forall>(p, n) \<in> set es. name_part n \<and> p = item_path (root_dir (module S)) i (remark_item n)))"

lemma changed_remarks:
  "remarks (apply_changes P es B) (i, u) = Some x \<Longrightarrow> remarks B (i, u) = Some x \<or> Notes i u x \<in> set es"
proof (induction es arbitrary: B)
  case (Cons e es)
  from Cons.IH Cons.prems have "remarks (apply_change P e B) (i, u) = Some x \<or> Notes i u x \<in> set es" by simp
  then show ?case by (cases e) (auto simp: count_view_def split: if_splits)
qed simp

lemma remarks_filed:
  assumes "board os S = apply_changes P (map snd (history S)) B" and "remarks (board os S) (i, u) = Some x"
  shows "filed B (history S) i x"
  using changed_remarks [of P "map snd (history S)" B i u x] assms by (force simp: filed_def)

lemma filed_append: "filed B hs i x \<Longrightarrow> filed B (hs @ hs') i x"
  by (auto simp: filed_def)

lemma comment_read:
  assumes "read_file os (item_path (root_dir m) i (remark_item n)) [] (store m) = (Success, x, fs)" and "name_part n"
  shows "remarks (board_of os m) (i, n) = Some x"
  using assms
  by (auto simp: read_file_def board_of_def remark_on_def exist_def Let_def split: if_splits option.splits)

text \<open>
  A step of request \<open>t\<close> adds a comment only after it was read from a file with a name of the
  meme's comments, and entries only from the directory itself.
\<close>

lemma step_comments:
  assumes "thread_step os P S S'" and "names_law os"
  obtains t ph where "phases S' = (phases S)(t := ph)"
    "\<And>i cs. comments_of ph = Some (i, cs) \<Longrightarrow>
       cs = [] \<or> comments_of (phases S t) = Some (i, cs) \<or>
       (\<exists>p n es cs0 c fs. phases S t = Reading i ((p, n) # es) cs0 \<and> cs = cs0 @ [c] \<and>
          read_file os p [] (store (module S)) = (Success, comment_content c, fs))"
    "\<And>i es p n. entries_of ph = Some (i, es) \<Longrightarrow> (p, n) \<in> set es \<Longrightarrow>
       (\<exists>es0. entries_of (phases S t) = Some (i, es0) \<and> (p, n) \<in> set es0) \<or>
       name_part n \<and> p = item_path (root_dir (module S)) i (remark_item n)"
proof -
  have names: "name_part n \<and> p = item_path (root_dir (module S)) i (remark_item n)"
    if "(p, n) \<in> set (os_entries os w (meme_path (module S) i @ ''/comments''))" for p n w i
  proof -
    have "name_part n \<and> p = meme_path (module S) i @ ''/comments/'' @ n"
      using assms(2) [unfolded names_law_def] that by blast
    then show ?thesis by (simp add: meme_path_def item_path_def remark_item_def)
  qed
  note one = that
  from assms(1) show thesis
  proof cases
    case (open_comments t i es)
    then show thesis by (intro one [of t "Reading i es []"]) (auto dest: names)
  next
    case (late_comment t i es cs e)
    then show thesis by (intro one [of t "Reading i (es @ [e]) cs"]) (auto dest: names)
  next
    case (read_comment t i p n es cs st x fs ph)
    then show thesis
      by (intro one [of t ph]) (auto split: sum.splits if_splits dest: make_comment_content)
  qed (rule one, simp; auto split: if_splits)+
qed

lemma comments_invD:
  assumes "comments_inv B S"
  shows "comments_of (phases S t) = Some (i, cs) \<Longrightarrow> c \<in> set cs \<Longrightarrow> filed B (history S) i (comment_content c)"
    and "entries_of (phases S t) = Some (i, es) \<Longrightarrow> (p, n) \<in> set es \<Longrightarrow>
      name_part n \<and> p = item_path (root_dir (module S)) i (remark_item n)"
  using assms unfolding comments_inv_def by blast+

lemma comments_inv_step:
  assumes "thread_step os P S S'" and "names_law os" and "comments_inv B S"
    and "board os S = apply_changes P (map snd (history S)) B"
    and "root_dir (module S') = root_dir (module S)" and "history S' = history S @ hs"
  shows "comments_inv B S'"
  using assms(1,2)
proof (rule step_comments)
  fix t ph
  assume ph: "phases S' = (phases S)(t := ph)"
  assume cs: "\<And>i cs. comments_of ph = Some (i, cs) \<Longrightarrow>
       cs = [] \<or> comments_of (phases S t) = Some (i, cs) \<or>
       (\<exists>p n es cs0 c fs. phases S t = Reading i ((p, n) # es) cs0 \<and> cs = cs0 @ [c] \<and>
          read_file os p [] (store (module S)) = (Success, comment_content c, fs))"
  assume es: "\<And>i es p n. entries_of ph = Some (i, es) \<Longrightarrow> (p, n) \<in> set es \<Longrightarrow>
       (\<exists>es0. entries_of (phases S t) = Some (i, es0) \<and> (p, n) \<in> set es0) \<or>
       name_part n \<and> p = item_path (root_dir (module S)) i (remark_item n)"
  note inv = comments_invD [OF assms(3)]
  have old: "filed B (history S) i (comment_content c)" if "comments_of ph = Some (i, cs)" "c \<in> set cs" for i cs c
    using cs [OF that(1)]
  proof (elim disjE exE conjE)
    fix p n es cs0 d fs
    assume r: "phases S t = Reading i ((p, n) # es) cs0" "cs = cs0 @ [d]"
      "read_file os p [] (store (module S)) = (Success, comment_content d, fs)"
    then have "name_part n" "p = item_path (root_dir (module S)) i (remark_item n)"
      using inv(2) [of t i "(p, n) # es" p n] by simp_all
    with r(3) comment_read have "remarks (board os S) (i, n) = Some (comment_content d)" by blast
    from remarks_filed [OF assms(4) this] r that(2) inv(1) [of t i cs0 c] show ?thesis by auto
  qed (use that(2) inv(1) in auto)
  have "filed B (history S') i (comment_content c)"
    if "comments_of (phases S' u) = Some (i, cs)" "c \<in> set cs" for u i cs c
    unfolding assms(6) by (rule filed_append) (use that ph old inv(1) in \<open>auto split: if_splits\<close>)
  moreover have "name_part n \<and> p = item_path (root_dir (module S')) i (remark_item n)"
    if "entries_of (phases S' u) = Some (i, es)" "(p, n) \<in> set es" for u i es p n
  proof (cases "u = t")
    case True
    with that ph have "entries_of ph = Some (i, es)" by simp
    from es [OF this that(2)] inv(2) show ?thesis unfolding assms(5) by blast
  next
    case False
    with that ph inv(2) show ?thesis by (simp add: assms(5))
  qed
  ultimately show ?thesis unfolding comments_inv_def by blast
qed

lemma run_comments:
  assumes "(thread_step os P)\<^sup>*\<^sup>* (threads_start m0) S" and "os_laws os" and "path_frame os (root_dir m0)"
    and "names_law os"
  shows "comments_inv (board_of os m0) S"
  using assms(1)
proof (induction rule: rtranclp_induct)
  case base
  show ?case by (simp add: comments_inv_def)
next
  case (step S S')
  have frame: "path_frame os (root_dir (module S))" by (rule run_frame [OF step.hyps(1) assms(3)])
  from run_history [OF step.hyps(1) assms(2,3)]
  have h: "board os S = apply_changes P (map snd (history S)) (board_of os m0)" ..
  from step.hyps(2) assms(2) frame obtain t es where "history S' = history S @ map (Pair t) es"
    by (rule step_history)
  from comments_inv_step [OF step.hyps(2) assms(4) step.IH h step_ids(1) [OF step.hyps(2) frame] this] show ?case .
qed

section \<open>List pages\<close>

definition row_ok :: "'f listing \<Rightarrow> ('w, 'f) meme_module \<Rightarrow> int \<times> int \<Rightarrow> bool" where
  \<comment> \<open>a row fits the page, and its number is not above the present one\<close>
  "row_ok q m r \<longleftrightarrow> snd r \<le> get_view_count (word_of_int (fst r)) m \<and>
     (case q of By_views l \<Rightarrow> l < snd r | _ \<Rightarrow> True)"

definition rows_ok :: "'f listing \<Rightarrow> int \<Rightarrow> ('w, 'f) meme_module \<Rightarrow> (int \<times> int) list \<Rightarrow> bool" where
  \<comment> \<open>the rows of the identifiers below \<open>k\<close>\<close>
  "rows_ok q k m xs \<longleftrightarrow> sorted_wrt (<) (map fst xs) \<and> set (map fst xs) \<subseteq> {1..<k} \<and>
     (q = All_memes \<longrightarrow> map fst xs = [1..k - 1]) \<and> list_all (row_ok q m) xs"

fun page_ok :: "('w, 'f) meme_module \<Rightarrow> 'f phase \<Rightarrow> bool" where
  "page_ok m (Listing q n k xs) = (1 \<le> k \<and> k \<le> max 1 (n + 1) \<and> rows_ok q k m xs)"
| "page_ok m (Chosen q n k xs) = (1 \<le> k \<and> k \<le> n \<and> rows_ok q k m xs \<and>
     (case q of By_views l \<Rightarrow> l < get_view_count (word_of_int k) m | _ \<Rightarrow> True))"
| "page_ok m (Listed q n xs) = rows_ok q (max 1 (n + 1)) m xs"
| "page_ok m _ = True"

lemma rows_ok_skip: "rows_ok q k m xs \<Longrightarrow> q \<noteq> All_memes \<Longrightarrow> rows_ok q (k + 1) m xs"
  by (auto simp: rows_ok_def)

lemma rows_ok_add:
  assumes "rows_ok q k m xs" and "row_ok q m (k, v)" and "1 \<le> k"
  shows "rows_ok q (k + 1) m (xs @ [(k, v)])"
  using assms by (auto simp: rows_ok_def sorted_wrt_append upto_rec2)

lemma more_views:
  assumes "thread_step os P S S'" and "path_frame os (root_dir (module S))"
  shows "get_view_count i (module S) \<le> get_view_count i (module S')"
  using assms
  by (rule views_step_cases)
    (auto simp: views_in_board [of _ _ os] views_quiet_def split: option.splits)

lemma page_ok_later:
  assumes "page_ok m ph" and "\<And>i. get_view_count i m \<le> get_view_count i m'"
  shows "page_ok m' ph"
proof -
  have "row_ok q m r \<Longrightarrow> row_ok q m' r" for q and r :: "int \<times> int"
    using assms(2) by (auto simp: row_ok_def intro: order_trans split: listing.splits)
  then have rows: "rows_ok q k m xs \<Longrightarrow> rows_ok q k m' xs" for q k xs
    unfolding rows_ok_def by (metis list_all_iff)
  show ?thesis
  proof (cases ph)
    case (Chosen q n k xs)
    with assms(1) rows order_less_le_trans [OF _ assms(2)] show ?thesis
      by (auto split: listing.splits)
  qed (use assms(1) rows in auto)
qed

lemma step_page:
  assumes "thread_step os P S S'"
  obtains t ph where "phases S' = (phases S)(t := ph)"
    "page_ok (module S) (phases S t) \<Longrightarrow> page_ok (module S') ph"
proof -
  note one = that
  from assms show thesis
  proof cases
    case (start_list t q)
    then show thesis
      by (intro one [of t "Listing q (get_meme_count (module S)) 1 []"]) (simp_all add: rows_ok_def)
  next
    case (test_meme t q n k xs)
    then show thesis
      by (intro one [of t "if list_wants P q k (module S) then Chosen q n k xs else Listing q n (k + 1) xs"])
        (auto simp: list_wants_def rows_ok_skip split: listing.splits)
  next
    case (list_meme t q n k xs)
    let ?v = "get_view_count (word_of_int k) (module S)"
    have "rows_ok q (k + 1) (module S) (xs @ [(k, ?v)])" if "page_ok (module S) (Chosen q n k xs)"
      using that by (intro rows_ok_add) (auto simp: row_ok_def split: listing.splits)
    with list_meme show thesis
      by (intro one [of t "Listing q n (k + 1) (xs @ [(k, ?v)])"]) (auto simp: list_wants_def)
  next
    case (end_list t q n k xs)
    then have "page_ok (module S) (phases S t) \<Longrightarrow> k = max 1 (n + 1)" by auto
    with end_list show thesis by (intro one [of t "Listed q n xs"]) auto
  next
    case (read_comment t i p n es cs st x fs ph)
    then have "page_ok (module S') ph" by (auto split: sum.splits)
    with read_comment show thesis by (intro one [of t ph]) auto
  qed (rule one, simp; simp)+
qed

lemma run_pages:
  assumes "(thread_step os P)\<^sup>*\<^sup>* (threads_start m0) S" and "path_frame os (root_dir m0)"
  shows "page_ok (module S) (phases S t)"
  using assms(1)
proof (induction arbitrary: t rule: rtranclp_induct)
  case (step S S')
  have later: "page_ok (module S) ph \<Longrightarrow> page_ok (module S') ph" for ph
    by (erule page_ok_later) (rule more_views [OF step.hyps(2) run_frame [OF step.hyps(1) assms(2)]])
  from step.hyps(2) show ?case
    by (rule step_page) (use step.IH later in auto)
qed simp

section \<open>A request alone\<close>

text \<open>
  The steps of one request that is not interrupted are the operation of the module, branch for branch.
\<close>

lemma step_run:
  assumes "thread_step os P S S1" and "(thread_step os P)\<^sup>*\<^sup>* S1 S2"
  shows "(thread_step os P)\<^sup>*\<^sup>* S S2"
  using assms by (rule converse_rtranclp_into_rtranclp)

lemma one_step: "thread_step os P S S1 \<Longrightarrow> (thread_step os P)\<^sup>*\<^sup>* S S1"
  by (rule r_into_rtranclp)

lemma create_alone:
  assumes "phases S t = Idle" and "create_meme os c (module S) = (r, m')"
  shows "\<exists>S'. (thread_step os P)\<^sup>*\<^sup>* S S' \<and> module S' = m' \<and>
    phases S' = (phases S)(t := (case r of Some i \<Rightarrow> Posted c i | None \<Rightarrow> Not_posted))"
proof -
  obtain i m1 where g: "generate_id (module S) = (i, m1)" by (cases "generate_id (module S)")
  obtain st fs where mk: "create_directory os (meme_path m1 i) (store m1) = (st, fs)"
    by (cases "create_directory os (meme_path m1 i) (store m1)")
  let ?m2 = "m1\<lparr>store := fs\<rparr>"
  obtain st2 fs2 where wr: "write_file os (meme_path ?m2 i @ ''/content'') c (store ?m2) = (st2, fs2)"
    by (cases "write_file os (meme_path ?m2 i @ ''/content'') c (store ?m2)")
  let ?S1 = "(enter t (Numbered c i) m1 S)\<lparr>issued := issued S + 1\<rparr>"
  let ?S2 = "performed t (if st = Success then [Makes i] else [])
    (enter t (if st \<noteq> Success then Not_posted else Directory_made c i) ?m2 ?S1)"
  let ?S3 = "performed t (if st2 = Success then [Puts i c] else [])
    (enter t (if st2 \<noteq> Success then Not_posted else Posted c i) (?m2\<lparr>store := fs2\<rparr>) ?S2)"
  have s1: "thread_step os P S ?S1" by (rule draw [OF assms(1) g])
  have s2: "thread_step os P ?S1 ?S2"
    using make [of ?S1 t c i os st fs P] mk by simp
  show ?thesis
  proof (cases "st = Success")
    case False
    with assms(2) g mk have "r = None" "m' = ?m2" by (auto simp: create_meme_def Let_def)
    with False have "module ?S2 = m'" "phases ?S2 = (phases S)(t := Not_posted)" by simp_all
    with \<open>r = None\<close> step_run [OF s1 one_step [OF s2]] show ?thesis by (metis option.simps(4))
  next
    case True
    have s3: "thread_step os P ?S2 ?S3"
      using fill [of ?S2 t c i os st2 fs2 P] wr True by simp
    from assms(2) g mk wr True have "r = (if st2 \<noteq> Success then None else Some i)" "m' = ?m2\<lparr>store := fs2\<rparr>"
      by (auto simp: create_meme_def Let_def)
    then have "module ?S3 = m'" "phases ?S3 = (phases S)(t := (case r of Some i \<Rightarrow> Posted c i | None \<Rightarrow> Not_posted))"
      by simp_all
    with step_run [OF s1 step_run [OF s2 one_step [OF s3]]] show ?thesis by blast
  qed
qed

lemma get_alone:
  assumes "phases S t = Idle" and "get_meme os P i (module S) = (r, m')"
  shows "\<exists>S' ph. (thread_step os P)\<^sup>*\<^sup>* S S' \<and> module S' = m' \<and> phases S' = (phases S)(t := ph) \<and>
    (case ph of
       Shown j k x v a \<Rightarrow> j = i \<and> x \<noteq> [] \<and> r = and_then (make_meme P x v a) (\<lambda>y. Inr (Some y))
     | Not_shown \<Rightarrow> r = Inr None
     | Failed e \<Rightarrow> r = Inl e
     | _ \<Rightarrow> False)"
proof (cases "exist os (meme_path (module S) i) (store (module S)) \<and>
    os_is_directory os (disk_of (store (module S))) (meme_path (module S) i)")
  case False
  with assms(2) have "r = Inr None" "m' = module S" by (auto simp: get_meme_def)
  moreover from False have "thread_step os P S (enter t Not_shown (module S) S)"
    using find [OF assms(1), of False os i P] by simp
  ultimately show ?thesis by (intro exI [of _ "enter t Not_shown (module S) S"] exI [of _ Not_shown]) auto
next
  case True
  note here = this
  let ?S1 = "enter t (Found i) (module S) S"
  have s1: "thread_step os P S ?S1" using find [OF assms(1), of True os i P] True by simp
  obtain q m1 where inc: "increment_view_count os i (module S) = (q, m1)"
    by (cases "increment_view_count os i (module S)")
  show ?thesis
  proof (cases q)
    case (Inl e)
    let ?S2 = "enter t (Failed e) m1 ?S1"
    have "thread_step os P ?S1 ?S2" using view_full [of ?S1 t i os e m1 P] inc Inl by simp
    with s1 have "(thread_step os P)\<^sup>*\<^sup>* S ?S2" by (blast intro: step_run)
    moreover from assms(2) True inc Inl have "r = Inl e" "m' = m1" by (simp_all add: get_meme_def)
    ultimately show ?thesis by (intro exI [of _ ?S2] exI [of _ "Failed e"]) simp
  next
    case (Inr u)
    let ?k = "get_view_count i m1"
    let ?S2 = "performed t [Sees i] (enter t (Counted i ?k) m1 ?S1)"
    have s2: "thread_step os P ?S1 ?S2" using view [of ?S1 t i os m1 P] inc Inr by simp
    obtain x m2 where c: "get_content os i m1 = (x, m2)" by (cases "get_content os i m1")
    let ?S3 = "enter t (if x = [] then Not_shown else Text_read i ?k x) m2 ?S2"
    have s3: "thread_step os P ?S2 ?S3" using read [of ?S2 t i ?k os x m2 P] c by simp
    have m': "m' = m2" using assms(2) True inc Inr c by (auto simp: get_meme_def split: if_splits)
    show ?thesis
    proof (cases "x = []")
      case True
      with assms(2) here inc Inr c have "r = Inr None" by (auto simp: get_meme_def)
      with True m' step_run [OF s1 step_run [OF s2 one_step [OF s3]]] show ?thesis
        by (intro exI [of _ ?S3] exI [of _ Not_shown]) simp
    next
      case False
      let ?S4 = "enter t (Views_read i ?k x (get_view_count i m2)) m2 ?S3"
      let ?S5 = "enter t (Shown i ?k x (get_view_count i m2) (get_rating P i m2)) m2 ?S4"
      have s4: "thread_step os P ?S3 ?S4" using read_views [of ?S3 t i ?k x os P] False by simp
      have s5: "thread_step os P ?S4 ?S5"
        using read_rating [of ?S4 t i ?k x "get_view_count i m2" os P] by simp
      from assms(2) here inc Inr c False
      have "r = and_then (make_meme P x (get_view_count i m2) (get_rating P i m2)) (\<lambda>y. Inr (Some y))"
        by (auto simp: get_meme_def)
      with False m' step_run [OF s1 step_run [OF s2 step_run [OF s3 step_run [OF s4 one_step [OF s5]]]]]
      show ?thesis
        by (intro exI [of _ ?S5] exI [of _ "Shown i ?k x (get_view_count i m2) (get_rating P i m2)"]) simp
    qed
  qed
qed

lemma comment_alone:
  assumes "phases S t = Idle" and "name_part uuid" and "add_rating os P i k (module S) = (Inr (), m1)"
  shows "\<exists>S'. (thread_step os P)\<^sup>*\<^sup>* S S' \<and> module S' = add_comment os uuid i c m1 \<and>
    phases S' = (phases S)(t := Commented)"
proof -
  let ?x = "comment_content c"
  let ?S1 = "performed t [Votes i k] (enter t (Voted i ?x) m1 S)"
  have s1: "thread_step os P S ?S1" by (rule vote [OF assms(1,3)])
  show ?thesis
  proof (cases "exist os (meme_path m1 i) (store m1)")
    case False
    let ?S2 = "enter t Commented m1 ?S1"
    have s2: "thread_step os P ?S1 ?S2" using find_meme [of ?S1 t i ?x False os P] False by simp
    from False step_run [OF s1 one_step [OF s2]] show ?thesis
      by (intro exI [of _ ?S2]) (simp add: add_comment_def)
  next
    case True
    let ?path = "meme_path m1 i @ ''/comments''"
    let ?S2 = "enter t (Meme_found i ?x) m1 ?S1"
    have s2: "thread_step os P ?S1 ?S2" using find_meme [of ?S1 t i ?x True os P] True by simp
    obtain fs1 S4 where s4: "(thread_step os P)\<^sup>*\<^sup>* ?S2 S4" and "phases S4 = (phases S)(t := Comments_there i ?x)"
      "module S4 = m1\<lparr>store := fs1\<rparr>"
      and fs1: "fs1 = (if \<not> exist os ?path (store m1) then snd (create_directory os ?path (store m1)) else store m1)"
    proof (cases "exist os ?path (store m1)")
      case True
      let ?S3 = "enter t (Comments_there i ?x) m1 ?S2"
      have "thread_step os P ?S2 ?S3" using find_comments [of ?S2 t i ?x True os P] True by simp
      with True show thesis by (intro that [of ?S3 "store m1"]) (auto intro: one_step)
    next
      case False
      let ?S3 = "enter t (No_comments i ?x) m1 ?S2"
      let ?mk = "create_directory os ?path (store m1)"
      let ?S4 = "enter t (Comments_there i ?x) (m1\<lparr>store := snd ?mk\<rparr>) ?S3"
      have s3: "thread_step os P ?S2 ?S3" using find_comments [of ?S2 t i ?x False os P] False by simp
      have s4: "thread_step os P ?S3 ?S4"
        using make_comments [of ?S3 t i ?x os "fst ?mk" "snd ?mk" P] by simp
      from False step_run [OF s3 one_step [OF s4]] show thesis
        by (intro that [of ?S4 "snd ?mk"]) simp_all
    qed
    let ?wr = "write_file os (?path @ ''/'' @ uuid) ?x fs1"
    let ?S5 = "performed t (if fst ?wr = Success then [Notes i uuid ?x] else [])
      (enter t Commented (m1\<lparr>store := snd ?wr\<rparr>) S4)"
    have s5: "thread_step os P S4 ?S5"
      using remark [of S4 t i ?x uuid os "fst ?wr" "snd ?wr" P] assms(2)
        \<open>phases S4 = _\<close> \<open>module S4 = _\<close> by simp
    have "module ?S5 = add_comment os uuid i c m1"
      using True unfolding add_comment_def Let_def fs1 by simp
    with step_run [OF s1 step_run [OF s2 rtranclp_trans [OF s4 one_step [OF s5]]]] \<open>phases S4 = _\<close>
    show ?thesis by (intro exI [of _ ?S5]) simp
  qed
qed

lemma read_alone:
  assumes "phases S t = Reading i es cs" and "read_comments os P es (store (module S)) = (r, fs)"
  shows "\<exists>S' ph. (thread_step os P)\<^sup>*\<^sup>* S S' \<and> module S' = (module S)\<lparr>store := fs\<rparr> \<and> phases S' = (phases S)(t := ph) \<and>
    ph = (case r of Inl e \<Rightarrow> Failed e | Inr ds \<Rightarrow> Comments_read i (cs @ ds))"
  using assms
proof (induction es arbitrary: S cs r fs)
  case Nil
  let ?S1 = "enter t (Comments_read i cs) (module S) S"
  have "thread_step os P S ?S1" by (rule end_comments [OF Nil.prems(1)])
  with Nil.prems(2) show ?case
    by (intro exI [of _ ?S1] exI [of _ "Comments_read i cs"]) (auto intro: one_step)
next
  case (Cons e es)
  obtain p n where e: "e = (p, n)" by (cases e)
  obtain st x fs1 where rd: "read_file os p [] (store (module S)) = (st, x, fs1)"
    by (cases "read_file os p [] (store (module S))")
  let ?ph = "if st \<noteq> Success then Reading i es cs
      else case make_comment P x of Inl e \<Rightarrow> Failed e | Inr c \<Rightarrow> Reading i es (cs @ [c])"
  let ?S1 = "enter t ?ph ((module S)\<lparr>store := fs1\<rparr>) S"
  have s1: "thread_step os P S ?S1"
    using read_comment [OF Cons.prems(1) [unfolded e] rd refl] .
  show ?case
  proof (cases "st = Success \<and> isl (make_comment P x)")
    case True
    then obtain a where a: "make_comment P x = Inl a" by (cases "make_comment P x") auto
    with True Cons.prems(2) e rd have "r = Inl a" "fs = fs1" by simp_all
    with True a s1 show ?thesis
      by (intro exI [of _ ?S1] exI [of _ "Failed a"]) (auto intro: one_step)
  next
    case False
    define ds where "ds = (if st = Success then [projr (make_comment P x)] else [])"
    obtain q fs2 where rest: "read_comments os P es fs1 = (q, fs2)" by (cases "read_comments os P es fs1")
    have ph: "?ph = Reading i es (cs @ ds)"
      using False by (cases "make_comment P x") (auto simp: ds_def)
    have r: "r = and_then q (\<lambda>xs. Inr (ds @ xs)) \<and> fs = fs2"
      using Cons.prems(2) e rd rest False
      by (cases "make_comment P x"; cases q) (auto simp: ds_def split: if_splits)
    let ?S2 = "enter t (Reading i es (cs @ ds)) ((module S)\<lparr>store := fs1\<rparr>) S"
    have s2: "thread_step os P S ?S2" using s1 unfolding ph .
    have "phases ?S2 t = Reading i es (cs @ ds)" "read_comments os P es (store (module ?S2)) = (q, fs2)"
      using rest by simp_all
    from Cons.IH [OF this] obtain S' where
      "(thread_step os P)\<^sup>*\<^sup>* ?S2 S'" "module S' = (module ?S2)\<lparr>store := fs2\<rparr>"
      "phases S' = (phases ?S2)(t := (case q of Inl e \<Rightarrow> Failed e | Inr ys \<Rightarrow> Comments_read i ((cs @ ds) @ ys)))"
      by blast
    with step_run [OF s2] r show ?thesis
      by (intro exI [of _ S'] exI conjI) (auto split: sum.splits)
  qed
qed

lemma info_alone:
  assumes "phases S t = Idle" and "get_comments os P i (module S) = (r, m')"
  shows "\<exists>S'. (thread_step os P)\<^sup>*\<^sup>* S S' \<and> module S' = m' \<and> phases S' = (phases S)(t := (case r of
      Inl e \<Rightarrow> Failed e
    | Inr cs \<Rightarrow> Info_shown i cs (get_view_count i m') (get_rating P i m')))"
proof -
  let ?path = "meme_path (module S) i @ ''/comments''" and ?w = "disk_of (store (module S))"
  have shown: "\<exists>S2. (thread_step os P)\<^sup>*\<^sup>* S1 S2 \<and> module S2 = module S1 \<and>
      phases S2 = (phases S1)(t := Info_shown i cs (get_view_count i (module S1)) (get_rating P i (module S1)))"
    if "phases S1 t = Comments_read i cs" for S1 cs
  proof -
    let ?S2 = "enter t (Info_views i cs (get_view_count i (module S1))) (module S1) S1"
    let ?S3 = "enter t (Info_shown i cs (get_view_count i (module S1)) (get_rating P i (module S1))) (module S1) ?S2"
    have s2: "thread_step os P S1 ?S2" by (rule info_views [OF that])
    have s3: "thread_step os P ?S2 ?S3"
      using info_rating [of ?S2 t i cs "get_view_count i (module S1)" os P] by simp
    from step_run [OF s2 one_step [OF s3]] show ?thesis by (intro exI [of _ ?S3]) simp
  qed
  have finished: ?thesis
    if "(thread_step os P)\<^sup>*\<^sup>* S S1" "module S1 = m'" "phases S1 = (phases S)(t := Comments_read i cs)" "r = Inr cs" for S1 cs
  proof -
    from that(3) have "phases S1 t = Comments_read i cs" by simp
    from shown [OF this] obtain S2 where "(thread_step os P)\<^sup>*\<^sup>* S1 S2" "module S2 = module S1"
      "phases S2 = (phases S1)(t := Info_shown i cs (get_view_count i (module S1)) (get_rating P i (module S1)))"
      by blast
    with that rtranclp_trans [OF that(1)] show ?thesis by (intro exI [of _ S2]) simp
  qed
  show ?thesis
  proof (cases "exist os (meme_path (module S) i) (store (module S))")
    case False
    let ?S1 = "enter t (Comments_read i []) (module S) S"
    have "thread_step os P S ?S1" using find_info [OF assms(1), of False os i P] False by simp
    with False assms(2) show ?thesis
      by (intro finished [of ?S1 "[]"]) (auto simp: get_comments_def intro: one_step)
  next
    case here: True
    let ?S1 = "enter t (Info_wanted i) (module S) S"
    have s1: "thread_step os P S ?S1" using find_info [OF assms(1), of True os i P] here by simp
    show ?thesis
    proof (cases "exist os ?path (store (module S)) \<and> os_is_directory os ?w ?path")
      case False
      let ?S2 = "enter t (Comments_read i []) (module S) ?S1"
      have s2: "thread_step os P ?S1 ?S2" using find_filed [of ?S1 t i False os P] False by simp
      with here False assms(2) step_run [OF s1 one_step [OF s2]] show ?thesis
        by (intro finished [of ?S2 "[]"]) (auto simp: get_comments_def Let_def)
    next
      case True
      let ?S2 = "enter t (Comments_found i) (module S) ?S1"
      have s2: "thread_step os P ?S1 ?S2" using find_filed [of ?S1 t i True os P] True by simp
      let ?es = "os_entries os ?w ?path"
      let ?S3 = "enter t (Reading i ?es []) (module S) ?S2"
      have s3: "thread_step os P ?S2 ?S3" using open_comments [of ?S2 t i ?es os P] by simp
      obtain q fs where rd: "read_comments os P ?es (store (module S)) = (q, fs)"
        by (cases "read_comments os P ?es (store (module S))")
      with here True assms(2) have r: "r = q" "m' = (module S)\<lparr>store := fs\<rparr>"
        by (simp_all add: get_comments_def Let_def)
      from read_alone [of ?S3 t i ?es "[]" os P q fs, unfolded append_Nil] rd obtain S4 where
        s4: "(thread_step os P)\<^sup>*\<^sup>* ?S3 S4" "module S4 = m'"
          "phases S4 = (phases S)(t := (case q of Inl e \<Rightarrow> Failed e | Inr ds \<Rightarrow> Comments_read i ds))"
        using r by auto
      note run = step_run [OF s1 step_run [OF s2 step_run [OF s3 s4(1)]]]
      show ?thesis
      proof (cases q)
        case (Inl e)
        with r run s4 show ?thesis by (intro exI [of _ S4]) simp
      next
        case (Inr cs)
        with r run s4 show ?thesis by (intro finished [of S4 cs]) simp_all
      qed
    qed
  qed
qed

section \<open>Properties\<close>

text \<open>
  C4: requests at the same time refine the board. After every interleaving the board is the one at
  the start with the changes made by the requests, one after the other: no text, view, vote or
  comment is lost, none is counted twice and nothing else is changed. Each request has made exactly
  the changes its phase tells, in the order of its operation. Every comment an information page
  shows was filed with that meme, at the start or by one of the requests.
\<close>
theorem concurrent_requests_refine_board:
  assumes "(thread_step os P)\<^sup>*\<^sup>* (threads_start m0) S" and "os_laws os" and "path_frame os (root_dir m0)"
    and "names_law os"
  shows "board_of os (module S) = apply_changes P (map snd (history S)) (board_of os m0) \<and>
    (\<forall>t. has_done (phases S t) (changes_of t S)) \<and>
    (\<forall>t i cs c. comments_of (phases S t) = Some (i, cs) \<and> c \<in> set cs \<longrightarrow>
       filed (board_of os m0) (history S) i (comment_content c))"
  using run_history [OF assms(1-3)] run_comments [OF assms] unfolding comments_inv_def by blast


lemma sample_names_law: "names_law sample_os"
proof -
  have "name_part n \<and> p = q @ slash # n" if "(p, n) \<in> set (os_entries sample_os w q)" for w q p n
    using that by (auto simp: name_part_def sample_os_def under_def elim!: prefixE)
  then show ?thesis unfolding names_law_def by fastforce
qed

theorem concurrent_requests_refine_board_witness:
  "\<exists>S. (thread_step sample_os sample_platform)\<^sup>*\<^sup>* (threads_start memes) S \<and>
     phases S 0 = Voted 7 ''c'' \<and> history S = [(0, Votes 7 5), (1, Sees 7)] \<and>
     views (board_of sample_os (module S)) 7 = Some 42 \<and> votes (board_of sample_os (module S)) 7 = Some (1, 5)"
proof -
  let ?S0 = "threads_start memes"
  let ?v1 = "add_rating sample_os sample_platform 7 5 memes"
  let ?S1 = "performed 0 [Votes 7 5] (enter 0 (Voted 7 ''c'') (snd ?v1) ?S0)"
  let ?S2 = "enter 1 (Found 7) (module ?S1) ?S1"
  let ?v2 = "increment_view_count sample_os 7 (module ?S2)"
  let ?S3 = "performed 1 [Sees 7] (enter 1 (Counted 7 42) (snd ?v2) ?S2)"
  have there: "exist sample_os (meme_path (snd ?v1) 7) (store (snd ?v1))"
    "os_is_directory sample_os (disk_of (store (snd ?v1))) (meme_path (snd ?v1) 7)"
    by code_simp+
  have "fst ?v1 = Inr ()" "fst ?v2 = Inr ()" and n: "get_view_count 7 (snd ?v2) = 42"
    by code_simp+
  then have v: "?v1 = (Inr (), snd ?v1)" "?v2 = (Inr (), snd ?v2)" by (metis prod.collapse)+
  have "thread_step sample_os sample_platform ?S0 ?S1"
    using vote [of ?S0 0 sample_os sample_platform 7 5 "snd ?v1" "''c''"] v(1) by simp
  moreover have "thread_step sample_os sample_platform ?S1 ?S2"
    using find [of ?S1 1 True sample_os 7 sample_platform] there by simp
  moreover have "thread_step sample_os sample_platform ?S2 ?S3"
    using view [OF _ v(2), of 1 sample_platform] n by simp
  ultimately have run: "(thread_step sample_os sample_platform)\<^sup>*\<^sup>* ?S0 ?S3"
    by (meson rtranclp.rtrancl_into_rtrancl rtranclp.rtrancl_refl)
  from concurrent_requests_refine_board [OF run sample_os_laws sample_path_frame sample_names_law]
  have "board_of sample_os (module ?S3) = apply_changes sample_platform [Votes 7 5, Sees 7] (board_of sample_os memes)"
    by simp
  then have "views (board_of sample_os (module ?S3)) 7 = Some 42"
    "votes (board_of sample_os (module ?S3)) 7 = Some (1, 5)"
    by (simp_all add: memes_views) (simp add: board_of_def count_view_def memes_def next_rating_def sample_platform_def)
  with run show ?thesis by (intro exI [of _ ?S3]) simp
qed


end
