(* ===== verification/Harmless.thy ===== *)
theory Harmless
  imports Dispatcher Crud_Restart Meme_Board
begin

text \<open>
  Which requests the dispatcher answers: a condition on the configuration, the disk, the tables
  and the request under which no exception leaves \<open>RequestDispatcher::handle_request\<close>
  (\<open>src/request_dispatcher.cc\<close>) from any of the seven kinds of handlers. It names what can go
  wrong: a number that does not fit an \<open>int\<close>, a file name without a dot, a text that is not the
  JSON object the meme service expects, a counter at its limit, a location without a directory.
\<close>

section \<open>Numbers\<close>

definition number_fits :: "string \<Rightarrow> bool" where
  \<comment> \<open>\<open>stoi\<close> returns or throws the exception the code catches\<close>
  "number_fits s \<longleftrightarrow> stoi s \<noteq> Inl Out_of_range"

lemma stoi_fails: "stoi s = Inl e \<Longrightarrow> e = Invalid_argument \<or> e = Out_of_range"
  by (auto simp: stoi_def split: option.splits if_splits)

lemma number_fits_cases:
  assumes "number_fits s"
  obtains n where "stoi s = Inr n" | "stoi s = Inl Invalid_argument"
  using assms stoi_fails by (cases "stoi s") (auto simp: number_fits_def)

section \<open>Static files\<close>

definition static_harmless :: "'w os \<Rightarrow> 'w \<Rightarrow> string \<Rightarrow> string \<Rightarrow> config \<Rightarrow> bool" where
  "static_harmless os w location url cfg \<longleftrightarrow>
     (\<exists>file_name. static_create location url cfg = Some file_name \<and>
        (os_read os w file_name = None \<or> CHR ''.'' \<in> set file_name))"

lemma get_mime_type_returns: "CHR ''.'' \<in> set s \<Longrightarrow> \<exists>t. get_mime_type s = Inr t"
  using rfind_char_None_iff [of "CHR ''.''" s]
  by (cases "rfind_char (CHR ''.'') s") (auto simp: mime_type_lookup)

lemma static_returns:
  assumes "static_harmless os (world_disk W) location url cfg"
  shows "\<exists>st res' W'. run_static b os location url cfg req res W = (Inr st, res', W')"
proof -
  from assms obtain f where f: "static_create location url cfg = Some f"
    "os_read os (world_disk W) f = None \<or> CHR ''.'' \<in> set f"
    by (auto simp: static_harmless_def)
  show ?thesis
  proof (cases "os_read os (world_disk W) f")
    case None
    with f show ?thesis by (simp add: run_static_def static_handle_request_def)
  next
    case (Some c)
    with f(2) get_mime_type_returns obtain t where "get_mime_type f = Inr t" by fastforce
    with Some f(1) show ?thesis by (simp add: run_static_def static_handle_request_def)
  qed
qed

section \<open>Entities\<close>

definition scan_harmless :: "'w os \<Rightarrow> 'w \<Rightarrow> string \<Rightarrow> bool" where
  \<comment> \<open>no file in the directory of a type is named with a number that is too large\<close>
  "scan_harmless os w dir0 \<longleftrightarrow>
     (os_exists os w dir0 \<and> os_is_directory os w dir0 \<longrightarrow>
       (\<forall>(path, name) \<in> set (os_entries os w dir0). os_is_directory os w path \<longrightarrow>
         (\<forall>(p, n) \<in> set (os_entries os w path). number_fits n)))"

lemma scan_entities_fits:
  "fst (scan_entities junk dir es ids) = None \<longleftrightarrow> (\<forall>(p, n) \<in> set es. number_fits n)"
proof (induction junk dir es ids rule: scan_entities.induct)
  case (2 junk dir p name es ids)
  show ?case
  proof (cases "stoi name")
    case (Inl e)
    with stoi_fails [OF Inl] 2 show ?thesis by (auto simp: number_fits_def)
  next
    case (Inr i)
    with 2 show ?thesis by (simp add: number_fits_def)
  qed
qed simp

lemma scan_types_fits:
  "fst (scan_types os w junk ds ids) = None \<longleftrightarrow>
     (\<forall>(path, name) \<in> set ds. os_is_directory os w path \<longrightarrow>
        (\<forall>(p, n) \<in> set (os_entries os w path). number_fits n))"
proof (induction os w junk ds ids rule: scan_types.induct)
  case (2 os w junk path name ds ids)
  obtain r ids' where s: "scan_entities junk name (os_entries os w path) ids = (r, ids')"
    by (cases "scan_entities junk name (os_entries os w path) ids")
  with scan_entities_fits [of junk name "os_entries os w path" ids] 2 show ?case
    by (cases r) auto
qed simp

lemma initialize_returns:
  "fst (initialize_entity_map os w junk dir0 ids) = None \<longleftrightarrow> scan_harmless os w dir0"
  by (auto simp: initialize_entity_map_def scan_harmless_def scan_types_fits)

definition crud_harmless :: "'w os \<Rightarrow> 'w \<Rightarrow> config \<Rightarrow> request \<Rightarrow> bool" where
  "crud_harmless os w cfg req \<longleftrightarrow>
     (\<exists>dir. configured_root cfg = Some dir \<and> scan_harmless os w (remove_trailing_slashes dir)) \<and>
     (req_method req \<in> {Verb_get, Verb_put, Verb_delete} \<longrightarrow> number_fits (after_last slash (req_target req)))"

lemma configured_rootD:
  "configured_root cfg = Some dir \<Longrightarrow> \<exists>ch ss. statements cfg = Stmt [''root'', dir] ch # ss"
  by (auto simp: configured_root_def split: list.splits stmt.splits if_splits)

lemma crud_create_returns:
  assumes "configured_root cfg = Some dir" and "scan_harmless os w (remove_trailing_slashes dir)"
  shows "\<exists>ids'. crud_create os w junk cfg ids = (Inr (Some (remove_trailing_slashes dir)), ids')"
proof -
  from assms(1) obtain ch ss where "statements cfg = Stmt [''root'', dir] ch # ss"
    by (auto simp: configured_root_def split: list.splits stmt.splits if_splits)
  moreover obtain r ids' where "initialize_entity_map os w junk (remove_trailing_slashes dir) ids = (r, ids')"
    by (cases "initialize_entity_map os w junk (remove_trailing_slashes dir) ids")
  moreover from this have "r = None"
    using initialize_returns [of os w junk "remove_trailing_slashes dir" ids] assms(2) by simp
  ultimately show ?thesis by (simp add: crud_create_def)
qed

lemma after_last_drop: "rfind_char slash t = Some i \<Longrightarrow> drop (Suc i) t = after_last slash t"
  by (simp add: after_last_def)

lemma creation_returns: "\<exists>st res' s'. handle_creation b os dir0 req res s = (Inr st, res', s')"
  by (auto simp: handle_creation_def bad_request_def Let_def split: option.splits)

lemma get_returns:
  assumes "number_fits (after_last slash (req_target req))"
  shows "\<exists>st res' s'. crud_handle_get b os dir0 req res s = (Inr st, res', s')"
  using assms
  by (rule number_fits_cases)
    (auto simp: crud_handle_get_def ends_with_id_def list_entities_def retrieve_entity_def bad_request_def Let_def
      split: option.splits)

lemma update_returns:
  assumes "number_fits (after_last slash (req_target req))"
  shows "\<exists>st res' s'. handle_update b os dir0 req res s = (Inr st, res', s')"
  using assms
  by (rule number_fits_cases)
    (auto simp: handle_update_def write_entity_def bad_request_def Let_def after_last_drop split: option.splits)

lemma deletion_returns:
  assumes "number_fits (after_last slash (req_target req))"
  shows "\<exists>st res' s'. handle_deletion b os dir0 req res s = (Inr st, res', s')"
  using assms
  by (rule number_fits_cases)
    (auto simp: handle_deletion_def bad_request_def Let_def after_last_drop
      split: option.splits prod.splits bool.splits)

lemma crud_returns:
  assumes "crud_harmless os (world_disk W) cfg req"
  shows "\<exists>st res' W'. run_crud b os ch location cfg req res W = (Inr st, res', W')"
proof -
  from assms obtain dir where d: "configured_root cfg = Some dir"
    "scan_harmless os (world_disk W) (remove_trailing_slashes dir)"
    and n: "req_method req \<in> {Verb_get, Verb_put, Verb_delete} \<Longrightarrow> number_fits (after_last slash (req_target req))"
    by (auto simp: crud_harmless_def)
  from crud_create_returns [OF d] obtain ids where
    c: "crud_create os (world_disk W) (junk_entity ch) cfg (crud_tables W location) =
      (Inr (Some (remove_trailing_slashes dir)), ids)" by blast
  let ?s = "\<lparr>crud_ids = ids, crud_disk = world_disk W\<rparr>"
  have "\<exists>st res' s'. crud_handle_request b os (remove_trailing_slashes dir) req res ?s = (Inr st, res', s')"
    using creation_returns get_returns update_returns deletion_returns n
    by (cases "req_method req") (simp_all add: crud_handle_request_def)
  then obtain st res' s' where
    "crud_handle_request b os (remove_trailing_slashes dir) req res ?s = (Inr st, res', s')" by blast
  with c show ?thesis by (simp add: run_crud_def)
qed

section \<open>Memes\<close>

definition board_readable :: "'f platform \<Rightarrow> 'f board \<Rightarrow> bool" where
  \<comment> \<open>the memes and the comments on the board are objects the service can read\<close>
  "board_readable P B \<longleftrightarrow>
     (\<forall>i c. texts B i = Some c \<and> c \<noteq> [] \<longrightarrow> returns (make_meme P c 0 (float_of_int P 0))) \<and>
     (\<forall>i u c. remarks B (i, u) = Some c \<longrightarrow> returns (make_comment P c))"

definition counter_room :: "nat \<Rightarrow> int \<Rightarrow> bool" where
  "counter_room n c \<longleftrightarrow> - (2 ^ 31) \<le> c \<and> c + int n < 2 ^ 31"

definition counters_room :: "nat \<Rightarrow> 'f board \<Rightarrow> bool" where
  \<comment> \<open>every counter can be increased \<open>n\<close> times\<close>
  "counters_room n B \<longleftrightarrow> counter_room n 0 \<and> (\<forall>i c. views B i = Some c \<longrightarrow> counter_room n c) \<and>
     (\<forall>i k r. votes B i = Some (k, r) \<longrightarrow> counter_room n k)"

definition meme_request_harmless :: "'f platform \<Rightarrow> string \<Rightarrow> request \<Rightarrow> bool" where
  "meme_request_harmless P location req \<longleftrightarrow>
     (let target = req_target req in
      case req_method req of
        Verb_post \<Rightarrow>
          (if target = location @ ''/comment''
           then \<exists>c. make_comment P (req_body req) = Inr c \<and> number_fits (comment_id c) \<and> number_fits (comment_rating c)
           else target = location \<longrightarrow> returns (make_meme P (req_body req) 0 (float_of_int P 0)))
      | Verb_get \<Rightarrow>
          number_fits (after_last slash target) \<and>
          (\<forall>e. stof P (after_last slash target) = Inl e \<longrightarrow> e = Invalid_argument)
      | _ \<Rightarrow> True)"

definition meme_harmless ::
    "'w os \<Rightarrow> 'f platform \<Rightarrow> chance \<Rightarrow> string \<Rightarrow> config \<Rightarrow> ('w, 'f) world \<Rightarrow> request \<Rightarrow> bool" where
  "meme_harmless os P ch location cfg W req \<longleftrightarrow>
     (\<exists>dir0 ms m0.
        meme_create os P (junk_meme ch) (world_disk W) cfg (meme_tables W location) = (Inr (Some dir0), ms) \<and>
        ms dir0 = Some m0 \<and>
        board_readable P (board_of os (m0\<lparr>store := (store m0)\<lparr>disk_of := world_disk W\<rparr>\<rparr>)) \<and>
        counters_room 1 (board_of os (m0\<lparr>store := (store m0)\<lparr>disk_of := world_disk W\<rparr>\<rparr>))) \<and>
     meme_request_harmless P location req"

lemma make_meme_any: "returns (make_meme P c k r) \<longleftrightarrow> returns (make_meme P c 0 (float_of_int P 0))"
  by (auto simp: make_meme_def Let_def returns_iff and_then_Inr_iff)

lemma read_file_disk: "read_file os p c fs = (st, c', fs') \<Longrightarrow> disk_of fs' = disk_of fs"
  by (rule files.read_view)

lemma read_file_success: "read_file os p c fs = (Success, c', fs') \<Longrightarrow> os_read os (disk_of fs) p = Some c'"
  by (auto simp: read_file_def Let_def split: if_splits option.splits)

lemma read_comments_returns:
  assumes "\<forall>(path, name) \<in> set es. \<forall>c. os_read os (disk_of fs) path = Some c \<longrightarrow> returns (make_comment P c)"
  shows "returns (fst (read_comments os P es fs))"
  using assms
proof (induction os P es fs rule: read_comments.induct)
  case (2 os P path name es fs)
  obtain st c fs1 where r: "read_file os path [] fs = (st, c, fs1)" by (cases "read_file os path [] fs")
  have d: "disk_of fs1 = disk_of fs" using r by (rule read_file_disk)
  show ?case
  proof (cases "st = Success")
    case True
    with r read_file_success have "os_read os (disk_of fs) path = Some c" by blast
    with 2(3) obtain x where x: "make_comment P c = Inr x" by (auto simp: returns_iff)
    obtain q fs2 where q: "read_comments os P es fs1 = (q, fs2)" by (cases "read_comments os P es fs1")
    from "2.IH"(1) [OF r [symmetric] _ True x] 2(3) d q have "returns q" by simp
    with r True x q show ?thesis by (auto simp: returns_iff)
  next
    case False
    with "2.IH"(2) [OF r [symmetric] _ False] 2(3) d r show ?thesis by simp
  qed
qed simp

lemma get_comments_returns:
  assumes "listing_law os" and "board_readable P (board_of os m)"
  shows "returns (fst (get_comments os P i m))"
proof (cases "os_is_directory os (disk_of (store m)) (meme_path m i @ ''/comments'')")
  case False
  then show ?thesis by (simp add: get_comments_def Let_def)
next
  case True
  have "returns (make_comment P c)"
    if e: "(path, name) \<in> set (os_entries os (disk_of (store m)) (meme_path m i @ ''/comments''))"
      and r: "os_read os (disk_of (store m)) path = Some c" for path name c
  proof -
    from listing_iff [OF assms(1) True] e have n: "name_part name"
      "path = (meme_path m i @ ''/comments'') @ slash # name" by blast+
    then have "path = item_path (root_dir m) i (remark_item name)"
      by (simp add: meme_path_def item_path_def remark_item_def)
    with r n(1) have "remarks (board_of os m) (i, name) = Some c" by (simp add: board_of_def remark_on_def)
    with assms(2) show ?thesis unfolding board_readable_def by blast
  qed
  then have "\<forall>(path, name) \<in> set (os_entries os (disk_of (store m)) (meme_path m i @ ''/comments'')).
      \<forall>c. os_read os (disk_of (store m)) path = Some c \<longrightarrow> returns (make_comment P c)"
    by blast
  from read_comments_returns [OF this] show ?thesis
    by (auto simp: get_comments_def Let_def split: prod.split)
qed

lemma counter_room_next: "counter_room 1 c \<Longrightarrow> in_int_range (c + 1)"
  by (simp add: counter_room_def in_int_range_def)

lemma counters_roomD:
  assumes "counters_room n B"
  shows "views B i = Some c \<Longrightarrow> counter_room n c" and "votes B i = Some (k, r) \<Longrightarrow> counter_room n k"
    and "counter_room n 0"
  using assms unfolding counters_room_def by blast+

lemma increment_returns:
  assumes "counters_room 1 (board_of os m)"
  shows "\<exists>m'. increment_view_count os i m = (Inr (), m')"
proof -
  have "view_counts m (sint i) = Some c \<Longrightarrow> in_int_range (c + 1)" for c
    using counters_roomD(1) [OF assms, of i c] by (simp add: board_of_def counter_room_next)
  then show ?thesis
    by (cases "view_counts m (sint i)") (simp_all add: increment_view_count_def in_int_range_def Let_def)
qed

lemma rating_returns:
  assumes "counters_room 1 (board_of os m)"
  shows "\<exists>m'. add_rating os P i r m = (Inr (), m')"
proof -
  have "ratings m (sint i) = Some (c, q) \<Longrightarrow> in_int_range (c + 1)" for c q
    using counters_roomD(2) [OF assms, of i c q] by (simp add: board_of_def counter_room_next)
  then show ?thesis
    by (cases "ratings m (sint i)") (auto simp: add_rating_def next_rating_def in_int_range_def Let_def)
qed

lemma get_meme_returns:
  assumes "path_frame os (root_dir m)" and "board_readable P (board_of os m)" and "counters_room 1 (board_of os m)"
  shows "returns (fst (get_meme os P i m))"
proof -
  obtain m1 where inc: "increment_view_count os i m = (Inr (), m1)"
    using increment_returns [OF assms(3)] by blast
  obtain c m2 where c: "get_content os i m1 = (c, m2)" by (cases "get_content os i m1")
  have "texts (board_of os m1) = texts (board_of os m)"
    using view_refines [OF assms(1) inc] by (simp add: count_view_def)
  with content_read [OF c] assms(2) have "c \<noteq> [] \<Longrightarrow> returns (make_meme P c k r)" for k r
    unfolding make_meme_any [of P c k r] by (auto simp: board_readable_def)
  with inc c show ?thesis by (auto simp: get_meme_def returns_iff and_then_Inr_iff)
qed

lemma shown_returns:
  assumes "returns (fst (get_meme os P i m))"
  obtains x m' where "get_meme os P i m = (Inr x, m')"
  using assms by (cases "get_meme os P i m") (auto simp: returns_iff)

lemma check_format_returns:
  "number_fits (after_last slash target) \<Longrightarrow>
   check_format target url = Inr (returns (stoi (after_last slash target)) \<and> upto_last slash target = url)"
  by (erule number_fits_cases) (auto simp: check_format_def check_number_def upto_last_def)

lemma check_floating_returns:
  assumes "\<forall>e. stof P (after_last slash target) = Inl e \<longrightarrow> e = Invalid_argument"
  shows "check_format_floating P target url =
    Inr (returns (stof P (after_last slash target)) \<and> upto_last slash target = url)"
  using assms
  by (cases "stof P (after_last slash target)") (auto simp: check_format_floating_def check_number_def upto_last_def)

definition answers :: "'s handler \<Rightarrow> request \<Rightarrow> response \<Rightarrow> 's \<Rightarrow> bool" where
  "answers h req res s \<longleftrightarrow> (\<exists>st res' s'. h req res s = (Inr st, res', s'))"

lemma first_match_answers:
  assumes "\<And>c h. (c, h) \<in> set bs \<Longrightarrow> returns c \<and> (c = Inr True \<longrightarrow> answers h req res s)"
  shows "answers (first_match bs) req res s"
  using assms
proof (induction bs)
  case Nil
  then show ?case by (simp add: answers_def)
next
  case (Cons e bs)
  obtain c h where e: "e = (c, h)" by (cases e)
  from Cons.prems [of c h] e obtain v where c: "c = Inr v" and h: "v \<Longrightarrow> answers h req res s"
    by (auto simp: returns_iff)
  have "answers (first_match bs) req res s" by (rule Cons.IH) (use Cons.prems in auto)
  with h show ?case by (cases v) (simp_all add: e c answers_def)
qed

lemma page_answers:
  "answers (handle_creation_form b location) req res s" "answers (handle_post_comment_form b location) req res s"
  "answers (handle_get_all_memes b location) req res m"
  by (simp_all add: answers_def handle_creation_form_def handle_post_comment_form_def handle_get_all_memes_def)

lemma shown_answers:
  assumes "path_frame os (root_dir m)" and "board_readable P (board_of os m)" and "counters_room 1 (board_of os m)"
  shows "answers (handle_get_random_meme b os P rnd) req res m"
    and "returns (stoi (after_last slash (req_target req))) \<Longrightarrow> answers (handle_get_meme_by_id b os P location) req res m"
proof -
  have shown: "\<exists>x m'. get_meme os P i m = (Inr x, m')" for i
    using get_meme_returns [OF assms, of i] by (meson shown_returns)
  show "answers (handle_get_random_meme b os P rnd) req res m"
    using shown [of "word_of_int (rnd mod \<bar>get_meme_count m\<bar> + 1)"]
    by (auto simp: answers_def handle_get_random_meme_def Let_def split: option.split)
  show "answers (handle_get_meme_by_id b os P location) req res m"
    if "returns (stoi (after_last slash (req_target req)))"
  proof -
    from that obtain n where n: "stoi (after_last slash (req_target req)) = Inr n" by (auto simp: returns_iff)
    with shown [of "word_of_int n"] show ?thesis
      by (auto simp: answers_def handle_get_meme_by_id_def split: option.split)
  qed
qed

lemma listing_answers:
  "returns (stoi (after_last slash (req_target req))) \<Longrightarrow> answers (handle_get_meme_by_views b location) req res m"
  "returns (stof P (after_last slash (req_target req))) \<Longrightarrow> answers (handle_get_meme_by_rating b P location) req res m"
  by (auto simp: answers_def returns_iff handle_get_meme_by_views_def handle_get_meme_by_rating_def)

lemma info_answers:
  assumes "listing_law os" and "board_readable P (board_of os m)" and "returns (stoi (after_last slash (req_target req)))"
  shows "answers (handle_get_other_info_by_id b os P) req res m"
proof -
  from assms(3) obtain n where n: "stoi (after_last slash (req_target req)) = Inr n" by (auto simp: returns_iff)
  obtain q m1 where g: "get_comments os P (word_of_int n) m = (q, m1)" by (cases "get_comments os P (word_of_int n) m")
  with get_comments_returns [OF assms(1,2), of "word_of_int n"] obtain cs where "q = Inr cs" by (auto simp: returns_iff)
  with n g show ?thesis by (simp add: answers_def handle_get_other_info_by_id_def)
qed

lemma handle_get_answers:
  assumes "listing_law os" and "path_frame os (root_dir m)" and "board_readable P (board_of os m)" and "counters_room 1 (board_of os m)"
    and "number_fits (after_last slash (req_target req))"
    and "\<forall>e. stof P (after_last slash (req_target req)) = Inl e \<longrightarrow> e = Invalid_argument"
  shows "answers (handle_get b os P rnd location) req res m"
proof -
  note cf = check_format_returns [OF assms(5)] and cff = check_floating_returns [of P "req_target req", OF assms(6)]
  have "answers (first_match
        [(Inr (req_target req = location @ ''/creation_form''), handle_creation_form b location),
         (Inr (req_target req = location @ ''/random''), handle_get_random_meme b os P rnd),
         (Inr (req_target req = location @ ''/all''), handle_get_all_memes b location),
         (check_format (req_target req) (location @ ''/''), handle_get_meme_by_id b os P location),
         (check_format (req_target req) (location @ ''/info/''), handle_get_other_info_by_id b os P),
         (Inr (req_target req = location @ ''/comment_form''), handle_post_comment_form b location),
         (check_format (req_target req) (location @ ''/get_by_views/''), handle_get_meme_by_views b location),
         (check_format_floating P (req_target req) (location @ ''/get_by_rating/''),
          handle_get_meme_by_rating b P location)]) req res m"
    unfolding cf cff
    by (rule first_match_answers)
      (use page_answers shown_answers [OF assms(2-4)] listing_answers info_answers [OF assms(1,3)] in
        \<open>auto simp del: append.simps\<close>)
  then show ?thesis by (simp add: answers_def handle_get_def Let_def)
qed

lemma handle_post_answers:
  assumes "counters_room 1 (board_of os m)" and "meme_request_harmless P location req" and "req_method req = Verb_post"
  shows "answers (handle_post b os P uuid location) req res m"
proof (cases "find_str location (req_target req) = None")
  case True
  then show ?thesis by (simp add: answers_def handle_post_def)
next
  case found: False
  consider "req_target req = location @ ''/comment''" | "req_target req = location" "location \<noteq> location @ ''/comment''"
    | "req_target req \<noteq> location" "req_target req \<noteq> location @ ''/comment''"
    by auto
  then show ?thesis
  proof cases
    case 1
    with assms(2,3) obtain c where c: "make_comment P (req_body req) = Inr c" "number_fits (comment_id c)"
      "number_fits (comment_rating c)"
      by (auto simp: meme_request_harmless_def Let_def)
    have "answers (handle_post_comment b os P uuid) req res m"
    proof (cases "returns (stoi (comment_id c)) \<and> returns (stoi (comment_rating c))")
      case True
      then obtain i r where "stoi (comment_id c) = Inr i" "stoi (comment_rating c) = Inr r" by (auto simp: returns_iff)
      moreover obtain m1 where "add_rating os P (word_of_int i) r m = (Inr (), m1)"
        using rating_returns [OF assms(1)] by blast
      ultimately show ?thesis using c by (simp add: answers_def handle_post_comment_def)
    next
      case False
      with c show ?thesis
        by (auto simp: answers_def handle_post_comment_def elim!: number_fits_cases)
    qed
    with 1 found show ?thesis by (simp add: answers_def handle_post_def)
  next
    case 2
    with assms(2,3) obtain x where "make_meme P (req_body req) 0 (float_of_int P 0) = Inr x"
      by (auto simp: meme_request_harmless_def returns_iff)
    then have "answers (handle_post_meme b os P) req res m"
      by (auto simp: answers_def handle_post_meme_def split: prod.split option.split)
    with 2 found show ?thesis by (simp add: answers_def handle_post_def)
  next
    case 3
    then show ?thesis by (simp add: answers_def handle_post_def)
  qed
qed

lemma meme_answers:
  assumes "listing_law os" and "path_frame os (root_dir m)" and "board_readable P (board_of os m)"
    and "counters_room 1 (board_of os m)" and "meme_request_harmless P location req"
  shows "answers (meme_handle_request b os P rnd uuid location) req res m"
proof (cases "req_method req")
  case Verb_get
  with assms(5) have "number_fits (after_last slash (req_target req))"
    "\<forall>e. stof P (after_last slash (req_target req)) = Inl e \<longrightarrow> e = Invalid_argument"
    by (simp_all add: meme_request_harmless_def Let_def)
  from handle_get_answers [OF assms(1-4) this] Verb_get show ?thesis
    by (simp add: answers_def meme_handle_request_def)
next
  case Verb_post
  from handle_post_answers [OF assms(4,5) Verb_post] Verb_post show ?thesis
    by (simp add: answers_def meme_handle_request_def)
qed (simp_all add: answers_def meme_handle_request_def)

lemma meme_returns:
  assumes "listing_law os" and "\<And>dir. path_frame os dir" and "meme_harmless os P ch location cfg W req"
  shows "\<exists>st res' W'. run_meme b os P ch location cfg req res W = (Inr st, res', W')"
proof -
  from assms(3) obtain dir ms m0 where
    made: "meme_create os P (junk_meme ch) (world_disk W) cfg (meme_tables W location) = (Inr (Some dir), ms)"
      "ms dir = Some m0"
    and ok: "board_readable P (board_of os (m0\<lparr>store := (store m0)\<lparr>disk_of := world_disk W\<rparr>\<rparr>))"
      "counters_room 1 (board_of os (m0\<lparr>store := (store m0)\<lparr>disk_of := world_disk W\<rparr>\<rparr>))"
    and req: "meme_request_harmless P location req"
    by (auto simp: meme_harmless_def)
  from meme_answers [OF assms(1,2) ok req] obtain st res' m where
    "meme_handle_request b os P (rand_value ch) (uuid_value ch) location req res
      (m0\<lparr>store := (store m0)\<lparr>disk_of := world_disk W\<rparr>\<rparr>) = (Inr st, res', m)"
    unfolding answers_def by blast
  with made show ?thesis by (simp add: run_meme_def)
qed

section \<open>The dispatcher\<close>

definition handler_harmless ::
    "'w os \<Rightarrow> 'f platform \<Rightarrow> chance \<Rightarrow> factory_kind \<Rightarrow> string \<Rightarrow> config \<Rightarrow> ('w, 'f) world \<Rightarrow> request \<Rightarrow> bool" where
  "handler_harmless os P ch kind location cfg W req \<longleftrightarrow>
     (case kind of
        StaticHandlerFactory \<Rightarrow> static_harmless os (world_disk W) location (req_target req) cfg
      | CrudHandlerFactory \<Rightarrow> crud_harmless os (world_disk W) cfg req
      | MemeHandlerFactory \<Rightarrow> meme_harmless os P ch location cfg W req
      | _ \<Rightarrow> True)"

definition harmless ::
    "'w os \<Rightarrow> 'f platform \<Rightarrow> chance \<Rightarrow> factories \<Rightarrow> arguments \<Rightarrow> ('w, 'f) world \<Rightarrow> request \<Rightarrow> bool" where
  "harmless os P ch factories arguments W req \<longleftrightarrow>
     (\<forall>l \<in> fst ` set factories. plain_name l) \<and>
     (\<forall>location kind. longest_location (fst ` set factories) (req_target req) location \<longrightarrow>
        map_get factories location = Some kind \<longrightarrow>
        (\<exists>cfg. map_get arguments location = Some cfg \<and> handler_harmless os P ch kind location cfg W req))"

definition needs_disk_laws :: "factory_kind \<Rightarrow> 'w os \<Rightarrow> bool" where
  \<comment> \<open>what the handlers rely on the disk for; only the meme handler does\<close>
  "needs_disk_laws kind os \<longleftrightarrow> (kind = MemeHandlerFactory \<longrightarrow> listing_law os \<and> (\<forall>dir. path_frame os dir))"

lemma handler_returns:
  assumes "needs_disk_laws kind os" and "handler_harmless os P ch kind location cfg W req"
  shows "\<exists>st res' W'. create_and_handle b os P ch kind location (req_target req) cfg req res W = (Inr st, res', W')"
proof (cases kind)
  case StaticHandlerFactory
  with assms(2) have "static_harmless os (world_disk W) location (req_target req) cfg"
    by (simp add: handler_harmless_def)
  from static_returns [OF this] StaticHandlerFactory show ?thesis by (simp add: create_and_handle_def)
next
  case CrudHandlerFactory
  with assms(2) have "crud_harmless os (world_disk W) cfg req" by (simp add: handler_harmless_def)
  from crud_returns [OF this] CrudHandlerFactory show ?thesis by (simp add: create_and_handle_def)
next
  case MemeHandlerFactory
  with assms have "listing_law os" "\<And>dir. path_frame os dir" "meme_harmless os P ch location cfg W req"
    by (simp_all add: handler_harmless_def needs_disk_laws_def)
  from meme_returns [OF this] MemeHandlerFactory show ?thesis by (simp add: create_and_handle_def)
qed (simp_all add: create_and_handle_def echo_handle_request_def health_handle_request_def
    file_not_found_handle_request_def block_handle_request_def)

lemma dispatch_returns:
  assumes "\<And>kind. kind \<in> snd ` set factories \<Longrightarrow> needs_disk_laws kind os"
    and "harmless os P ch factories arguments W req"
  shows "\<exists>sent W'. dispatch_request b os P ch factories arguments req res W = (Inr sent, W')"
proof -
  from assms(2) have plain: "\<forall>l \<in> fst ` set factories. plain_name l" by (simp add: harmless_def)
  from match_result [OF plain, of "req_target req"] consider "match factories (req_target req) = Inr None"
    | l where "match factories (req_target req) = Inr (Some l)" "longest_location (fst ` set factories) (req_target req) l"
    by blast
  then show ?thesis
  proof cases
    case 1
    then show ?thesis by (simp add: dispatch_request_def Let_def)
  next
    case (2 l)
    then have "l \<in> fst ` set factories" by (simp add: longest_location_def)
    then obtain kind where k: "map_get factories l = Some kind" using map_get_None_iff by fastforce
    then have "kind \<in> snd ` set factories" by (force simp: map_get_def dest: map_of_SomeD)
    with assms(1) have laws: "needs_disk_laws kind os" .
    from k 2(2) assms(2) obtain cfg where c: "map_get arguments l = Some cfg"
      "handler_harmless os P ch kind l cfg W req"
      unfolding harmless_def by blast
    from handler_returns [OF laws c(2)] obtain st res' W' where
      "create_and_handle b os P ch kind l (req_target req) cfg req res W = (Inr st, res', W')" by blast
    with 2(1) k c(1) show ?thesis by (simp add: dispatch_request_def Let_def)
  qed
qed

lemma harmlessI:
  assumes "\<forall>l \<in> fst ` set factories. plain_name l"
    and "longest_location (fst ` set factories) (req_target req) location"
    and "map_get factories location = Some kind" and "map_get arguments location = Some cfg"
    and "handler_harmless os P ch kind location cfg W req"
  shows "harmless os P ch factories arguments W req"
  using assms longest_unique unfolding harmless_def by fastforce

section \<open>Property\<close>


lemma shop_crud_harmless:
  "crud_harmless sample_os (world_disk shop) data_config (crud_request Verb_get ''/api/Shoes/1'' [])"
proof -
  have "configured_root data_config = Some ''/data''" by (simp add: configured_root_def data_config_def)
  moreover have "fst (initialize_entity_map sample_os (world_disk shop) 0 (remove_trailing_slashes ''/data'') (\<lambda>_. None)) = None"
    by code_simp
  then have "scan_harmless sample_os (world_disk shop) (remove_trailing_slashes ''/data'')"
    by (simp only: initialize_returns)
  moreover have "number_fits ''1''" unfolding number_fits_def by code_simp
  moreover have "after_last slash ''/api/Shoes/1'' = ''1''" by code_simp
  ultimately show ?thesis unfolding crud_harmless_def by (metis crud_request_simps(2))
qed


end
