(* ===== verification/Meme_Service.thy ===== *)
theory Meme_Service
  imports Harmless
begin

text \<open>
  The meme service over a whole sequence of requests: what the service stores it can read again, so
  that requests which are harmless one by one (\<open>meme_request_harmless\<close>) stay so together, and
  every one of them is answered.
\<close>

section \<open>What one request does to the board\<close>

definition one_more :: "int option \<Rightarrow> int option \<Rightarrow> bool" where
  \<comment> \<open>a counter stays, is increased by one or begins with one\<close>
  "one_more old new \<longleftrightarrow> new = old \<or> new = Some 1 \<or> (\<exists>c. old = Some c \<and> new = Some (c + 1))"

definition near :: "'f platform \<Rightarrow> 'f board \<Rightarrow> 'f board \<Rightarrow> bool" where
  "near P B B' \<longleftrightarrow>
     (\<forall>i c. texts B' i = Some c \<longrightarrow> texts B i = Some c \<or> returns (make_meme P c 0 (float_of_int P 0))) \<and>
     (\<forall>k c. remarks B' k = Some c \<longrightarrow> remarks B k = Some c \<or> returns (make_comment P c)) \<and>
     (\<forall>i. one_more (views B i) (views B' i)) \<and>
     (\<forall>i. one_more (map_option fst (votes B i)) (map_option fst (votes B' i)))"

lemma one_more_simps [simp]:
  "one_more c c" "one_more c (Some 1)" "one_more (Some k) (Some (k + 1))"
  by (auto simp: one_more_def)

lemma near_refl [simp]: "near P B B"
  by (simp add: near_def)

lemma near_there: "near P B (B\<lparr>there := t\<rparr>)"
  by (simp add: near_def)

lemma near_text: "returns (make_meme P c 0 (float_of_int P 0)) \<Longrightarrow> near P B (B\<lparr>there := t, texts := (texts B)(i \<mapsto> c)\<rparr>)"
  by (simp add: near_def)

lemma near_view: "near P B (count_view i B)"
  by (auto simp: near_def count_view_def split: option.split)

lemma next_rating_count: "one_more (map_option fst v) (Some (fst (next_rating P v r)))"
  by (cases v) (auto simp: next_rating_def)

lemma near_vote: "near P B (B\<lparr>votes := (votes B)(i \<mapsto> next_rating P (votes B i) r)\<rparr>)"
  by (simp add: near_def next_rating_count)

lemma near_remark:
  assumes "near P B B'" and "returns (make_comment P c)"
  shows "near P B (B'\<lparr>remarks := (remarks B')(k \<mapsto> c)\<rparr>)"
  using assms by (auto simp: near_def)

lemma near_readable: "near P B B' \<Longrightarrow> board_readable P B \<Longrightarrow> board_readable P B'"
  unfolding near_def board_readable_def by meson

lemma near_room:
  assumes "near P B B'" and "counters_room (Suc n) B"
  shows "counters_room n B'"
proof -
  have step: "counter_room n c" if "one_more old (Some c)" "\<And>k. old = Some k \<Longrightarrow> counter_room (Suc n) k" for old c
    using that counters_roomD(3) [OF assms(2)] by (auto simp: one_more_def counter_room_def)
  have "counter_room n c" if "views B' i = Some c" for i c
  proof (rule step [of "views B i"])
    have "one_more (views B i) (views B' i)" using assms(1) unfolding near_def by blast
    with that show "one_more (views B i) (Some c)" by simp
    show "\<And>k. views B i = Some k \<Longrightarrow> counter_room (Suc n) k" using counters_roomD(1) [OF assms(2)] .
  qed
  moreover have "counter_room n k" if "votes B' i = Some (k, r)" for i k r
  proof (rule step [of "map_option fst (votes B i)"])
    have "one_more (map_option fst (votes B i)) (map_option fst (votes B' i))"
      using assms(1) unfolding near_def by blast
    with that show "one_more (map_option fst (votes B i)) (Some k)" by simp
  next
    fix k
    assume "map_option fst (votes B i) = Some k"
    then obtain q where "votes B i = Some (k, q)" by auto
    then show "counter_room (Suc n) k" by (rule counters_roomD(2) [OF assms(2)])
  qed
  moreover have "counter_room n 0" using counters_roomD(3) [OF assms(2)] by (simp add: counter_room_def)
  ultimately show ?thesis unfolding counters_room_def by blast
qed

section \<open>The requests\<close>

lemma first_match_Inr:
  assumes "first_match bs req res s = (Inr st, res', s')"
  shows "s' = s \<or> (\<exists>h \<in> snd ` set bs. h req res s = (Inr st, res', s'))"
  using assms by (induction bs req res s rule: first_match.induct) auto

lemma read_comments_disk: "disk_of (snd (read_comments os P es fs)) = disk_of fs"
proof (induction os P es fs rule: read_comments.induct)
  case (2 os P path name es fs)
  obtain st c fs1 where r: "read_file os path [] fs = (st, c, fs1)" by (cases "read_file os path [] fs")
  have d: "disk_of fs1 = disk_of fs" using r by (rule read_file_disk)
  show ?case
  proof (cases "st = Success")
    case True
    with "2.IH"(1) [OF r [symmetric] _ True] r d show ?thesis
      by (cases "make_comment P c") (simp_all add: case_prod_beta)
  next
    case False
    with "2.IH"(2) [OF r [symmetric] _ False] r d show ?thesis by simp
  qed
qed simp

lemma get_comments_board: "get_comments os P i m = (q, m') \<Longrightarrow> board_of os m' = board_of os m \<and> root_dir m' = root_dir m"
  using read_comments_disk [of os P _ "store m"]
  by (auto simp: get_comments_def Let_def board_of_def split: if_splits prod.splits)
    (metis snd_conv)+

lemma get_meme_near:
  assumes "path_frame os (root_dir m)" and "get_meme os P i m = (Inr x, m')"
  shows "near P (board_of os m) (board_of os m')"
  using show_refines [OF assms] near_view by (auto split: option.splits)

lemma root_same:
  "increment_view_count os i m = (q, m') \<Longrightarrow> root_dir m' = root_dir m"
  "get_content os i m = (c, m') \<Longrightarrow> root_dir m' = root_dir m"
  "create_meme os c m = (v, m') \<Longrightarrow> root_dir m' = root_dir m"
  "root_dir (add_comment os uuid i x m) = root_dir m"
  by (auto simp: increment_view_count_def get_content_def create_meme_def generate_id_def add_comment_def Let_def
      split: if_splits prod.splits)

lemma get_meme_root: "get_meme os P i m = (x, m') \<Longrightarrow> root_dir m' = root_dir m"
  by (auto simp: get_meme_def dest!: root_same(1,2) split: if_splits prod.splits sum.splits)

lemma handle_get_near:
  assumes "path_frame os (root_dir m)" and "handle_get b os P rnd location req res m = (Inr st, res', m')"
  shows "near P (board_of os m) (board_of os m') \<and> root_dir m' = root_dir m"
proof -
  have memes: "near P (board_of os m) (board_of os m') \<and> root_dir m' = root_dir m"
    if "get_meme os P i m = (Inr x, m')" for i x
    using get_meme_near [OF assms(1) that] get_meme_root [OF that] ..
  have random: "near P (board_of os m) (board_of os m') \<and> root_dir m' = root_dir m"
    if "handle_get_random_meme b os P rnd req res m = (Inr st, res', m')"
    using that memes by (auto simp: handle_get_random_meme_def Let_def split: if_splits prod.splits sum.splits option.splits)
  have by_id: "near P (board_of os m) (board_of os m') \<and> root_dir m' = root_dir m"
    if "handle_get_meme_by_id b os P location req res m = (Inr st, res', m')"
    using that memes by (auto simp: handle_get_meme_by_id_def split: prod.splits sum.splits option.splits)
  have info: "near P (board_of os m) (board_of os m') \<and> root_dir m' = root_dir m"
    if "handle_get_other_info_by_id b os P req res m = (Inr st, res', m')"
    using that by (auto simp: handle_get_other_info_by_id_def dest!: get_comments_board split: prod.splits sum.splits)
  have same: "m' = m"
    if "handle_creation_form b location req res m = (Inr st, res', m') \<or>
      handle_post_comment_form b location req res m = (Inr st, res', m') \<or>
      handle_get_all_memes b location req res m = (Inr st, res', m') \<or>
      handle_get_meme_by_views b location req res m = (Inr st, res', m') \<or>
      handle_get_meme_by_rating b P location req res m = (Inr st, res', m')"
    using that
    by (auto simp: handle_creation_form_def handle_post_comment_form_def handle_get_all_memes_def
        handle_get_meme_by_views_def handle_get_meme_by_rating_def split: if_splits sum.splits)
  from assms(2) [unfolded handle_get_def Let_def, THEN first_match_Inr]
  have "m' = m \<or> handle_get_random_meme b os P rnd req res m = (Inr st, res', m') \<or>
      handle_get_meme_by_id b os P location req res m = (Inr st, res', m') \<or>
      handle_get_other_info_by_id b os P req res m = (Inr st, res', m')"
    using same by auto
  then show ?thesis using random by_id info near_refl by blast
qed

lemma handle_post_near:
  assumes "os_laws os" and "path_frame os (root_dir m)" and "name_part uuid"
    and "handle_post b os P uuid location req res m = (Inr st, res', m')"
  shows "near P (board_of os m) (board_of os m') \<and> root_dir m' = root_dir m"
proof -
  have meme: "near P (board_of os m) (board_of os m') \<and> root_dir m' = root_dir m"
    if h: "handle_post_meme b os P req res m = (Inr st, res', m')"
  proof -
    from h obtain x where x: "make_meme P (req_body req) 0 (float_of_int P 0) = Inr x"
      by (auto simp: handle_post_meme_def split: sum.splits)
    obtain v m1 where c: "create_meme os (meme_content x) m = (v, m1)" by (cases "create_meme os (meme_content x) m")
    with h x have m': "m' = m1" by (auto simp: handle_post_meme_def split: option.splits)
    have "returns (make_meme P (meme_content x) 0 (float_of_int P 0))"
      using x by (simp add: make_meme_fields)
    note near_filed = near_text [OF this, of "board_of os m"]
    have "near P (board_of os m) (board_of os m1)"
    proof (cases v)
      case None
      with create_refines [OF assms(1,2) c] show ?thesis using near_there near_refl by auto
    next
      case (Some i)
      with create_refines [OF assms(1,2) c] show ?thesis by (simp add: near_filed)
    qed
    with root_same(3) [OF c] show ?thesis by (simp add: m')
  qed
  have comment: "near P (board_of os m) (board_of os m') \<and> root_dir m' = root_dir m"
    if h: "handle_post_comment b os P uuid req res m = (Inr st, res', m')"
  proof (cases "m' = m")
    case False
    from h obtain x where x: "make_comment P (req_body req) = Inr x"
      by (auto simp: handle_post_comment_def split: sum.splits)
    from h x False obtain i r m1 where rate: "add_rating os P (word_of_int i) r m = (Inr (), m1)"
      and m': "m' = add_comment os uuid (word_of_int i) x m1"
      by (auto simp: handle_post_comment_def split: sum.splits prod.splits if_splits)
    note rated = rate_refines [OF assms(2) rate]
    have vote: "near P (board_of os m) (board_of os m1)" unfolding rated(2) by (rule near_vote)
    have "returns (make_comment P (comment_content x))" using x make_comment_content [OF x] by simp
    from near_remark [OF vote this] remark_refines [OF assms(1) _ assms(3), of m1 "word_of_int i" x] assms(2) rated(1) vote
    have "near P (board_of os m) (board_of os m')" by (auto simp: m')
    with rated(1) show ?thesis by (simp add: m' root_same(4))
  qed simp
  from assms(4) meme comment show ?thesis by (auto simp: handle_post_def split: if_splits)
qed

lemma meme_request_near:
  assumes "os_laws os" and "path_frame os (root_dir m)" and "name_part uuid"
    and "meme_handle_request b os P rnd uuid location req res m = (Inr st, res', m')"
  shows "near P (board_of os m) (board_of os m') \<and> root_dir m' = root_dir m"
  using assms(4) handle_get_near [OF assms(2)] handle_post_near [OF assms(1-3)]
  by (cases "req_method req") (auto simp: meme_handle_request_def)

section \<open>Sequences of requests\<close>

fun meme_run ::
    "beast \<Rightarrow> 'w os \<Rightarrow> 'f platform \<Rightarrow> string \<Rightarrow> (int \<times> string \<times> request) list \<Rightarrow> ('w, 'f) meme_module \<Rightarrow>
     (status \<times> response) list result \<times> ('w, 'f) meme_module" where
  \<comment> \<open>requests one after the other, each with the value of \<open>rand\<close> and the name for a comment\<close>
  "meme_run b os P location [] m = (Inr [], m)"
| "meme_run b os P location ((rnd, uuid, req) # rs) m =
     (case meme_handle_request b os P rnd uuid location req fresh_response m of
        (Inl e, res, m1) \<Rightarrow> (Inl e, m1)
      | (Inr st, res, m1) \<Rightarrow>
          (case meme_run b os P location rs m1 of
             (r, m2) \<Rightarrow> (and_then r (\<lambda>as. Inr ((st, res) # as)), m2)))"

section \<open>Property\<close>

text \<open>
  C7: the meme service cannot be brought down by harmless requests: from a board it can read, with
  counters that are not about to overflow, any sequence of requests (whose numbers fit an \<open>int\<close> and
  whose posted texts are the JSON objects asked for) is answered to the last, without an
  exception, and the board can still be read afterwards.
\<close>
theorem harmless_memes_answered:
  assumes "os_laws os" and "listing_law os" and "path_frame os (root_dir m)"
    and "board_readable P (board_of os m)" and "counters_room (length rs) (board_of os m)"
    and "\<forall>(rnd, uuid, req) \<in> set rs. name_part uuid \<and> meme_request_harmless P location req"
  shows "\<exists>answers m'. meme_run b os P location rs m = (Inr answers, m') \<and> length answers = length rs \<and>
    board_readable P (board_of os m')"
  using assms(3-6)
proof (induction rs arbitrary: m)
  case (Cons r rs)
  obtain rnd uuid req where r: "r = (rnd, uuid, req)" by (cases r)
  have room: "counters_room 1 (board_of os m)"
    using Cons.prems(3) unfolding counters_room_def counter_room_def by fastforce
  from Cons.prems(4) r have h: "name_part uuid" "meme_request_harmless P location req" by auto
  from meme_answers [OF assms(2) Cons.prems(1,2) room h(2)] obtain st res m1 where
    one: "meme_handle_request b os P rnd uuid location req fresh_response m = (Inr st, res, m1)"
    unfolding answers_def by blast
  note n = meme_request_near [OF assms(1) Cons.prems(1) h(1) one]
  have "counters_room (length rs) (board_of os m1)"
    using near_room n Cons.prems(3) by (metis length_Cons)
  from Cons.IH [OF _ _ this] n Cons.prems(1,2,4) near_readable obtain as m2 where
    "meme_run b os P location rs m1 = (Inr as, m2)" "length as = length rs" "board_readable P (board_of os m2)"
    by fastforce
  with one r show ?case by simp
qed simp

lemma sample_make:
  "c \<noteq> [] \<Longrightarrow> returns (make_meme sample_platform c k r)" "c \<noteq> [] \<Longrightarrow> returns (make_comment sample_platform c)"
  by (simp_all add: make_meme_def make_comment_def json_field_def sample_platform_def Let_def)

lemma memes_readable: "board_readable sample_platform (board_of sample_os memes)"
proof -
  have "c \<noteq> []" if "os_read sample_os memes_disk q = Some c" for q c
    using that by (auto simp: sample_os_def memes_disk_def split: option.splits if_splits)
  then have "remarks (board_of sample_os memes) (i, u) = Some c \<Longrightarrow> c \<noteq> []" for i u c
    by (auto simp: board_of_def remark_on_def memes_def split: if_splits)
  with sample_make show ?thesis unfolding board_readable_def by blast
qed

lemma memes_room: "counters_room 3 (board_of sample_os memes)"
  by (auto simp: counters_room_def counter_room_def board_of_def memes_def split: if_splits)

definition meme_requests :: "(int \<times> string \<times> request) list" where
  "meme_requests =
     [(0, ''u'', crud_request Verb_post ''/memes'' ''new''), (0, ''v'', crud_request Verb_post ''/memes/comment'' ''nice''),
      (0, ''w'', crud_request Verb_get ''/memes/7'' [])]"

lemma meme_requests_harmless:
  "\<forall>(rnd, uuid, req) \<in> set meme_requests. name_part uuid \<and> meme_request_harmless sample_platform ''/memes'' req"
proof -
  have "number_fits ''7''" "number_fits ''5''" unfolding number_fits_def by code_simp+
  moreover have "stof sample_platform ''7'' = Inr 7" "after_last slash ''/memes/7'' = ''7''" by code_simp+
  moreover have "make_comment sample_platform ''nice'' =
      Inr \<lparr>comment_content = ''nice'', comment_text = ''nice'', comment_id = ''7'', comment_rating = ''5''\<rparr>"
    by code_simp
  ultimately show ?thesis
    by (simp add: meme_requests_def meme_request_harmless_def name_part_def sample_make Let_def)
qed

theorem harmless_memes_answered_witness:
  "\<exists>answers m'. meme_run sample_beast sample_os sample_platform ''/memes'' meme_requests memes = (Inr answers, m') \<and>
     length answers = 3"
proof -
  have "length meme_requests = 3" by (simp add: meme_requests_def)
  with memes_room have "counters_room (length meme_requests) (board_of sample_os memes)" by simp
  from harmless_memes_answered [OF sample_os_laws sample_listing sample_path_frame memes_readable this
      meme_requests_harmless] \<open>length meme_requests = 3\<close>
  show ?thesis by metis
qed

end
