(* ===== verification/Meme_Restart.thy ===== *)
theory Meme_Restart
  imports Meme_Service
begin

text \<open>
  The meme service over a restart. Views and ratings are kept in tables and written to one file per
  meme; the constructor of a new module reads them back. \<open>saved\<close> says that the files are in step
  with the tables; requests keep it as long as the disk takes the files and comments are on memes
  that are there; and a module made on such a disk has the board of the old one, up to what printing
  a \<open>float\<close> loses.
\<close>

section \<open>Tables and files\<close>

definition file_at :: "'w os \<Rightarrow> 'w \<Rightarrow> string \<Rightarrow> string option" where
  \<comment> \<open>what \<open>read_file\<close> gets\<close>
  "file_at os w p = (if os_exists os w p then os_read os w p else None)"

definition views_text :: "int option \<Rightarrow> string option" where
  "views_text v = map_option int_to_string v"

definition votes_text :: "'f platform \<Rightarrow> (int \<times> 'f) option \<Rightarrow> string option" where
  "votes_text P v = map_option (\<lambda>(n, r). int_to_string n @ '','' @ float_to_string P r) v"

definition saved_at :: "'w os \<Rightarrow> 'f platform \<Rightarrow> ('w, 'f) meme_module \<Rightarrow> meme_id \<Rightarrow> bool" where
  "saved_at os P m i \<longleftrightarrow>
     (if there (board_of os m) i
      then os_is_directory os (disk_of (store m)) (item_path (root_dir m) i [])
      else view_counts m (sint i) = None \<and> ratings m (sint i) = None) \<and>
     \<not> os_is_directory os (disk_of (store m)) (item_path (root_dir m) i ''/views'') \<and>
     \<not> os_is_directory os (disk_of (store m)) (item_path (root_dir m) i ''/ratings'') \<and>
     (\<forall>k. view_counts m (sint i) = Some k \<longrightarrow> in_int_range k) \<and>
     (\<forall>n r. ratings m (sint i) = Some (n, r) \<longrightarrow> in_int_range n) \<and>
     file_at os (disk_of (store m)) (item_path (root_dir m) i ''/views'') = views_text (view_counts m (sint i)) \<and>
     file_at os (disk_of (store m)) (item_path (root_dir m) i ''/ratings'') = votes_text P (ratings m (sint i))"

definition saved :: "'w os \<Rightarrow> 'f platform \<Rightarrow> ('w, 'f) meme_module \<Rightarrow> bool" where
  "saved os P m \<longleftrightarrow> (\<forall>i. saved_at os P m i)"

definition only_memes :: "'w os \<Rightarrow> string \<Rightarrow> 'w \<Rightarrow> bool" where
  \<comment> \<open>the directories in the root are those of memes\<close>
  "only_memes os dir w \<longleftrightarrow> os_exists os w dir \<and> os_is_directory os w dir \<and>
     (\<forall>n. name_part n \<and> os_exists os w (dir @ slash # n) \<and> os_is_directory os w (dir @ slash # n) \<longrightarrow>
        (\<exists>i :: meme_id. n = nat_to_string (unat i)))"

definition printing_law :: "'f platform \<Rightarrow> bool" where
  \<comment> \<open>\<open>std::to_string\<close> of a \<open>float\<close> is a number on one line\<close>
  "printing_law P \<longleftrightarrow> (\<forall>r. newline \<notin> set (float_to_string P r) \<and> returns (stof P (float_to_string P r)))"

definition reread :: "'f platform \<Rightarrow> 'f \<Rightarrow> 'f" where
  \<comment> \<open>what is left of a \<open>float\<close> that was printed and read again\<close>
  "reread P r = (case stof P (float_to_string P r) of Inr q \<Rightarrow> q | Inl _ \<Rightarrow> r)"

definition reread_board :: "'f platform \<Rightarrow> 'f board \<Rightarrow> 'f board" where
  "reread_board P B = B\<lparr>votes := (\<lambda>i. map_option (map_prod id (reread P)) (votes B i))\<rparr>"

section \<open>Loading\<close>

lemma read_file_at:
  "read_file os p [] fs = (st, c, fs') \<Longrightarrow> file_at os (disk_of fs) p = (if st = Success then Some c else None)"
  by (auto simp: read_file_def file_at_def exist_def Let_def split: if_splits option.splits)

lemma loaded_views:
  "view_counts (load_views os path i m) =
     (case file_at os (disk_of (store m)) (path @ ''/views'') of
        None \<Rightarrow> view_counts m | Some c \<Rightarrow> (view_counts m)(sint i \<mapsto> stream_int c))"
  "ratings (load_views os path i m) = ratings m"
proof -
  obtain st c fs where r: "read_file os (path @ ''/views'') [] (store m) = (st, c, fs)"
    by (cases "read_file os (path @ ''/views'') [] (store m)")
  from r read_file_at [OF r] show
    "view_counts (load_views os path i m) =
       (case file_at os (disk_of (store m)) (path @ ''/views'') of
          None \<Rightarrow> view_counts m | Some c \<Rightarrow> (view_counts m)(sint i \<mapsto> stream_int c))"
    "ratings (load_views os path i m) = ratings m"
    by (simp_all add: load_views_def Let_def)
qed

lemma loaded_ratings:
  assumes "printing_law P" and "file_at os (disk_of (store m)) (path @ ''/ratings'') = votes_text P v"
    and "\<forall>n r. v = Some (n, r) \<longrightarrow> in_int_range n"
  shows "\<exists>m'. load_ratings os P path i m = Inr m' \<and> view_counts m' = view_counts m \<and>
    ratings m' = (case v of None \<Rightarrow> ratings m | Some (n, r) \<Rightarrow> (ratings m)(sint i \<mapsto> (n, reread P r)))"
proof -
  obtain st c fs where r: "read_file os (path @ ''/ratings'') [] (store m) = (st, c, fs)"
    by (cases "read_file os (path @ ''/ratings'') [] (store m)")
  note at = read_file_at [OF r]
  show ?thesis
  proof (cases v)
    case None
    with assms(2) at have "st \<noteq> Success" by (auto simp: votes_text_def split: if_splits)
    with None r show ?thesis by (simp add: load_ratings_def Let_def)
  next
    case (Some nr)
    obtain n q where nr: "nr = (n, q)" by (cases nr)
    let ?f = "float_to_string P q"
    from assms(2) at Some nr have st: "st = Success" and c: "c = int_to_string n @ CHR '','' # ?f"
      by (auto simp: votes_text_def split: if_splits)
    have comma: "CHR '','' \<notin> set (int_to_string n)"
    proof -
      have "\<not> is_digit CHR '',''" by (simp add: is_digit_def)
      then show ?thesis using nat_to_string_digits by (auto simp: int_to_string_def)
    qed
    have line: "(case getline newline ?f of None \<Rightarrow> [] | Some (l, _) \<Rightarrow> l) = ?f"
    proof (cases "?f = []")
      case True
      then show ?thesis by (simp add: getline_def)
    next
      case False
      with assms(1) getline_end [of ?f newline] show ?thesis by (simp add: printing_law_def)
    qed
    obtain q' where q': "stof P ?f = Inr q'" using assms(1) by (auto simp: printing_law_def returns_iff)
    have "in_int_range n" using assms(3) Some nr by simp
    with Some nr st c q' r line getline_append [OF comma, of ?f] show ?thesis
      by (simp add: load_ratings_def Let_def reread_def)
  qed
qed

definition agrees_at :: "'f platform \<Rightarrow> ('w, 'f) meme_module \<Rightarrow> ('w, 'f) meme_module \<Rightarrow> meme_id \<Rightarrow> bool" where
  \<comment> \<open>\<open>m'\<close> has loaded the meme from the files of \<open>m\<close>\<close>
  "agrees_at P m m' i \<longleftrightarrow> view_counts m' (sint i) = view_counts m (sint i) \<and>
     ratings m' (sint i) = map_option (map_prod id (reread P)) (ratings m (sint i))"

definition loading :: "'f platform \<Rightarrow> ('w, 'f) meme_module \<Rightarrow> ('w, 'f) meme_module \<Rightarrow> bool" where
  "loading P m m' \<longleftrightarrow> root_dir m' = root_dir m \<and> disk_of (store m') = disk_of (store m) \<and>
     (\<forall>i. agrees_at P m m' i \<or> view_counts m' (sint i) = None \<and> ratings m' (sint i) = None)"

lemma stoul_name: "stoul (nat_to_string (unat (i :: meme_id))) = Inr i"
proof -
  have "strtol (nat_to_string (unat i) @ []) = Some (int (unat i))" by (rule strtol_nat) simp
  moreover have "int (unat i) < 2 ^ 32"
  proof -
    have "uint i < 2 ^ LENGTH(32)" by (rule unsigned_less)
    then show ?thesis by simp
  qed
  ultimately show ?thesis by (simp add: stoul_def)
qed

lemma load_entry_saved:
  assumes "printing_law P" and "saved os P m" and "loading P m m1"
    and "os_is_directory os (disk_of (store m)) (root_dir m @ slash # nat_to_string (unat i))"
  shows "\<exists>m2. load_entry os P junk (root_dir m @ slash # nat_to_string (unat i)) m1 = Inr m2 \<and> loading P m m2 \<and>
    agrees_at P m m2 i \<and> (\<forall>j. agrees_at P m m1 j \<longrightarrow> agrees_at P m m2 j)"
proof -
  let ?path = "root_dir m @ slash # nat_to_string (unat i)"
  let ?m0 = "if id_count m1 < i then m1\<lparr>id_count := i\<rparr> else m1"
  let ?mv = "load_views os ?path i ?m0"
  have same: "root_dir m1 = root_dir m" "disk_of (store m1) = disk_of (store m)"
    using assms(3) by (simp_all add: loading_def)
  have paths: "?path @ ''/views'' = item_path (root_dir m) i ''/views''"
    "?path @ ''/ratings'' = item_path (root_dir m) i ''/ratings''"
    by (simp_all add: item_path_def)
  from assms(2) have s: "saved_at os P m i" by (simp add: saved_def)
  then have files: "file_at os (disk_of (store m)) (item_path (root_dir m) i ''/views'') = views_text (view_counts m (sint i))"
    "file_at os (disk_of (store m)) (item_path (root_dir m) i ''/ratings'') = votes_text P (ratings m (sint i))"
    and range: "\<And>k. view_counts m (sint i) = Some k \<Longrightarrow> in_int_range k"
    "\<forall>n r. ratings m (sint i) = Some (n, r) \<longrightarrow> in_int_range n"
    unfolding saved_at_def by blast+
  have mv: "disk_of (store ?mv) = disk_of (store m)" "root_dir ?mv = root_dir m"
    using load_views_keeps [of os ?path i ?m0] same by (simp_all split: if_splits)
  have "file_at os (disk_of (store ?mv)) (?path @ ''/ratings'') = votes_text P (ratings m (sint i))"
    unfolding mv(1) paths(2) by (rule files(2))
  from loaded_ratings [where i = i, OF assms(1) this range(2)] obtain m2 where
    load: "load_ratings os P ?path i ?mv = Inr m2" and tables: "view_counts m2 = view_counts ?mv"
      "ratings m2 = (case ratings m (sint i) of None \<Rightarrow> ratings ?mv
         | Some (n, r) \<Rightarrow> (ratings ?mv)(sint i \<mapsto> (n, reread P r)))"
    by blast
  have base: "view_counts ?m0 = view_counts m1" "ratings ?m0 = ratings m1" "disk_of (store ?m0) = disk_of (store m)"
    using same by auto
  have on_disk: "file_at os (disk_of (store ?m0)) (?path @ ''/views'') = views_text (view_counts m (sint i))"
    unfolding base(3) paths(1) by (rule files(1))
  have "stream_int (int_to_string k) = k" if "view_counts m (sint i) = Some k" for k
    using range(1) [OF that] by (simp add: stream_int_def in_int_range_def)
  then have v1: "view_counts ?mv = (case view_counts m (sint i) of
      None \<Rightarrow> view_counts m1 | Some k \<Rightarrow> (view_counts m1)(sint i \<mapsto> k))" (is "_ = ?views")
    unfolding loaded_views(1) on_disk base(1) by (cases "view_counts m (sint i)") (simp_all add: views_text_def)
  have r1: "ratings ?mv = ratings m1" unfolding loaded_views(2) by (rule base(2))
  have tab: "view_counts m2 = ?views" "ratings m2 = (case ratings m (sint i) of None \<Rightarrow> ratings m1
         | Some (n, r) \<Rightarrow> (ratings m1)(sint i \<mapsto> (n, reread P r)))"
    unfolding tables v1 r1 by (rule refl)+
  have old: "agrees_at P m m1 j \<or> view_counts m1 (sint j) = None \<and> ratings m1 (sint j) = None" for j
    using assms(3) by (simp add: loading_def)
  have here: "agrees_at P m m2 i"
    using old [of i] by (auto simp: agrees_at_def tab split: option.splits)
  have other: "view_counts m2 (sint j) = view_counts m1 (sint j)" "ratings m2 (sint j) = ratings m1 (sint j)"
    if "j \<noteq> i" for j
    using that by (auto simp: tab split: option.splits)
  have "agrees_at P m m2 j" if "agrees_at P m m1 j" for j
    using that here other [of j] by (cases "j = i") (simp_all add: agrees_at_def)
  moreover have "load_entry os P junk ?path m1 = Inr m2"
  proof -
    have "substr ?path (length (root_dir m1) + 1) None = Inr (nat_to_string (unat i))"
      by (simp add: substr_def same)
    moreover have "os_is_directory os (disk_of (store m1)) ?path" unfolding same by (rule assms(4))
    ultimately have "load_entry os P junk ?path m1 = load_ratings os P ?path i ?mv"
      unfolding load_entry_def Let_def
      by (simp only: and_then_simps sum.case not_True_eq_False if_False stoul_name)
    with load show ?thesis by (simp only:)
  qed
  moreover have "agrees_at P m m2 j \<or> view_counts m2 (sint j) = None \<and> ratings m2 (sint j) = None" for j
    using here old [of j] other [of j] by (cases "j = i") (simp_all add: agrees_at_def)
  then have "loading P m m2"
    using load_ratings_keeps [OF load] mv unfolding loading_def by (simp only:) blast
  ultimately show ?thesis using here by blast
qed

lemma load_entries_saved:
  assumes "printing_law P" and "saved os P m" and "loading P m m1"
    and "\<forall>(p, n) \<in> set es. os_is_directory os (disk_of (store m)) p \<longrightarrow>
      (\<exists>i :: meme_id. n = nat_to_string (unat i) \<and> p = root_dir m @ slash # n)"
  shows "\<exists>m2. load_entries os P junk es m1 = Inr m2 \<and> loading P m m2 \<and>
    (\<forall>j. agrees_at P m m1 j \<longrightarrow> agrees_at P m m2 j) \<and>
    (\<forall>i. (root_dir m @ slash # nat_to_string (unat i), nat_to_string (unat i)) \<in> set es \<and>
      os_is_directory os (disk_of (store m)) (root_dir m @ slash # nat_to_string (unat i)) \<longrightarrow> agrees_at P m m2 i)"
  using assms(3,4)
proof (induction es arbitrary: m1)
  case (Cons e es)
  obtain p n where e: "e = (p, n)" by (cases e)
  have disk: "disk_of (store m1) = disk_of (store m)" using Cons.prems(1) by (simp add: loading_def)
  show ?case
  proof (cases "os_is_directory os (disk_of (store m)) p")
    case False
    with disk have skip: "load_entry os P junk p m1 = Inr m1" by (simp add: load_entry_def)
    from Cons.IH [OF Cons.prems(1)] Cons.prems(2) skip False e show ?thesis by auto
  next
    case True
    with Cons.prems(2) e obtain i :: meme_id where i: "n = nat_to_string (unat i)" "p = root_dir m @ slash # n"
      by auto
    from load_entry_saved [OF assms(1,2) Cons.prems(1) True [unfolded i], of junk] obtain m2 where
      m2: "load_entry os P junk p m1 = Inr m2" "loading P m m2" "agrees_at P m m2 i"
        "\<And>j. agrees_at P m m1 j \<Longrightarrow> agrees_at P m m2 j"
      unfolding i by blast
    from Cons.IH [OF m2(2)] Cons.prems(2) obtain m3 where
      m3: "load_entries os P junk es m2 = Inr m3" "loading P m m3"
        "\<And>j. agrees_at P m m2 j \<Longrightarrow> agrees_at P m m3 j"
        "\<And>j. (root_dir m @ slash # nat_to_string (unat j), nat_to_string (unat j)) \<in> set es \<and>
          os_is_directory os (disk_of (store m)) (root_dir m @ slash # nat_to_string (unat j)) \<Longrightarrow> agrees_at P m m3 j"
      by auto
    have "agrees_at P m m3 j" if "n = nat_to_string (unat j)" for j
    proof -
      from that i(1) have "(Inr j :: meme_id result) = Inr i" using stoul_name [of i] stoul_name [of j] by metis
      with m2(3) m3(3) show ?thesis by simp
    qed
    with m2 m3 e show ?thesis by auto
  qed
qed simp

text \<open>A module made on the disk of a saved one has its board.\<close>

lemma restarted:
  assumes "printing_law P" and "listing_law os" and "saved os P m" and "only_memes os (root_dir m) (disk_of (store m))"
  shows "\<exists>m2. new_meme_module os P junk (root_dir m) (get_file_system (disk_of (store m))) = Inr m2 \<and>
    board_of os m2 = reread_board P (board_of os m) \<and>
    (\<forall>i. there (board_of os m) i \<longrightarrow> i \<le> id_count m2)"
proof -
  let ?w = "disk_of (store m)" and ?dir = "root_dir m"
  let ?es = "os_entries os ?w ?dir"
  let ?m0 = "\<lparr>root_dir = ?dir, id_count = 0, view_counts = (\<lambda>_. None), ratings = (\<lambda>_. None),
    store = get_file_system ?w\<rparr> :: ('b, 'a) meme_module"
  have root: "os_exists os ?w ?dir" "os_is_directory os ?w ?dir" using assms(4) by (simp_all add: only_memes_def)
  have disk: "disk_of (get_file_system ?w) = ?w" by (simp add: get_file_system_def)
  have "loading P m ?m0" by (simp add: loading_def disk)
  moreover have "\<forall>(p, n) \<in> set ?es. os_is_directory os ?w p \<longrightarrow>
      (\<exists>i :: meme_id. n = nat_to_string (unat i) \<and> p = ?dir @ slash # n)"
    using assms(4) unfolding only_memes_def by (auto simp: listing_iff [OF assms(2) root(2)])
  ultimately obtain m2 where m2: "load_entries os P junk ?es ?m0 = Inr m2" "loading P m m2"
    "\<And>i. (?dir @ slash # nat_to_string (unat i), nat_to_string (unat i)) \<in> set ?es \<and>
      os_is_directory os ?w (?dir @ slash # nat_to_string (unat i)) \<Longrightarrow> agrees_at P m m2 i"
    using load_entries_saved [OF assms(1,3)] by blast
  have new: "new_meme_module os P junk ?dir (get_file_system ?w) = Inr m2"
    using root m2(1) by (simp add: new_meme_module_def disk)
  have path: "?dir @ slash # nat_to_string (unat i) = item_path ?dir i []" for i :: meme_id
    by (simp add: item_path_def)
  have name: "name_part (nat_to_string (unat i))" for i :: meme_id
    using name_part_int [of "int (unat i)"] by (simp add: int_to_string_def)
  have at: "agrees_at P m m2 i" for i
  proof (cases "there (board_of os m) i")
    case True
    then have "os_exists os ?w (item_path ?dir i [])" by (simp add: board_of_def there_on_def)
    moreover have "os_is_directory os ?w (item_path ?dir i [])"
      using True assms(3) unfolding saved_def saved_at_def by meson
    ultimately show ?thesis
      using m2(3) [of i] by (simp add: listing_iff [OF assms(2) root(2)] name path)
  next
    case False
    with assms(3) have "view_counts m (sint i) = None" "ratings m (sint i) = None"
      unfolding saved_def saved_at_def by meson+
    moreover have "agrees_at P m m2 i \<or> view_counts m2 (sint i) = None \<and> ratings m2 (sint i) = None"
      using m2(2) unfolding loading_def by blast
    ultimately show ?thesis by (auto simp: agrees_at_def)
  qed
  have same: "root_dir m2 = ?dir" "disk_of (store m2) = ?w" using m2(2) by (simp_all add: loading_def)
  have "board_of os m2 = reread_board P (board_of os m)"
    using at by (simp add: board_of_def reread_board_def same agrees_at_def)
  moreover have "i \<le> id_count m2" if "there (board_of os m) i" for i
  proof -
    have e: "os_exists os ?w (item_path ?dir i [])" using that by (simp add: board_of_def there_on_def)
    have d: "os_is_directory os ?w (item_path ?dir i [])"
      using that assms(3) unfolding saved_def saved_at_def by meson
    have "(?dir @ ''/'' @ nat_to_string (unat i), nat_to_string (unat i)) \<in> set (os_entries os (disk_of (get_file_system ?w)) ?dir)"
      using e by (simp add: disk path listing_iff [OF assms(2) root(2)] name)
    from loaded_ids_bounded [OF new _ _ this _ stoul_name] root d show ?thesis by (simp add: disk path)
  qed
  ultimately show ?thesis using new by blast
qed

section \<open>What the requests write\<close>

definition changes_at :: "'w os \<Rightarrow> string \<Rightarrow> meme_id \<Rightarrow> string \<Rightarrow> 'w \<Rightarrow> 'w \<Rightarrow> bool" where
  \<comment> \<open>a file of a meme is written, or a directory of a meme made\<close>
  "changes_at os dir i x w w' \<longleftrightarrow> item x \<and>
     ((\<exists>c. os_write os w (item_path dir i x) c = Some w') \<or> os_create_directory os w (item_path dir i x) = Some w')"

definition kind_frame :: "'w os \<Rightarrow> string \<Rightarrow> bool" where
  \<comment> \<open>that leaves the kind of every other path alone\<close>
  "kind_frame os dir \<longleftrightarrow>
     (\<forall>i x w w'. changes_at os dir i x w w' \<longrightarrow>
        (\<forall>j y. item y \<and> (i, x) \<noteq> (j, y) \<longrightarrow>
           os_is_directory os w' (item_path dir j y) = os_is_directory os w (item_path dir j y)) \<and>
        (\<forall>n. name_part n \<and> dir @ slash # n \<noteq> item_path dir i x \<longrightarrow>
           os_exists os w' (dir @ slash # n) = os_exists os w (dir @ slash # n) \<and>
           os_is_directory os w' (dir @ slash # n) = os_is_directory os w (dir @ slash # n)) \<and>
        os_exists os w' dir = os_exists os w dir \<and> os_is_directory os w' dir = os_is_directory os w dir)"

definition disk_takes :: "'w os \<Rightarrow> string \<Rightarrow> bool" where
  \<comment> \<open>views and ratings can be written into the directory of a meme\<close>
  "disk_takes os dir \<longleftrightarrow>
     (\<forall>w i x c. x \<in> {''/views'', ''/ratings''} \<and> os_is_directory os w (item_path dir i []) \<and>
        \<not> os_is_directory os w (item_path dir i x) \<longrightarrow> os_write os w (item_path dir i x) c \<noteq> None)"

definition same_files :: "'w os \<Rightarrow> string \<Rightarrow> 'w \<Rightarrow> 'w \<Rightarrow> meme_id \<Rightarrow> bool" where
  "same_files os dir w w' j \<longleftrightarrow>
     os_exists os w' (item_path dir j []) = os_exists os w (item_path dir j []) \<and>
     (\<forall>y \<in> {[], ''/views'', ''/ratings''}.
        os_is_directory os w' (item_path dir j y) = os_is_directory os w (item_path dir j y)) \<and>
     (\<forall>y \<in> {''/views'', ''/ratings''}. file_at os w' (item_path dir j y) = file_at os w (item_path dir j y))"

lemma same_files_refl [simp]: "same_files os dir w w j"
  by (simp add: same_files_def)

lemma there_iff: "there (board_of os m) i = os_exists os (disk_of (store m)) (item_path (root_dir m) i [])"
  by (simp add: board_of_def there_on_def)

lemma saved_at_same:
  assumes "saved_at os P m j" and "root_dir m' = root_dir m"
    and "same_files os (root_dir m) (disk_of (store m)) (disk_of (store m')) j"
    and "view_counts m' (sint j) = view_counts m (sint j)" and "ratings m' (sint j) = ratings m (sint j)"
  shows "saved_at os P m' j"
  using assms(1,3) unfolding saved_at_def there_iff same_files_def assms(2,4,5) by simp

lemma kind_frameD:
  assumes "kind_frame os dir" and "changes_at os dir i x w w'"
  shows "item y \<Longrightarrow> (i, x) \<noteq> (j, y) \<Longrightarrow>
      os_is_directory os w' (item_path dir j y) = os_is_directory os w (item_path dir j y)"
    and "name_part n \<Longrightarrow> dir @ slash # n \<noteq> item_path dir i x \<Longrightarrow>
      os_exists os w' (dir @ slash # n) = os_exists os w (dir @ slash # n) \<and>
      os_is_directory os w' (dir @ slash # n) = os_is_directory os w (dir @ slash # n)"
    and "os_exists os w' dir = os_exists os w dir" and "os_is_directory os w' dir = os_is_directory os w dir"
proof -
  note f = assms(1) [unfolded kind_frame_def, THEN spec, THEN spec, THEN spec, THEN spec, THEN mp, OF assms(2)]
  show "item y \<Longrightarrow> (i, x) \<noteq> (j, y) \<Longrightarrow>
      os_is_directory os w' (item_path dir j y) = os_is_directory os w (item_path dir j y)"
    by (rule conjunct1 [OF f, THEN spec, THEN spec, THEN mp, OF conjI])
  show "name_part n \<Longrightarrow> dir @ slash # n \<noteq> item_path dir i x \<Longrightarrow>
      os_exists os w' (dir @ slash # n) = os_exists os w (dir @ slash # n) \<and>
      os_is_directory os w' (dir @ slash # n) = os_is_directory os w (dir @ slash # n)"
    by (rule conjunct1 [OF conjunct2 [OF f], THEN spec, THEN mp, OF conjI])
  show "os_exists os w' dir = os_exists os w dir" "os_is_directory os w' dir = os_is_directory os w dir"
    by (rule conjunct1 [OF conjunct2 [OF conjunct2 [OF f]]], rule conjunct2 [OF conjunct2 [OF conjunct2 [OF f]]])
qed

lemma changed_elsewhere:
  assumes "path_frame os dir" and "kind_frame os dir" and "changes_at os dir i x w w'" and "item y" and "(i, x) \<noteq> (j, y)"
  shows "os_exists os w' (item_path dir j y) = os_exists os w (item_path dir j y)"
    and "file_at os w' (item_path dir j y) = file_at os w (item_path dir j y)"
    and "os_is_directory os w' (item_path dir j y) = os_is_directory os w (item_path dir j y)"
proof -
  from assms(3) have c: "item x"
    "\<exists>c. os_write os w (item_path dir i x) c = Some w' \<or> os_create_directory os w (item_path dir i x) = Some w'"
    by (auto simp: changes_at_def)
  then obtain c where "os_write os w (item_path dir i x) c = Some w' \<or> os_create_directory os w (item_path dir i x) = Some w'"
    by blast
  note f = frame_changed [OF assms(1) c(1) assms(4,5) this]
  from f show "os_exists os w' (item_path dir j y) = os_exists os w (item_path dir j y)"
    and "file_at os w' (item_path dir j y) = file_at os w (item_path dir j y)"
    by (simp_all add: file_at_def)
  show "os_is_directory os w' (item_path dir j y) = os_is_directory os w (item_path dir j y)"
    by (rule kind_frameD(1) [OF assms(2-5)])
qed

lemma changed_same_files:
  assumes "path_frame os dir" and "kind_frame os dir" and "changes_at os dir i x w w'"
    and "j \<noteq> i \<or> x \<notin> {[], ''/views'', ''/ratings''}"
  shows "same_files os dir w w' j"
proof -
  have "(i, x) \<noteq> (j, y)" if "y \<in> {[], ''/views'', ''/ratings''}" for y using assms(4) that by auto
  with changed_elsewhere [OF assms(1-3)] show ?thesis by (simp add: same_files_def)
qed

lemma only_memes_changed:
  assumes "kind_frame os dir" and "changes_at os dir i x w w'" and "only_memes os dir w"
  shows "only_memes os dir w'"
proof -
  note frame = kind_frameD [OF assms(1,2)]
  have "\<exists>j :: meme_id. n = nat_to_string (unat j)"
    if n: "name_part n" "os_exists os w' (dir @ slash # n)" "os_is_directory os w' (dir @ slash # n)" for n
  proof (cases "dir @ slash # n = item_path dir i x")
    case True
    then have n': "n = nat_to_string (unat i) @ x" by (simp add: item_path_def)
    have "x = [] \<or> slash \<in> set x" using assms(2) by (auto simp: changes_at_def item_def remark_item_def)
    with n(1) n' have "x = []" by (auto simp: name_part_def)
    with n' show ?thesis by auto
  next
    case False
    with frame(2) [OF n(1)] have "os_exists os w' (dir @ slash # n) = os_exists os w (dir @ slash # n)"
      "os_is_directory os w' (dir @ slash # n) = os_is_directory os w (dir @ slash # n)" by blast+
    with n assms(3) show ?thesis unfolding only_memes_def by blast
  qed
  moreover have "os_exists os w' dir" "os_is_directory os w' dir"
    using frame(3,4) assms(3) by (simp_all only: only_memes_def)
  ultimately show ?thesis unfolding only_memes_def by blast
qed

definition kept :: "'w os \<Rightarrow> 'f platform \<Rightarrow> ('w, 'f) meme_module \<Rightarrow> bool" where
  \<comment> \<open>tables and files are in step, and there is nothing else in the root\<close>
  "kept os P m \<longleftrightarrow> saved os P m \<and> only_memes os (root_dir m) (disk_of (store m))"

lemma keptI: "(\<And>j. saved_at os P m j) \<Longrightarrow> only_memes os (root_dir m) (disk_of (store m)) \<Longrightarrow> kept os P m"
  by (simp add: kept_def saved_def)

lemma keptD: "kept os P m \<Longrightarrow> saved_at os P m j" "kept os P m \<Longrightarrow> only_memes os (root_dir m) (disk_of (store m))"
  by (simp_all add: kept_def saved_def)

lemma kept_same:
  assumes "kept os P m" and "root_dir m' = root_dir m" and "disk_of (store m') = disk_of (store m)"
    and "view_counts m' = view_counts m" and "ratings m' = ratings m"
  shows "kept os P m'"
proof (rule keptI)
  show "saved_at os P m' j" for j
    by (rule saved_at_same [OF keptD(1) [OF assms(1)] assms(2)]) (simp_all only: assms(3-5) same_files_refl)
  show "only_memes os (root_dir m') (disk_of (store m'))"
    unfolding assms(2,3) by (rule keptD(2) [OF assms(1)])
qed

text \<open>A change that leaves the files of the tables alone.\<close>

lemma kept_other:
  assumes "kept os P m" and "path_frame os (root_dir m)" and "kind_frame os (root_dir m)"
    and "changes_at os (root_dir m) i x (disk_of (store m)) (disk_of fs)"
    and "x \<notin> {[], ''/views'', ''/ratings''}"
  shows "kept os P (m\<lparr>store := fs\<rparr>)"
proof (rule keptI)
  have "same_files os (root_dir m) (disk_of (store m)) (disk_of fs) j" for j
    using changed_same_files [OF assms(2-4)] assms(5) by blast
  then show "saved_at os P (m\<lparr>store := fs\<rparr>) j" for j
    by (intro saved_at_same [OF keptD(1) [OF assms(1)]]) simp_all
  show "only_memes os (root_dir (m\<lparr>store := fs\<rparr>)) (disk_of (store (m\<lparr>store := fs\<rparr>)))"
    using only_memes_changed [OF assms(3,4) keptD(2) [OF assms(1)]] by simp
qed

lemma kept_made:
  assumes "kept os P m" and "os_laws os" and "path_frame os (root_dir m)" and "kind_frame os (root_dir m)"
    and "\<not> os_exists os (disk_of (store m)) (item_path (root_dir m) i [])"
    and "os_create_directory os (disk_of (store m)) (item_path (root_dir m) i []) = Some (disk_of fs)"
  shows "kept os P (m\<lparr>store := fs\<rparr>)"
proof (rule keptI)
  let ?dir = "root_dir m" and ?w = "disk_of (store m)"
  have change: "changes_at os ?dir i [] ?w (disk_of fs)" using assms(6) by (simp add: changes_at_def)
  show "saved_at os P (m\<lparr>store := fs\<rparr>) j" for j
  proof (cases "j = i")
    case True
    note frame = changed_elsewhere [OF assms(3,4) change, of _ i]
    have "saved_at os P m i" by (rule keptD(1) [OF assms(1)])
    moreover have "os_is_directory os (disk_of fs) (item_path ?dir i [])" by (rule os_lawsD(5) [OF assms(2,6)])
    ultimately show ?thesis
      using assms(5) frame(2,3) [OF items(3)] frame(2,3) [OF items(4)]
      unfolding saved_at_def there_iff True by simp
  next
    case False
    then have "same_files os ?dir ?w (disk_of fs) j" using changed_same_files [OF assms(3,4) change] by blast
    then show ?thesis by (intro saved_at_same [OF keptD(1) [OF assms(1)]]) simp_all
  qed
  show "only_memes os (root_dir (m\<lparr>store := fs\<rparr>)) (disk_of (store (m\<lparr>store := fs\<rparr>)))"
    using only_memes_changed [OF assms(4) change keptD(2) [OF assms(1)]] by simp
qed

text \<open>A table and its file change together.\<close>

lemma table_file_written:
  assumes "kept os P m" and "disk_takes os (root_dir m)" and "there (board_of os m) i"
    and "x = ''/views'' \<or> x = ''/ratings''"
    and "write_file os (item_path (root_dir m) i x) c (store m) = (st, fs)"
  shows "os_write os (disk_of (store m)) (item_path (root_dir m) i x) c = Some (disk_of fs)"
proof -
  have s: "saved_at os P m i" by (rule keptD(1) [OF assms(1)])
  have "os_is_directory os (disk_of (store m)) (item_path (root_dir m) i [])"
    using s assms(3) unfolding saved_at_def by meson
  moreover have "\<not> os_is_directory os (disk_of (store m)) (item_path (root_dir m) i x)"
    using s assms(4) unfolding saved_at_def by meson
  moreover have "x \<in> {''/views'', ''/ratings''}" using assms(4) by blast
  ultimately have "os_write os (disk_of (store m)) (item_path (root_dir m) i x) c \<noteq> None"
    using assms(2) unfolding disk_takes_def by (iprover intro: conjI)
  with assms(5) show ?thesis by (auto simp: write_file_def Let_def split: option.splits)
qed

lemma kept_table:
  assumes "kept os P m" and "path_frame os (root_dir m)" and "kind_frame os (root_dir m)"
    and "changes_at os (root_dir m) i x (disk_of (store m)) (disk_of (store m'))" and "x = ''/views'' \<or> x = ''/ratings''"
    and "root_dir m' = root_dir m"
    and "\<And>j. j \<noteq> i \<Longrightarrow> view_counts m' (sint j) = view_counts m (sint j) \<and> ratings m' (sint j) = ratings m (sint j)"
    and "saved_at os P m' i"
  shows "kept os P m'"
proof (rule keptI)
  show "saved_at os P m' j" for j
  proof (cases "j = i")
    case False
    then have "same_files os (root_dir m) (disk_of (store m)) (disk_of (store m')) j"
      using changed_same_files [OF assms(2-4)] by blast
    with assms(7) [OF False] show ?thesis
      by (intro saved_at_same [OF keptD(1) [OF assms(1)] assms(6)]) simp_all
  qed (use assms(8) in simp)
  show "only_memes os (root_dir m') (disk_of (store m'))"
    unfolding assms(6) by (rule only_memes_changed [OF assms(3,4) keptD(2) [OF assms(1)]])
qed

lemma kept_viewed:
  assumes "kept os P m" and "os_laws os" and "path_frame os (root_dir m)" and "kind_frame os (root_dir m)"
    and "disk_takes os (root_dir m)" and "there (board_of os m) i"
    and "increment_view_count os i m = (Inr (), m')"
  shows "kept os P m'"
proof -
  let ?dir = "root_dir m" and ?w = "disk_of (store m)"
  let ?k = "case view_counts m (sint i) of Some c \<Rightarrow> c + 1 | None \<Rightarrow> 1"
  note inc = increment_views [OF assms(7)]
  obtain st fs where w: "write_file os (item_path ?dir i ''/views'') (int_to_string ?k) (store m) = (st, fs)"
    by (cases "write_file os (item_path ?dir i ''/views'') (int_to_string ?k) (store m)")
  with inc have m': "store m' = fs" "root_dir m' = ?dir" "ratings m' = ratings m"
    "view_counts m' = (view_counts m)(sint i \<mapsto> ?k)" "in_int_range ?k"
    by (simp_all only: meme_path_item(1) snd_conv)
  from table_file_written [OF assms(1,5,6) disjI1 [OF refl] w]
  have os: "os_write os ?w (item_path ?dir i ''/views'') (int_to_string ?k) = Some (disk_of (store m'))"
    by (simp only: m'(1))
  then have change: "changes_at os ?dir i ''/views'' ?w (disk_of (store m'))" by (auto simp: changes_at_def)
  note frame = changed_elsewhere [OF assms(3,4) change, of _ i]
  have s: "saved_at os P m i" by (rule keptD(1) [OF assms(1)])
  have "file_at os (disk_of (store m')) (item_path ?dir i ''/views'') = Some (int_to_string ?k)"
    using os_lawsD(1,2) [OF assms(2) os] by (simp add: file_at_def)
  with s assms(6) frame [OF items(1)] frame(2,3) [OF items(4)] os_lawsD(3) [OF assms(2) os]
  have "saved_at os P m' i"
    unfolding saved_at_def there_iff m'(2-4) views_text_def using m'(5) by simp
  with change show ?thesis
    by (intro kept_table [OF assms(1,3,4) change]) (simp_all add: m')
qed

lemma kept_rated:
  assumes "kept os P m" and "os_laws os" and "path_frame os (root_dir m)" and "kind_frame os (root_dir m)"
    and "disk_takes os (root_dir m)" and "there (board_of os m) i"
    and "add_rating os P i r m = (Inr (), m')"
  shows "kept os P m'"
proof -
  let ?dir = "root_dir m" and ?w = "disk_of (store m)"
  obtain n a where nr: "next_rating P (ratings m (sint i)) r = (n, a)" by (cases "next_rating P (ratings m (sint i)) r")
  let ?text = "int_to_string n @ '','' @ float_to_string P a"
  obtain st fs where w: "write_file os (item_path ?dir i ''/ratings'') ?text (store m) = (st, fs)"
    by (cases "write_file os (item_path ?dir i ''/ratings'') ?text (store m)")
  have m': "store m' = fs" "root_dir m' = ?dir" "view_counts m' = view_counts m"
    "ratings m' = (ratings m)(sint i \<mapsto> (n, a))" "in_int_range n"
    using assms(7) w unfolding add_rating_def Let_def meme_path_item(1) nr by (auto split: if_splits)
  from table_file_written [OF assms(1,5,6) disjI2 [OF refl] w]
  have os: "os_write os ?w (item_path ?dir i ''/ratings'') ?text = Some (disk_of (store m'))"
    by (simp only: m'(1))
  then have change: "changes_at os ?dir i ''/ratings'' ?w (disk_of (store m'))" by (auto simp: changes_at_def)
  note frame = changed_elsewhere [OF assms(3,4) change, of _ i]
  have s: "saved_at os P m i" by (rule keptD(1) [OF assms(1)])
  have "file_at os (disk_of (store m')) (item_path ?dir i ''/ratings'') = Some ?text"
    using os_lawsD(1,2) [OF assms(2) os] by (simp add: file_at_def)
  with s assms(6) frame [OF items(1)] frame(2,3) [OF items(3)] os_lawsD(3) [OF assms(2) os]
  have "saved_at os P m' i"
    unfolding saved_at_def there_iff m'(2-4) votes_text_def using m'(5) by simp
  with change show ?thesis
    by (intro kept_table [OF assms(1,3,4) change]) (simp_all add: m')
qed

section \<open>Requests keep the files in step\<close>

definition meme_disk :: "'w os \<Rightarrow> string \<Rightarrow> bool" where
  "meme_disk os dir \<longleftrightarrow> os_laws os \<and> path_frame os dir \<and> kind_frame os dir \<and> disk_takes os dir"

lemma meme_diskD:
  assumes "meme_disk os dir"
  shows "os_laws os" and "path_frame os dir" and "kind_frame os dir" and "disk_takes os dir"
  using assms by (simp_all add: meme_disk_def)

lemma kept_created:
  assumes "kept os P m" and "meme_disk os (root_dir m)" and "create_meme os c m = (r, m')"
  shows "kept os P m'"
proof -
  note d = meme_diskD [OF assms(2)]
  let ?i = "id_count m + 1" and ?dir = "root_dir m"
  obtain st1 fs1 where mk: "create_directory os (item_path ?dir ?i []) (store m) = (st1, fs1)"
    by (cases "create_directory os (item_path ?dir ?i []) (store m)")
  obtain st2 fs2 where wr: "write_file os (item_path ?dir ?i ''/content'') c fs1 = (st2, fs2)"
    by (cases "write_file os (item_path ?dir ?i ''/content'') c fs1")
  have p: "meme_path (m\<lparr>id_count := ?i\<rparr>) ?i = item_path ?dir ?i []" by (simp add: meme_path_item)
  have q: "item_path ?dir ?i [] @ ''/content'' = item_path ?dir ?i ''/content''" by (simp add: item_path_def)
  have run: "create_meme os c m =
      (if st1 \<noteq> Success then (None, m\<lparr>id_count := ?i, store := fs1\<rparr>)
       else (if st2 \<noteq> Success then None else Some ?i, m\<lparr>id_count := ?i, store := fs2\<rparr>))"
    by (simp add: create_meme_def generate_id_def Let_def p [simplified] mk [simplified] q [simplified] wr [simplified])
  have made: "kept os P (m\<lparr>store := fs1\<rparr>)"
    using mk
  proof (rule create_directory_cases)
    assume "\<not> os_exists os (disk_of (store m)) (item_path ?dir ?i [])"
      "os_create_directory os (disk_of (store m)) (item_path ?dir ?i []) = Some (disk_of fs1)"
    with kept_made [OF assms(1) d(1-3)] show ?thesis by blast
  qed (intro kept_same [OF assms(1)], simp_all)
  have filled: "kept os P (m\<lparr>store := fs2\<rparr>)"
    using wr
  proof (rule write_file_cases)
    assume "os_write os (disk_of fs1) (item_path ?dir ?i ''/content'') c = Some (disk_of fs2)"
    then have "changes_at os ?dir ?i ''/content'' (disk_of fs1) (disk_of fs2)" by (auto simp: changes_at_def)
    with kept_other [of os P "m\<lparr>store := fs1\<rparr>" ?i "''/content''" fs2] made d show ?thesis by simp
  qed (intro kept_same [OF made], simp_all)
  have "kept os P (m\<lparr>id_count := ?i, store := fs1\<rparr>)" by (rule kept_same [OF made]) simp_all
  moreover have "kept os P (m\<lparr>id_count := ?i, store := fs2\<rparr>)" by (rule kept_same [OF filled]) simp_all
  ultimately show ?thesis using run assms(3) by (auto split: if_splits)
qed

lemma kept_read:
  assumes "kept os P m" and "get_content os i m = (c, m')"
  shows "kept os P m'"
proof -
  obtain st x fs where r: "read_file os (meme_path m i @ ''/content'') [] (store m) = (st, x, fs)"
    by (cases "read_file os (meme_path m i @ ''/content'') [] (store m)")
  have "disk_of fs = disk_of (store m)" by (rule files.read_view [OF r])
  with assms(2) r show ?thesis
    by (intro kept_same [OF assms(1)]) (auto simp: get_content_def)
qed

lemma kept_shown:
  assumes "kept os P m" and "meme_disk os (root_dir m)" and "get_meme os P i m = (r, m')"
  shows "kept os P m'"
proof (cases "exist os (meme_path m i) (store m) \<and> os_is_directory os (disk_of (store m)) (meme_path m i)")
  case False
  with assms(1,3) show ?thesis by (auto simp: get_meme_def)
next
  case True
  then have t: "there (board_of os m) i" by (simp add: there_iff exist_def meme_path_item)
  obtain q m1 where inc: "increment_view_count os i m = (q, m1)" by (cases "increment_view_count os i m")
  show ?thesis
  proof (cases q)
    case (Inl e)
    with inc have "m1 = m" by (auto simp: increment_view_count_def Let_def split: if_splits)
    with True inc Inl assms(1,3) show ?thesis by (simp add: get_meme_def)
  next
    case (Inr u)
    then have "kept os P m1"
      using kept_viewed [OF assms(1) meme_diskD [OF assms(2)] t] inc by simp
    moreover obtain c m2 where c: "get_content os i m1 = (c, m2)" by (cases "get_content os i m1")
    ultimately have "kept os P m2" by (rule kept_read)
    with True inc Inr c assms(3) show ?thesis by (auto simp: get_meme_def split: if_splits)
  qed
qed

lemma kept_listed:
  assumes "kept os P m" and "get_comments os P i m = (r, m')"
  shows "kept os P m'"
  using assms(2) read_comments_disk [of os P _ "store m"]
  by (intro kept_same [OF assms(1)])
    (auto simp: get_comments_def Let_def split: if_splits prod.splits, metis snd_conv)

lemma kept_commented:
  assumes "kept os P m" and "meme_disk os (root_dir m)" and "name_part uuid"
  shows "kept os P (add_comment os uuid i c m)"
proof (cases "exist os (meme_path m i) (store m)")
  case False
  with assms(1) show ?thesis by (simp add: add_comment_def)
next
  case True
  note d = meme_diskD [OF assms(2)]
  let ?dir = "root_dir m"
  let ?fs1 = "if \<not> exist os (item_path ?dir i ''/comments'') (store m)
    then snd (create_directory os (item_path ?dir i ''/comments'') (store m)) else store m"
  have filed: "(meme_path m i @ ''/comments'') @ ''/'' @ uuid = item_path ?dir i (remark_item uuid)"
    by (simp add: meme_path_def item_path_def remark_item_def)
  obtain st fs where w: "write_file os (item_path ?dir i (remark_item uuid)) (comment_content c) ?fs1 = (st, fs)"
    by (cases "write_file os (item_path ?dir i (remark_item uuid)) (comment_content c) ?fs1")
  have run: "add_comment os uuid i c m = m\<lparr>store := fs\<rparr>"
    using True unfolding add_comment_def Let_def filed unfolding meme_path_item(1) using w by simp
  obtain st1 fs1 where mk: "create_directory os (item_path ?dir i ''/comments'') (store m) = (st1, fs1)"
    by (cases "create_directory os (item_path ?dir i ''/comments'') (store m)")
  have "kept os P (m\<lparr>store := fs1\<rparr>)"
    using mk
  proof (rule create_directory_cases)
    assume "os_create_directory os (disk_of (store m)) (item_path ?dir i ''/comments'') = Some (disk_of fs1)"
    then have "changes_at os ?dir i ''/comments'' (disk_of (store m)) (disk_of fs1)" by (simp add: changes_at_def)
    with kept_other [OF assms(1) d(2,3)] show ?thesis by simp
  qed (intro kept_same [OF assms(1)], simp_all)
  moreover have "kept os P (m\<lparr>store := store m\<rparr>)" using assms(1) by simp
  ultimately have made: "kept os P (m\<lparr>store := ?fs1\<rparr>)" by (simp add: mk)
  show ?thesis
    unfolding run using w
  proof (rule write_file_cases)
    assume "os_write os (disk_of ?fs1) (item_path ?dir i (remark_item uuid)) (comment_content c) = Some (disk_of fs)"
    with assms(3) have "changes_at os ?dir i (remark_item uuid) (disk_of ?fs1) (disk_of fs)"
      unfolding changes_at_def by (intro conjI disjI1 exI items(6))
    with kept_other [of os P "m\<lparr>store := ?fs1\<rparr>" i "remark_item uuid" fs] made d
    show "kept os P (m\<lparr>store := fs\<rparr>)" by simp
  qed (intro kept_same [OF made], simp_all)
qed

definition comment_on_meme :: "'w os \<Rightarrow> 'f platform \<Rightarrow> string \<Rightarrow> request \<Rightarrow> ('w, 'f) meme_module \<Rightarrow> bool" where
  \<comment> \<open>a comment that is posted is on a meme that is there\<close>
  "comment_on_meme os P location req m \<longleftrightarrow>
     (\<forall>x n. req_method req = Verb_post \<and> req_target req = location @ ''/comment'' \<and>
        make_comment P (req_body req) = Inr x \<and> stoi (comment_id x) = Inr n \<longrightarrow>
        there (board_of os m) (word_of_int n))"

lemma first_match_state:
  "first_match bs req res s = (r, res', s') \<Longrightarrow> s' = s \<or> (\<exists>h \<in> snd ` set bs. h req res s = (r, res', s'))"
  by (induction bs req res s rule: first_match.induct) auto

lemma kept_get:
  assumes "kept os P m" and "meme_disk os (root_dir m)" and "handle_get b os P rnd location req res m = (r, res', m')"
  shows "kept os P m' \<and> root_dir m' = root_dir m"
proof -
  have memes: "kept os P m' \<and> root_dir m' = root_dir m" if "get_meme os P i m = (x, m')" for i x
    using kept_shown [OF assms(1,2) that] get_meme_root [OF that] ..
  have listed: "kept os P m' \<and> root_dir m' = root_dir m" if "get_comments os P i m = (x, m')" for i x
    using kept_listed [OF assms(1) that] get_comments_board [OF that] by blast
  have random: "kept os P m' \<and> root_dir m' = root_dir m"
    if "handle_get_random_meme b os P rnd req res m = (r, res', m')"
    using that memes assms(1)
    by (auto simp: handle_get_random_meme_def Let_def split: if_splits prod.splits sum.splits option.splits)
  have by_id: "kept os P m' \<and> root_dir m' = root_dir m"
    if "handle_get_meme_by_id b os P location req res m = (r, res', m')"
    using that memes assms(1) by (auto simp: handle_get_meme_by_id_def split: prod.splits sum.splits option.splits)
  have info: "kept os P m' \<and> root_dir m' = root_dir m"
    if "handle_get_other_info_by_id b os P req res m = (r, res', m')"
    using that listed assms(1)
    by (auto simp: handle_get_other_info_by_id_def split: prod.splits sum.splits)
  have same: "m' = m"
    if "handle_creation_form b location req res m = (r, res', m') \<or>
      handle_post_comment_form b location req res m = (r, res', m') \<or>
      handle_get_all_memes b location req res m = (r, res', m') \<or>
      handle_get_meme_by_views b location req res m = (r, res', m') \<or>
      handle_get_meme_by_rating b P location req res m = (r, res', m')"
    using that
    by (auto simp: handle_creation_form_def handle_post_comment_form_def handle_get_all_memes_def
        handle_get_meme_by_views_def handle_get_meme_by_rating_def split: if_splits sum.splits)
  from assms(3) [unfolded handle_get_def Let_def, THEN first_match_state]
  have "m' = m \<or> handle_get_random_meme b os P rnd req res m = (r, res', m') \<or>
      handle_get_meme_by_id b os P location req res m = (r, res', m') \<or>
      handle_get_other_info_by_id b os P req res m = (r, res', m')"
    using same by auto
  then show ?thesis using random by_id info assms(1) by blast
qed

lemma kept_post_comment:
  assumes "kept os P m" and "meme_disk os (root_dir m)" and "name_part uuid"
    and "\<And>x n. make_comment P (req_body req) = Inr x \<Longrightarrow> stoi (comment_id x) = Inr n \<Longrightarrow>
      there (board_of os m) (word_of_int n)"
    and "handle_post_comment b os P uuid req res m = (r, res', m')"
  shows "kept os P m' \<and> root_dir m' = root_dir m"
proof (cases "m' = m")
  case False
  from assms(5) False obtain x where x: "make_comment P (req_body req) = Inr x"
    by (auto simp: handle_post_comment_def split: sum.splits)
  from assms(5) x False obtain i k where ik: "stoi (comment_id x) = Inr i" "stoi (comment_rating x) = Inr k"
    by (cases "stoi (comment_id x)"; cases "stoi (comment_rating x)")
      (auto simp: handle_post_comment_def split: if_splits)
  obtain q m1 where rate: "add_rating os P (word_of_int i) k m = (q, m1)" by (cases "add_rating os P (word_of_int i) k m")
  show ?thesis
  proof (cases q)
    case (Inl e)
    with rate have "m1 = m" by (auto simp: add_rating_def Let_def split: if_splits prod.splits)
    with assms(5) x ik rate Inl False show ?thesis by (simp add: handle_post_comment_def)
  next
    case (Inr u)
    note d = meme_diskD [OF assms(2)]
    have "add_rating os P (word_of_int i) k m = (Inr (), m1)" using rate Inr by simp
    from kept_rated [OF assms(1) d assms(4) [OF x ik(1)] this] rate_refines(1) [OF d(2) this]
    have k: "kept os P m1" "root_dir m1 = root_dir m" by blast+
    have "kept os P (add_comment os uuid (word_of_int i) x m1)"
      by (rule kept_commented [OF k(1) _ assms(3)]) (use k(2) assms(2) in simp)
    with assms(5) x ik rate Inr k(2) show ?thesis by (auto simp: handle_post_comment_def root_same(4))
  qed
qed (use assms(1) in simp)

lemma kept_request:
  assumes "kept os P m" and "meme_disk os (root_dir m)" and "name_part uuid" and "comment_on_meme os P location req m"
    and "meme_handle_request b os P rnd uuid location req res m = (r, res', m')"
  shows "kept os P m' \<and> root_dir m' = root_dir m"
proof -
  have post: "kept os P m' \<and> root_dir m' = root_dir m"
    if h: "handle_post b os P uuid location req res m = (r, res', m')" "req_method req = Verb_post"
  proof -
    have meme: "kept os P m' \<and> root_dir m' = root_dir m" if "handle_post_meme b os P req res m = (r, res', m')"
      using that kept_created [OF assms(1,2)] root_same(3) assms(1)
      by (auto simp: handle_post_meme_def split: sum.splits prod.splits option.splits)
    have "kept os P m' \<and> root_dir m' = root_dir m"
      if "handle_post_comment b os P uuid req res m = (r, res', m')" "req_target req = location @ ''/comment''"
      using kept_post_comment [OF assms(1-3) _ that(1)] assms(4) h(2) that(2) unfolding comment_on_meme_def by blast
    with meme h(1) assms(1) show ?thesis by (auto simp: handle_post_def split: if_splits)
  qed
  from assms(1,5) post kept_get [OF assms(1,2)] show ?thesis
    by (cases "req_method req") (auto simp: meme_handle_request_def)
qed

section \<open>Sequences of requests\<close>

fun comments_on_memes ::
    "beast \<Rightarrow> 'w os \<Rightarrow> 'f platform \<Rightarrow> string \<Rightarrow> (int \<times> string \<times> request) list \<Rightarrow> ('w, 'f) meme_module \<Rightarrow> bool" where
  "comments_on_memes b os P location [] m = True"
| "comments_on_memes b os P location ((rnd, uuid, req) # rs) m =
     (comment_on_meme os P location req m \<and>
      comments_on_memes b os P location rs
        (snd (snd (meme_handle_request b os P rnd uuid location req fresh_response m))))"

lemma kept_run:
  assumes "kept os P m" and "meme_disk os (root_dir m)" and "\<forall>(rnd, uuid, req) \<in> set rs. name_part uuid"
    and "comments_on_memes b os P location rs m" and "meme_run b os P location rs m = (r, m')"
  shows "kept os P m' \<and> root_dir m' = root_dir m"
  using assms
proof (induction rs arbitrary: m r m')
  case (Cons q rs)
  obtain rnd uuid req where q: "q = (rnd, uuid, req)" by (cases q)
  obtain r1 res1 m1 where one: "meme_handle_request b os P rnd uuid location req fresh_response m = (r1, res1, m1)"
    by (cases "meme_handle_request b os P rnd uuid location req fresh_response m")
  from kept_request [OF Cons.prems(1,2) _ _ one] Cons.prems(3,4) q
  have k: "kept os P m1" "root_dir m1 = root_dir m" by auto
  show ?case
  proof (cases r1)
    case (Inl e)
    with Cons.prems(5) q one k show ?thesis by simp
  next
    case (Inr st)
    obtain r2 m2 where rest: "meme_run b os P location rs m1 = (r2, m2)" by (cases "meme_run b os P location rs m1")
    from Cons.IH [OF k(1) _ _ _ rest] Cons.prems(2-4) q one k(2) have "kept os P m2 \<and> root_dir m2 = root_dir m" by simp
    with Cons.prems(5) q one Inr rest show ?thesis by simp
  qed
qed simp

section \<open>Property\<close>


definition restart_platform :: "int platform" where
  \<comment> \<open>\<open>sample_platform\<close> with a \<open>stof\<close> that reads every whole number\<close>
  "restart_platform = sample_platform\<lparr>stof := (\<lambda>s. case strtol s of None \<Rightarrow> Inl Invalid_argument | Some v \<Rightarrow> Inr v)\<rparr>"

lemma restart_printing: "printing_law restart_platform" "reread restart_platform r = r"
proof -
  have d: "\<not> is_digit newline" by (simp add: is_digit_def)
  then have "newline \<notin> set (int_to_string k)" for k
    using nat_to_string_digits by (auto simp: int_to_string_def)
  then show "printing_law restart_platform" "reread restart_platform r = r"
    by (simp_all add: printing_law_def reread_def restart_platform_def sample_platform_def)
qed

lemma item_parent:
  "x = ''/views'' \<or> x = ''/ratings'' \<Longrightarrow> parent_dir (item_path dir i x) = item_path dir i []"
proof -
  assume "x = ''/views'' \<or> x = ''/ratings''"
  then obtain n where x: "x = slash # n" "slash \<notin> set n" by auto
  have "rfind_char slash ((item_path dir i []) @ slash # n) = Some (length (item_path dir i []))"
    using x(2) by (rule rfind_char_append)
  moreover have "item_path dir i x = item_path dir i [] @ slash # n" by (simp add: x item_path_def)
  ultimately show ?thesis by (simp add: parent_dir_def)
qed

lemma sample_kind_frame: "kind_frame sample_os dir"
proof -
  have kinds: "os_is_directory sample_os w q = (map_of w q = Some None)" "os_exists sample_os w q = (map_of w q \<noteq> None)"
    for w q
    by (simp_all add: sample_os_def)
  have same: "map_of w' q = map_of w q" if "changes_at sample_os dir i x w w'" "q \<noteq> item_path dir i x" for i x w w' q
    using that by (auto simp: changes_at_def sample_os_def split: if_splits option.splits)
  have not_root: "dir \<noteq> item_path dir i x" for i x by (simp add: item_path_def)
  have other: "item_path dir j y \<noteq> item_path dir i x"
    if "changes_at sample_os dir i x w w'" "item y" "(i, x) \<noteq> (j, y)" for i x j y w w'
  proof -
    have "item x" using that(1) by (simp add: changes_at_def)
    with that(2,3) show ?thesis by auto
  qed
  show ?thesis
    unfolding kind_frame_def kinds
  proof (intro allI impI, goal_cases)
    case (1 i x w w')
    note s = same [OF 1] and o = same [OF 1 other [OF 1]] and r = same [OF 1 not_root]
    show ?case by (intro conjI allI impI; (elim conjE)?) (simp_all only: s o r not_False_eq_True)
  qed
qed

lemma sample_meme_disk: "meme_disk sample_os dir"
proof -
  have "disk_takes sample_os dir"
    unfolding disk_takes_def using item_parent by (auto simp: sample_os_def)
  then show ?thesis by (simp add: meme_disk_def sample_os_laws sample_path_frame sample_kind_frame)
qed

lemma memes_disk_paths:
  "os_exists sample_os memes_disk (item_path ''/memes'' i x) \<longleftrightarrow>
     item_path ''/memes'' i x \<in> {item_path ''/memes'' 7 ''/views'', item_path ''/memes'' 7 ''/content'', item_path ''/memes'' 7 []}"
proof -
  have "item_path ''/memes'' i x \<noteq> ''/memes''" by (simp add: item_path_def)
  moreover have "''/memes/7/views'' = item_path ''/memes'' 7 ''/views''"
    "''/memes/7/content'' = item_path ''/memes'' 7 ''/content''" "''/memes/7'' = item_path ''/memes'' 7 []"
    by code_simp+
  ultimately show ?thesis unfolding memes_disk_def by (simp add: sample_os_def)
qed

lemma memes_kept: "kept sample_os restart_platform memes"
proof (rule keptI)
  have none: "os_exists sample_os memes_disk (item_path ''/memes'' i x) = False" if "i \<noteq> 7" "item x" for i x
    unfolding memes_disk_paths using that by simp
  have not_dir: "os_exists sample_os w p = False \<Longrightarrow> os_is_directory sample_os w p = False" for w p
    by (simp add: sample_os_def)
  have seven: "saved_at sample_os restart_platform memes 7"
  proof -
    have "os_exists sample_os memes_disk (item_path ''/memes'' 7 [])"
      "os_is_directory sample_os memes_disk (item_path ''/memes'' 7 [])"
      "\<not> os_is_directory sample_os memes_disk (item_path ''/memes'' 7 ''/views'')"
      "\<not> os_is_directory sample_os memes_disk (item_path ''/memes'' 7 ''/ratings'')"
      "file_at sample_os memes_disk (item_path ''/memes'' 7 ''/views'') = Some (int_to_string 41)"
      "file_at sample_os memes_disk (item_path ''/memes'' 7 ''/ratings'') = None"
      by code_simp+
    then show ?thesis
      by (simp add: saved_at_def there_iff memes_def views_text_def votes_text_def in_int_range_def)
  qed
  show "saved_at sample_os restart_platform memes j" for j
  proof (cases "j = 7")
    case False
    moreover have "sint j \<noteq> 7" using False sint_eq [of j 7] by simp
    ultimately show ?thesis
      using none [of j] not_dir
      by (simp add: saved_at_def there_iff memes_def views_text_def votes_text_def file_at_def)
  qed (use seven in simp)
  have "\<exists>i :: meme_id. n = nat_to_string (unat i)"
    if "name_part n" "os_exists sample_os memes_disk (''/memes'' @ slash # n)" for n
  proof -
    have "n \<in> {''7/views'', ''7/content'', ''7''}"
      using that by (auto simp: memes_disk_def sample_os_def split: if_splits)
    with that(1) have "n = ''7''" by (auto simp: name_part_def)
    moreover have "''7'' = nat_to_string (unat (7 :: meme_id))" by code_simp
    ultimately show ?thesis by metis
  qed
  moreover have "os_exists sample_os memes_disk ''/memes''" "os_is_directory sample_os memes_disk ''/memes''"
    by code_simp+
  ultimately show "only_memes sample_os (root_dir memes) (disk_of (store memes))"
    unfolding only_memes_def by (auto simp: memes_def)
qed

definition busy_requests :: "(int \<times> string \<times> request) list" where
  "busy_requests =
     [(0, ''v'', crud_request Verb_post ''/memes/comment'' ''nice''), (0, ''w'', crud_request Verb_get ''/memes/7'' [])]"


end
