(* ===== verification/Handler_Objects.thy ===== *)
theory Handler_Objects
  imports Dispatcher
begin

text \<open>
  The handlers as the objects the factories make (\<open>src/factory/\<close>, \<open>src/include/handler/\<close>): a
  \<open>create\<close> for every factory and the virtual call \<open>handle_request\<close>. \<open>create_and_handle\<close>, on which
  the rest of the development is built, is the one after the other.
\<close>

section \<open>Objects\<close>

datatype handler_object =
    Echo_handler
  | File_not_found_handler
  | Health_handler string string
  | Block_handler
  | Static_handler string
  | Crud_handler string
  | Meme_handler string string

text \<open>
  What a factory returns: \<open>None\<close> is the null pointer. The references a CRUD or meme handler holds
  into its factory are the tables of the location in the \<open>world\<close>.
\<close>

type_synonym ('w, 'f) created = "handler_object option result \<times> ('w, 'f) world"

definition echo_create :: "string \<Rightarrow> string \<Rightarrow> config \<Rightarrow> handler_object" where
  "echo_create location url cfg = Echo_handler"

definition file_not_found_create :: "string \<Rightarrow> string \<Rightarrow> config \<Rightarrow> handler_object" where
  "file_not_found_create location url cfg = File_not_found_handler"

definition health_create :: "string \<Rightarrow> string \<Rightarrow> config \<Rightarrow> handler_object" where
  "health_create location url cfg = Health_handler location url"

definition block_create :: "string \<Rightarrow> string \<Rightarrow> config \<Rightarrow> handler_object" where
  "block_create location url cfg = Block_handler"

definition crud_factory_create ::
    "'w os \<Rightarrow> chance \<Rightarrow> string \<Rightarrow> config \<Rightarrow> ('w, 'f) world \<Rightarrow> ('w, 'f) created" where
  "crud_factory_create os ch location cfg W =
     (case crud_create os (world_disk W) (junk_entity ch) cfg (crud_tables W location) of
        (r, ids) \<Rightarrow>
          (map_sum id (map_option Crud_handler) r, W\<lparr>crud_tables := (crud_tables W)(location := ids)\<rparr>))"

definition meme_factory_create ::
    "'w os \<Rightarrow> 'f platform \<Rightarrow> chance \<Rightarrow> string \<Rightarrow> config \<Rightarrow> ('w, 'f) world \<Rightarrow> ('w, 'f) created" where
  "meme_factory_create os P ch location cfg W =
     (case meme_create os P (junk_meme ch) (world_disk W) cfg (meme_tables W location) of
        (r, ms) \<Rightarrow>
          (map_sum id (map_option (Meme_handler location)) r,
           W\<lparr>meme_tables := (meme_tables W)(location := ms)\<rparr>))"

definition factory_create ::
    "'w os \<Rightarrow> 'f platform \<Rightarrow> chance \<Rightarrow> factory_kind \<Rightarrow> string \<Rightarrow> string \<Rightarrow> config \<Rightarrow> ('w, 'f) world \<Rightarrow>
     ('w, 'f) created" where
  \<comment> \<open>\<open>factory->create(location, url, *arguments)\<close>\<close>
  "factory_create os P ch kind location url cfg W =
     (case kind of
        EchoHandlerFactory \<Rightarrow> (Inr (Some (echo_create location url cfg)), W)
      | FileNotFoundHandlerFactory \<Rightarrow> (Inr (Some (file_not_found_create location url cfg)), W)
      | HealthHandlerFactory \<Rightarrow> (Inr (Some (health_create location url cfg)), W)
      | BlockHandlerFactory \<Rightarrow> (Inr (Some (block_create location url cfg)), W)
      | StaticHandlerFactory \<Rightarrow> (Inr (map_option Static_handler (static_create location url cfg)), W)
      | CrudHandlerFactory \<Rightarrow> crud_factory_create os ch location cfg W
      | MemeHandlerFactory \<Rightarrow> meme_factory_create os P ch location cfg W)"

definition handle_request ::
    "beast \<Rightarrow> 'w os \<Rightarrow> 'f platform \<Rightarrow> chance \<Rightarrow> string \<Rightarrow> handler_object \<Rightarrow> ('w, 'f) world handler" where
  \<comment> \<open>\<open>handler->handle_request(req, res)\<close>; \<open>location\<close> is that of the factory whose tables the
    object refers to\<close>
  "handle_request b os P ch location h req res W =
     (case h of
        Echo_handler \<Rightarrow> echo_handle_request b req res W
      | File_not_found_handler \<Rightarrow> file_not_found_handle_request b req res W
      | Health_handler l url \<Rightarrow> health_handle_request b req res W
      | Block_handler \<Rightarrow> block_handle_request req res W
      | Static_handler file_name \<Rightarrow>
          (case static_handle_request b os file_name req res (world_disk W) of
             (r, res', w') \<Rightarrow> (r, res', W\<lparr>world_disk := w'\<rparr>))
      | Crud_handler dir \<Rightarrow>
          (case crud_handle_request b os dir req res
                  \<lparr>crud_ids = crud_tables W location, crud_disk = world_disk W\<rparr> of
             (r, res', s') \<Rightarrow>
               (r, res', W\<lparr>world_disk := crud_disk s',
                           crud_tables := (crud_tables W)(location := crud_ids s')\<rparr>))
      | Meme_handler l dir \<Rightarrow>
          (case meme_tables W location dir of
             None \<Rightarrow> (Inl Undefined_behaviour, res, W)
           | Some m0 \<Rightarrow>
               (case meme_handle_request b os P (rand_value ch) (uuid_value ch) l req res
                       (m0\<lparr>store := (store m0)\<lparr>disk_of := world_disk W\<rparr>\<rparr>) of
                  (r, res', m) \<Rightarrow>
                    (r, res', W\<lparr>world_disk := disk_of (store m),
                                meme_tables := (meme_tables W)(location := (meme_tables W location)(dir \<mapsto> m))\<rparr>))))"

section \<open>Creating, then handling\<close>

lemma meme_create_keeps: "meme_create os P junk w cfg ms = (r, ms') \<Longrightarrow> r = Inl e \<or> r = Inr None \<Longrightarrow> ms' = ms"
  by (auto simp: meme_create_def Let_def split: list.splits stmt.splits if_splits option.splits sum.splits)

lemma meme_create_stores: "meme_create os P junk w cfg ms = (Inr (Some dir), ms') \<Longrightarrow> \<exists>m. ms' dir = Some m"
  by (auto simp: meme_create_def Let_def split: list.splits stmt.splits if_splits option.splits sum.splits)

lemma create_and_handle_objects:
  "create_and_handle b os P ch kind location url cfg req res W =
     (case factory_create os P ch kind location url cfg W of
        (Inl e, W1) \<Rightarrow> (Inl e, res, W1)
      | (Inr None, W1) \<Rightarrow> (Inl Undefined_behaviour, res, W1)
      | (Inr (Some h), W1) \<Rightarrow> handle_request b os P ch location h req res W1)"
proof (cases kind)
  case StaticHandlerFactory
  then show ?thesis
    by (cases "static_create location url cfg")
      (simp_all add: create_and_handle_def factory_create_def run_static_def handle_request_def)
next
  case CrudHandlerFactory
  obtain r ids where c: "crud_create os (world_disk W) (junk_entity ch) cfg (crud_tables W location) = (r, ids)"
    by (cases "crud_create os (world_disk W) (junk_entity ch) cfg (crud_tables W location)")
  note simps = create_and_handle_def factory_create_def crud_factory_create_def run_crud_def handle_request_def
  show ?thesis
  proof (cases "\<exists>dir. r = Inr (Some dir)")
    case True
    then obtain dir where made: "r = Inr (Some dir)" by blast
    let ?W1 = "W\<lparr>crud_tables := (crud_tables W)(location := ids)\<rparr>"
    obtain q res1 s where
      h: "crud_handle_request b os dir req res \<lparr>crud_ids = ids, crud_disk = world_disk W\<rparr> = (q, res1, s)"
      by (cases "crud_handle_request b os dir req res \<lparr>crud_ids = ids, crud_disk = world_disk W\<rparr>")
    have "create_and_handle b os P ch kind location url cfg req res W =
        (q, res1, W\<lparr>world_disk := crud_disk s, crud_tables := (crud_tables W)(location := crud_ids s)\<rparr>)"
      using CrudHandlerFactory c made h by (simp add: create_and_handle_def run_crud_def)
    moreover have "factory_create os P ch kind location url cfg W = (Inr (Some (Crud_handler dir)), ?W1)"
      using CrudHandlerFactory c made by (simp add: factory_create_def crud_factory_create_def)
    moreover have "handle_request b os P ch location (Crud_handler dir) req res ?W1 =
        (q, res1, W\<lparr>world_disk := crud_disk s, crud_tables := (crud_tables W)(location := crud_ids s)\<rparr>)"
      using h by (simp add: handle_request_def)
    ultimately show ?thesis by (simp only: prod.case sum.case option.case)
  next
    case False
    then have "r = Inr None \<or> (\<exists>e. r = Inl e)" by (cases r) auto
    with c CrudHandlerFactory show ?thesis by (elim disjE exE) (simp_all add: simps)
  qed
next
  case MemeHandlerFactory
  obtain r ms where c: "meme_create os P (junk_meme ch) (world_disk W) cfg (meme_tables W location) = (r, ms)"
    by (cases "meme_create os P (junk_meme ch) (world_disk W) cfg (meme_tables W location)")
  show ?thesis
  proof (cases "\<exists>dir. r = Inr (Some dir)")
    case True
    then obtain dir where made: "r = Inr (Some dir)" by blast
    obtain m where m: "ms dir = Some m" using meme_create_stores [OF c [unfolded made]] ..
    let ?m = "m\<lparr>store := (store m)\<lparr>disk_of := world_disk W\<rparr>\<rparr>"
    let ?W1 = "W\<lparr>meme_tables := (meme_tables W)(location := ms)\<rparr>"
    obtain q res1 m1 where
      h: "meme_handle_request b os P (rand_value ch) (uuid_value ch) location req res ?m = (q, res1, m1)"
      by (cases "meme_handle_request b os P (rand_value ch) (uuid_value ch) location req res ?m")
    let ?W2 = "W\<lparr>world_disk := disk_of (store m1), meme_tables := (meme_tables W)(location := ms(dir \<mapsto> m1))\<rparr>"
    have "create_and_handle b os P ch kind location url cfg req res W = (q, res1, ?W2)"
      using MemeHandlerFactory c made m h by (simp add: create_and_handle_def run_meme_def)
    moreover have "factory_create os P ch kind location url cfg W = (Inr (Some (Meme_handler location dir)), ?W1)"
      using MemeHandlerFactory c made by (simp add: factory_create_def meme_factory_create_def)
    moreover have "handle_request b os P ch location (Meme_handler location dir) req res ?W1 = (q, res1, ?W2)"
      using m h by (simp add: handle_request_def)
    ultimately show ?thesis by (simp only: prod.case sum.case option.case)
  next
    case False
    then have none: "r = Inr None \<or> (\<exists>e. r = Inl e)" by (cases r) auto
    then have "ms = meme_tables W location" by (elim disjE exE) (rule meme_create_keeps [OF c], simp)+
    with none c MemeHandlerFactory show ?thesis
      by (elim disjE exE) (simp_all add: create_and_handle_def factory_create_def meme_factory_create_def run_meme_def)
  qed
qed (simp_all add: create_and_handle_def factory_create_def echo_create_def file_not_found_create_def
    health_create_def block_create_def handle_request_def)

end
