(* ===== verification/Server.thy ===== *)
theory Server
  imports Dispatcher
begin

text \<open>
  The program around the sessions: \<open>main\<close> (\<open>src/server_main.cc\<close>) up to the point where it serves
  or exits, and the accept loop of \<open>server\<close> (\<open>src/server.cc\<close>) with its sessions. The completion
  handlers run on several threads; here each is one step, so the runs are their interleavings.
  Threads, sockets and signals are
  in \<open>Process\<close>; what \<open>main\<close> logs is in \<open>Activity_Log\<close>.
\<close>

section \<open>Start-up\<close>

definition parse_file :: "'w os \<Rightarrow> 'w \<Rightarrow> string \<Rightarrow> bool \<times> config" where
  "parse_file os w file_name =
     (case os_read os w file_name of None \<Rightarrow> (False, Config []) | Some text \<Rightarrow> parse text)"

definition short_port :: "int \<Rightarrow> 16 word" where
  \<comment> \<open>the port number as the parameter \<open>short port\<close>\<close>
  "short_port portno = word_of_int portno"

definition endpoint_port :: "16 word \<Rightarrow> nat" where
  \<comment> \<open>\<open>tcp::endpoint\<close> takes an \<open>unsigned short\<close>\<close>
  "endpoint_port p = unat p"

datatype start =
    Exit int
  | Serve nat arguments factories
  | Meaningless

definition start_up :: "'w os \<Rightarrow> 'w \<Rightarrow> (nat \<Rightarrow> bool) \<Rightarrow> string list \<Rightarrow> start" where
  \<comment> \<open>\<open>main\<close> on the arguments after the program's name; \<open>bind\<close> tells which ports can be
    listened on, a failure being an exception that \<open>main\<close> reports and answers with 0\<close>
  "start_up os w bind args =
     (case args of
        [file_name] \<Rightarrow>
          (case parse_file os w file_name of
             (False, _) \<Rightarrow> Exit 1
           | (True, cfg) \<Rightarrow>
               let portno = get_port_num (statements cfg) in
               if portno = - 1 then Exit portno
               else (case (get_arguments (statements cfg) [], get_factories (statements cfg) []) of
                       (Inr args_of, Inr factories) \<Rightarrow>
                         if args_of = [] then Exit 1
                         else if bind (endpoint_port (short_port portno))
                         then Serve (endpoint_port (short_port portno)) args_of factories
                         else Exit 0
                     | _ \<Rightarrow> Meaningless))
      | _ \<Rightarrow> Exit 1)"

section \<open>The accept loop\<close>

text \<open>
  A server waits for one connection and keeps the sessions it started, each with the
  completions it has seen (\<open>events\<close>, a ghost), on the state behind the dispatcher.
\<close>

record 'd server =
  waiting :: session
  connections :: "(event list \<times> session) list"
  shared :: 'd

definition start_accept :: session where
  \<comment> \<open>the session made for the next connection\<close>
  "start_accept = new_session"

definition handle_accept :: "bool \<Rightarrow> 'd server \<Rightarrow> 'd server" where
  \<comment> \<open>after an error the session is deleted; a new one waits in either case\<close>
  "handle_accept err S =
     (if err then S\<lparr>waiting := start_accept\<rparr>
      else S\<lparr>waiting := start_accept, connections := connections S @ [([], waiting S)]\<rparr>)"

definition new_server :: "'d \<Rightarrow> 'd server" where
  "new_server d = \<lparr>waiting = start_accept, connections = [], shared = d\<rparr>"

inductive server_step :: "beast \<Rightarrow> 'd dispatcher \<Rightarrow> 'd server \<Rightarrow> 'd server \<Rightarrow> bool"
  for b dispatch where
  accepted: "server_step b dispatch S (handle_accept err S)"
| header_read: "i < length (connections S) \<Longrightarrow> connections S ! i = (evs, s) \<Longrightarrow>
    pending s = Reading_header \<Longrightarrow> handle_read_header b dispatch ev s (shared S) = (Inr s', d') \<Longrightarrow>
    server_step b dispatch S
      (S\<lparr>connections := (connections S)[i := (evs @ [Read ev], s')], shared := d'\<rparr>)"
| body_read: "i < length (connections S) \<Longrightarrow> connections S ! i = (evs, s) \<Longrightarrow>
    pending s = Reading_body \<Longrightarrow> handle_read_body b dispatch ev s (shared S) = (Inr s', d') \<Longrightarrow>
    server_step b dispatch S
      (S\<lparr>connections := (connections S)[i := (evs @ [Read ev], s')], shared := d'\<rparr>)"
| response_written: "i < length (connections S) \<Longrightarrow> connections S ! i = (evs, s) \<Longrightarrow>
    pending s = Writing \<Longrightarrow>
    server_step b dispatch S
      (S\<lparr>connections := (connections S)[i := (evs @ [Write ev], handle_write ev s)]\<rparr>)"

definition connection_ok :: "event list \<times> session \<Rightarrow> bool" where
  "connection_ok = (\<lambda>(evs, s). session_inv evs s \<and> (read_failed evs \<longrightarrow> pending s = Writing \<or> pending s = Finished))"

definition server_inv :: "'d server \<Rightarrow> bool" where
  "server_inv S \<longleftrightarrow> waiting S = new_session \<and> list_all connection_ok (connections S)"

lemma connection_ok_new: "connection_ok ([], new_session)"
  using session_run_inv [OF session_run.start] by (auto simp: connection_ok_def)

lemma connection_ok_header:
  assumes "connection_ok (evs, s)" and "pending s = Reading_header"
    and "handle_read_header b dispatch ev s d = (Inr s', d')"
  shows "connection_ok (evs @ [Read ev], s')"
proof -
  have nf: "\<not> read_failed evs" and inv: "session_inv evs s"
    using assms(1,2) by (auto simp: connection_ok_def)
  from session_inv_header [OF inv assms(2) nf assms(3)] assms(3) nf show ?thesis
    by (cases ev) (auto simp: connection_ok_def handle_read_header_def respond_to_request_server_error_def)
qed

lemma connection_ok_body:
  assumes "connection_ok (evs, s)" and "pending s = Reading_body"
    and "handle_read_body b dispatch ev s d = (Inr s', d')"
  shows "connection_ok (evs @ [Read ev], s')"
proof -
  have nf: "\<not> read_failed evs" and inv: "session_inv evs s"
    using assms(1,2) by (auto simp: connection_ok_def)
  from session_inv_body [OF inv assms(2,3)] assms(3) nf show ?thesis
    by (cases ev) (auto simp: connection_ok_def handle_read_body_def respond_to_request_server_error_def)
qed

lemma connection_ok_write:
  "connection_ok (evs, s) \<Longrightarrow> pending s = Writing \<Longrightarrow> connection_ok (evs @ [Write ev], handle_write ev s)"
  by (auto simp: connection_ok_def session_inv_write)

lemma list_all_update: "list_all P xs \<Longrightarrow> P x \<Longrightarrow> list_all P (xs[i := x])"
  using set_update_subset_insert [of xs i x] by (auto simp: list_all_iff)

lemma server_inv_step:
  assumes "server_step b dispatch S S'" and "server_inv S"
  shows "server_inv S'"
proof -
  have at: "connection_ok (evs, s)" if "i < length (connections S)" "connections S ! i = (evs, s)" for i evs s
    using assms(2) that by (metis list_all_length server_inv_def)
  from assms(1) show ?thesis
  proof cases
    case (accepted err)
    with assms(2) show ?thesis
      by (simp add: server_inv_def handle_accept_def start_accept_def connection_ok_new)
  next
    case (header_read i evs s ev s' d')
    with assms(2) connection_ok_header [OF at [OF header_read(2,3)] header_read(4,5)] show ?thesis
      by (simp add: server_inv_def list_all_update)
  next
    case (body_read i evs s ev s' d')
    with assms(2) connection_ok_body [OF at [OF body_read(2,3)] body_read(4,5)] show ?thesis
      by (simp add: server_inv_def list_all_update)
  next
    case (response_written i evs s ev)
    with assms(2) connection_ok_write [OF at [OF response_written(2,3)] response_written(4)] show ?thesis
      by (simp add: server_inv_def list_all_update)
  qed
qed

lemma server_inv_reachable:
  assumes "(server_step b dispatch)\<^sup>*\<^sup>* (new_server d) S"
  shows "server_inv S"
  using assms
proof (induction rule: rtranclp_induct)
  case base
  show ?case by (simp add: server_inv_def new_server_def start_accept_def)
next
  case (step S S')
  then show ?case using server_inv_step by blast
qed

section \<open>What start-up computes\<close>

lemma the_port_range: "the_port vs \<noteq> - 1 \<Longrightarrow> 0 \<le> the_port vs \<and> the_port vs \<le> 65535"
  by (auto simp: the_port_def port_in_range_def split: list.splits if_splits)

lemma endpoint_short: "0 \<le> p \<Longrightarrow> p \<le> 65535 \<Longrightarrow> endpoint_port (short_port p) = nat p"
  by (simp add: endpoint_port_def short_port_def unat_eq_nat_uint uint_word_of_int)

lemma parse_file_wf: "parse_file os w f = (ok, cfg) \<Longrightarrow> wf_stmts (statements cfg)"
  using parse_wf by (auto simp: parse_file_def wf_config_def split: option.splits)
    (metis snd_conv)

abbreviation argument_table :: "config \<Rightarrow> arguments" where
  "argument_table cfg \<equiv> std_map.put_all (argument_entries (location_blocks (statements cfg))) []"

abbreviation factory_table :: "config \<Rightarrow> factories" where
  "factory_table cfg \<equiv> std_map.put_all (factory_entries (location_blocks (statements cfg))) []"

lemma map_put_nonempty: "map_put k v m \<noteq> []"
  by (cases "(k, v, m)" rule: map_put.cases) auto

lemma put_all_nonempty: "m \<noteq> [] \<Longrightarrow> std_map.put_all es m \<noteq> []"
  by (induction es arbitrary: m) (auto simp: map_put_nonempty)

lemma argument_table_empty: "argument_table cfg = [] \<longleftrightarrow> location_blocks (statements cfg) = []"
  by (cases "location_blocks (statements cfg)")
    (auto simp: argument_entries_def put_all_nonempty map_put_nonempty)

lemma tables_agree: "map_get (factory_table cfg) loc \<noteq> None \<Longrightarrow> map_get (argument_table cfg) loc \<noteq> None"
  by (simp only: std_map.stored_iff) (use factory_entries_keys in blast)

lemma start_up_file:
  assumes "parse_file os w f = (ok, cfg)"
  shows "start_up os w bind [f] =
    (let p = the_port (port_values (statements cfg)) in
     if \<not> ok then Exit 1 else if p = - 1 then Exit (- 1)
     else if location_blocks (statements cfg) = [] then Exit 1
     else if bind (nat p) then Serve (nat p) (argument_table cfg) (factory_table cfg)
     else Exit 0)"
proof (cases "ok \<and> the_port (port_values (statements cfg)) \<noteq> - 1")
  case True
  then have p: "endpoint_port (short_port (the_port (port_values (statements cfg)))) =
      nat (the_port (port_values (statements cfg)))"
    using the_port_range by (intro endpoint_short) blast+
  have wf: "wf_stmts (statements cfg)" using assms by (rule parse_file_wf)
  show ?thesis
    using True assms
    by (simp add: start_up_def Let_def get_port_num_spec(1) get_arguments_blocks [OF wf]
        get_factories_blocks [OF wf] argument_table_empty p)
next
  case False
  then show ?thesis by (cases ok) (auto simp: start_up_def assms get_port_num_spec(1))
qed

section \<open>Properties\<close>

text \<open>
  C28: on any configuration file the program exits with 1 if the file does not open or parse, with
  -1 if it does not fix one port between 0 and 65535, with 1 if it has no location, and with 0 if
  the port cannot be bound; otherwise it listens on exactly that port (the detour through
  \<open>short\<close> loses nothing) with the tables the location blocks define, in which every location that
  has a factory has arguments.
\<close>
theorem start_up_result:
  assumes "parse_file os w f = (ok, cfg)"
  shows "start_up os w bind [f] =
      (let p = the_port (port_values (statements cfg)) in
       if \<not> ok then Exit 1 else if p = - 1 then Exit (- 1)
       else if location_blocks (statements cfg) = [] then Exit 1
       else if bind (nat p) then Serve (nat p) (argument_table cfg) (factory_table cfg)
       else Exit 0) \<and>
    (\<forall>loc. map_get (argument_table cfg) loc = None \<longrightarrow> map_get (factory_table cfg) loc = None)"
  using start_up_file [OF assms] tables_agree by metis

definition config_disk :: disk where
  "config_disk = [(''/conf'', Some (to_string sample_config 0)), (''/'', None)]"

theorem start_up_result_witness:
  "start_up sample_os config_disk (\<lambda>p. 0 < p) [''/conf''] =
     Serve 8080 (argument_table sample_config) (factory_table sample_config)"
proof -
  have "os_read sample_os config_disk ''/conf'' = Some (to_string sample_config 0)"
    by (simp add: sample_os_def config_disk_def)
  then have "parse_file sample_os config_disk ''/conf'' = (True, sample_config)"
    by (simp add: parse_file_def parse_print [OF sample_config_wf])
  moreover have "the_port (port_values (statements sample_config)) = 8080"
    "location_blocks (statements sample_config) \<noteq> []"
    by code_simp+
  ultimately show ?thesis using start_up_result [of sample_os config_disk "''/conf''"] by simp
qed

text \<open>
  C25: in every interleaving of connections, reads, writes and failures, each connection keeps the
  session invariant (nothing received lost or reordered, one response), a failed read is
  followed by a response, and the server is always waiting for a further connection with a
  session nothing has happened to.
\<close>
theorem serving_invariant:
  assumes "(server_step b dispatch)\<^sup>*\<^sup>* (new_server d) S"
  shows "waiting S = new_session \<and>
    list_all (\<lambda>(evs, s). session_inv evs s \<and>
      (read_failed evs \<longrightarrow> pending s = Writing \<or> pending s = Finished)) (connections S)"
  using server_inv_reachable [OF assms] by (simp add: server_inv_def connection_ok_def)

theorem serving_invariant_witness:
  "let s = new_session\<lparr>request_string := ''GET /''\<rparr> in
   session_inv [Read (Got ''GET /'')] s"
proof -
  let ?s = "new_session\<lparr>request_string := ''GET /''\<rparr>"
  let ?S1 = "handle_accept False (handle_accept True (new_server (0::nat)))"
  let ?S2 = "?S1\<lparr>connections := (connections ?S1)[0 := ([] @ [Read (Got ''GET /'')], ?s)], shared := 0\<rparr>"
  have "server_step sample_beast count_dispatch (new_server 0) (handle_accept True (new_server 0))"
    by (rule server_step.accepted)
  moreover have "server_step sample_beast count_dispatch (handle_accept True (new_server 0)) ?S1"
    by (rule server_step.accepted)
  moreover have "server_step sample_beast count_dispatch ?S1 ?S2"
    by (rule server_step.header_read [of _ _ _ new_session])
      (simp_all add: handle_accept_def new_server_def start_accept_def new_session_def handle_read_header_def)
  ultimately have "(server_step sample_beast count_dispatch)\<^sup>*\<^sup>* (new_server 0) ?S2"
    by (meson converse_rtranclp_into_rtranclp rtranclp.rtrancl_refl)
  from serving_invariant [OF this] show ?thesis
    by (simp add: handle_accept_def new_server_def Let_def)
qed

end
