(* ===== verification/Process.thy ===== *)
theory Process
  imports Server Harmless
begin

text \<open>
  The process that serves: \<open>TCPSocket\<close> (\<open>src/tcp_socket.cc\<close>), the completion handlers on such a
  socket, and the threads of \<open>server\<close> (\<open>src/server.cc\<close>), none of which catches an exception: one
  that leaves a completion handler leaves \<open>io_service::run\<close>, then the thread, and ends the process.
  What Boost.Asio answers for a socket and which completion comes next is decided outside; a run is
  the list of these decisions.
\<close>

section \<open>The socket\<close>

record tcp_socket =
  \<comment> \<open>what Boost.Asio says of \<open>socket_\<close>: the address of the peer, \<open>None\<close> for an error, and
    whether \<open>shutdown\<close> succeeds\<close>
  remote_endpoint :: "string option"
  can_shut_down :: bool

definition get_remote_ip :: "tcp_socket \<Rightarrow> string result" where
  \<comment> \<open>\<open>remote_endpoint\<close> without an \<open>error_code\<close> throws \<open>system_error\<close>\<close>
  "get_remote_ip sock = (case remote_endpoint sock of None \<Rightarrow> Inl System_error | Some ip \<Rightarrow> Inr ip)"

definition socket_shutdown :: "tcp_socket \<Rightarrow> unit result" where
  "socket_shutdown sock = (if can_shut_down sock then Inr () else Inl System_error)"

datatype operation = Reading nat | Sending string

definition max_length :: nat where
  \<comment> \<open>the size of a session's buffer\<close>
  "max_length = 1024"

definition async_read_some :: "nat \<Rightarrow> operation" where
  "async_read_some n = Reading n"

definition async_writing :: "string \<Rightarrow> operation" where
  "async_writing str = Sending str"

fun completes :: "operation \<Rightarrow> event \<Rightarrow> bool" where
  \<comment> \<open>how an operation can end: a read brings at most what the buffer holds\<close>
  "completes (Reading n) (Read (Got c)) = (length c \<le> n)"
| "completes (Reading n) (Read Read_failed) = True"
| "completes (Sending str) (Write w) = True"
| "completes _ _ = False"

definition asked :: "session \<Rightarrow> operation option" where
  \<comment> \<open>the operation a session waits for\<close>
  "asked s =
     (case pending s of
        Reading_header \<Rightarrow> Some (async_read_some max_length)
      | Reading_body \<Rightarrow> Some (async_read_some max_length)
      | Writing \<Rightarrow> Some (async_writing (response_string s))
      | Finished \<Rightarrow> None)"

section \<open>Completion handlers on a socket\<close>

definition accepted_header :: "string \<Rightarrow> session \<Rightarrow> request_parser option" where
  \<comment> \<open>the read completes the header, and it parses: the handler goes on to log the request\<close>
  "accepted_header str s =
     (let received = request_string s @ str in
      case find_str crlf2 received of
        None \<Rightarrow> None
      | Some header_pos \<Rightarrow>
          (case parse_header (take (header_pos + 4) received) (parser s) of
             (ok, p) \<Rightarrow> if ok then Some p else None))"

definition socket_read_header ::
    "beast \<Rightarrow> 'd dispatcher \<Rightarrow> tcp_socket \<Rightarrow> read_event \<Rightarrow> session \<Rightarrow> 'd \<Rightarrow> session result \<times> 'd" where
  \<comment> \<open>\<open>log_http_request\<close> asks the socket for the address before anything is done with the request\<close>
  "socket_read_header b dispatch sock ev s d =
     (case ev of
        Read_failed \<Rightarrow> handle_read_header b dispatch ev s d
      | Got str \<Rightarrow>
          (case accepted_header str s of
             None \<Rightarrow> handle_read_header b dispatch ev s d
           | Some p \<Rightarrow>
               (case get_remote_ip sock of
                  Inl e \<Rightarrow> (Inl e, d)
                | Inr ip \<Rightarrow> handle_read_header b dispatch ev s d)))"

definition socket_handle_write :: "tcp_socket \<Rightarrow> write_event \<Rightarrow> session \<Rightarrow> session result" where
  "socket_handle_write sock ev s =
     (case ev of
        Written \<Rightarrow> and_then (socket_shutdown sock) (\<lambda>_. Inr (handle_write ev s))
      | Write_failed \<Rightarrow> Inr (handle_write ev s))"

definition completion_handler ::
    "beast \<Rightarrow> 'd dispatcher \<Rightarrow> tcp_socket \<Rightarrow> event \<Rightarrow> session \<Rightarrow> 'd \<Rightarrow> session result \<times> 'd" where
  "completion_handler b dispatch sock ev s d =
     (case (pending s, ev) of
        (Reading_header, Read r) \<Rightarrow> socket_read_header b dispatch sock r s d
      | (Reading_body, Read r) \<Rightarrow> handle_read_body b dispatch r s d
      | (Writing, Write w) \<Rightarrow> (socket_handle_write sock w s, d)
      | _ \<Rightarrow> (Inr s, d))"

section \<open>The process\<close>

datatype ending = Escaped exn | Exited int

datatype 'd process = Running "'d server" | Ended ending 'd

datatype occurrence =
    Connection bool
  | Completion nat tcp_socket event
  | Interrupt

definition sigint :: int where
  "sigint = 2"

definition interrupt_handler :: "int \<Rightarrow> 'd \<Rightarrow> 'd process" where
  \<comment> \<open>after the log record\<close>
  "interrupt_handler signum d = Ended (Exited signum) d"

definition completed ::
    "beast \<Rightarrow> 'd dispatcher \<Rightarrow> nat \<Rightarrow> tcp_socket \<Rightarrow> event \<Rightarrow> 'd server \<Rightarrow> 'd process" where
  "completed b dispatch i sock ev S =
     (let (evs, s) = connections S ! i in
      case completion_handler b dispatch sock ev s (shared S) of
        (Inl e, d) \<Rightarrow> Ended (Escaped e) d
      | (Inr s', d) \<Rightarrow> Running (S\<lparr>connections := (connections S)[i := (evs @ [ev], s')], shared := d\<rparr>))"

definition possible :: "nat \<Rightarrow> event \<Rightarrow> 'd server \<Rightarrow> bool" where
  "possible i ev S \<longleftrightarrow> i < length (connections S) \<and>
     (case asked (snd (connections S ! i)) of None \<Rightarrow> False | Some op \<Rightarrow> completes op ev)"

fun process_next :: "beast \<Rightarrow> 'd dispatcher \<Rightarrow> 'd process \<Rightarrow> occurrence \<Rightarrow> 'd process" where
  \<comment> \<open>a completion nobody waits for does not occur\<close>
  "process_next b dispatch (Running S) (Connection err) = Running (handle_accept err S)"
| "process_next b dispatch (Running S) (Completion i sock ev) =
     (if possible i ev S then completed b dispatch i sock ev S else Running S)"
| "process_next b dispatch (Running S) Interrupt = interrupt_handler sigint (shared S)"
| "process_next b dispatch (Ended r d) x = Ended r d"

definition process_run :: "beast \<Rightarrow> 'd dispatcher \<Rightarrow> 'd process \<Rightarrow> occurrence list \<Rightarrow> 'd process" where
  "process_run b dispatch = foldl (process_next b dispatch)"

definition launch :: "nat \<Rightarrow> start \<Rightarrow> 'd \<Rightarrow> 'd process" where
  \<comment> \<open>the constructor of \<open>server\<close> starts \<open>hardware_concurrency()\<close> threads, which may be 0, and
    returns when they have ended\<close>
  "launch threads st d =
     (case st of
        Serve port arguments factories \<Rightarrow> if threads = 0 then Ended (Exited 0) d else Running (new_server d)
      | Exit n \<Rightarrow> Ended (Exited n) d
      | Meaningless \<Rightarrow> Ended (Escaped Undefined_behaviour) d)"

lemma process_run_simps [simp]:
  "process_run b dispatch P [] = P"
  "process_run b dispatch P (x # xs) = process_run b dispatch (process_next b dispatch P x) xs"
  "process_run b dispatch P (xs @ ys) = process_run b dispatch (process_run b dispatch P xs) ys"
  by (simp_all add: process_run_def)

lemma process_run_ended [simp]: "process_run b dispatch (Ended r d) xs = Ended r d"
  by (induction xs) simp_all

section \<open>A running process is a server\<close>

lemma possibleD:
  assumes "possible i ev S" and "connections S ! i = (evs, s)"
  shows "i < length (connections S)"
    and "(pending s = Reading_header \<or> pending s = Reading_body) \<and> (\<exists>r. ev = Read r) \<or>
      pending s = Writing \<and> (\<exists>w. ev = Write w)"
  using assms
  by (auto simp: possible_def asked_def async_read_some_def async_writing_def elim: completes.elims
      split: pending.splits option.splits)

lemma socket_read_header_Inr:
  "socket_read_header b dispatch sock ev s d = (Inr s', d') \<Longrightarrow> handle_read_header b dispatch ev s d = (Inr s', d')"
  by (auto simp: socket_read_header_def split: read_event.splits option.splits sum.splits)

lemma socket_handle_write_Inr: "socket_handle_write sock w s = Inr s' \<Longrightarrow> s' = handle_write w s"
  by (auto simp: socket_handle_write_def and_then_Inr_iff split: write_event.splits)

lemma completion_step:
  assumes "possible i ev S" and "connections S ! i = (evs, s)"
    and "completion_handler b dispatch sock ev s (shared S) = (Inr s', d)"
  shows "server_step b dispatch S
    (S\<lparr>connections := (connections S)[i := (evs @ [ev], s')], shared := d\<rparr>)"
proof -
  note i = possibleD(1) [OF assms(1,2)]
  from possibleD(2) [OF assms(1,2)] consider r where "pending s = Reading_header" "ev = Read r"
    | r where "pending s = Reading_body" "ev = Read r" | w where "pending s = Writing" "ev = Write w"
    by blast
  then show ?thesis
  proof cases
    case (1 r)
    with assms(3) have "handle_read_header b dispatch r s (shared S) = (Inr s', d)"
      by (intro socket_read_header_Inr) (simp add: completion_handler_def)
    with i assms(2) 1 show ?thesis by (auto intro: server_step.header_read)
  next
    case (2 r)
    with assms(3) have "handle_read_body b dispatch r s (shared S) = (Inr s', d)"
      by (simp add: completion_handler_def)
    with i assms(2) 2 show ?thesis by (auto intro: server_step.body_read)
  next
    case (3 w)
    with assms(3) have "s' = handle_write w s" "d = shared S"
      by (auto simp: completion_handler_def dest: socket_handle_write_Inr)
    with i assms(2) 3 server_step.response_written [OF i assms(2), of b dispatch w] show ?thesis by simp
  qed
qed

lemma process_next_server:
  assumes "process_next b dispatch (Running S) x = Running S'"
  shows "S' = S \<or> server_step b dispatch S S'"
proof (cases x)
  case (Connection err)
  with assms show ?thesis by (auto intro: server_step.accepted)
next
  case (Completion i sock ev)
  obtain evs s where c: "connections S ! i = (evs, s)" by (cases "connections S ! i")
  show ?thesis
  proof (cases "possible i ev S")
    case True
    with assms c Completion completion_step [OF True c] show ?thesis
      by (auto simp: completed_def split: prod.splits sum.splits)
  qed (use assms Completion in simp)
next
  case Interrupt
  with assms show ?thesis by (simp add: interrupt_handler_def)
qed

lemma process_run_server:
  assumes "process_run b dispatch (Running S0) xs = Running S"
  shows "(server_step b dispatch)\<^sup>*\<^sup>* S0 S"
  using assms
proof (induction xs arbitrary: S rule: rev_induct)
  case (snoc x xs)
  from snoc.prems obtain S1 where S1: "process_run b dispatch (Running S0) xs = Running S1"
    by (cases "process_run b dispatch (Running S0) xs") simp_all
  with snoc.prems have "process_next b dispatch (Running S1) x = Running S" by simp
  from process_next_server [OF this] snoc.IH [OF S1] show ?case by (auto intro: rtranclp.rtrancl_into_rtrancl)
qed simp

text \<open>A session that reads has the parser and the response it was made with.\<close>

definition untouched :: "session \<Rightarrow> bool" where
  "untouched s \<longleftrightarrow>
     (pending s = Reading_header \<longrightarrow> parser s = new_request_parser \<and> content_length s = 0) \<and>
     (pending s = Reading_header \<or> pending s = Reading_body \<longrightarrow> response_of s = fresh_response)"

lemma untouched_written: "pending s = Writing \<Longrightarrow> untouched s"
  by (simp add: untouched_def)

lemma untouched_header:
  assumes "untouched s" and "pending s = Reading_header" and "handle_read_header b dispatch ev s d = (Inr s', d')"
  shows "untouched s'"
proof (cases "pending s' = Writing")
  case False
  with assms show ?thesis
    by (auto simp: untouched_def handle_read_header_def Let_def respond_to_request_client_error_def
        respond_to_request_server_error_def
        dest: respond_writes split: read_event.splits option.splits prod.splits if_splits sum.splits)
qed (rule untouched_written)

lemma untouched_body:
  assumes "untouched s" and "pending s = Reading_body" and "handle_read_body b dispatch ev s d = (Inr s', d')"
  shows "untouched s'"
proof (cases "pending s' = Writing")
  case False
  with assms show ?thesis
    by (auto simp: untouched_def handle_read_body_def Let_def respond_to_request_server_error_def
        dest: respond_writes split: read_event.splits if_splits)
qed (rule untouched_written)

definition connections_untouched :: "'d server \<Rightarrow> bool" where
  "connections_untouched S \<longleftrightarrow> list_all (untouched \<circ> snd) (connections S)"

lemma untouched_at:
  "connections_untouched S \<Longrightarrow> i < length (connections S) \<Longrightarrow> connections S ! i = (evs, s) \<Longrightarrow> untouched s"
  by (auto simp: connections_untouched_def list_all_length)

lemma untouched_step:
  assumes "server_step b dispatch S S'" and "connections_untouched S" and "waiting S = new_session"
  shows "connections_untouched S'"
  using assms(1)
proof cases
  case (accepted err)
  with assms(2,3) show ?thesis
    by (simp add: connections_untouched_def handle_accept_def untouched_def new_session_def)
next
  case (header_read i evs s ev s' d')
  from untouched_header [OF untouched_at [OF assms(2) header_read(2,3)] header_read(4,5)] header_read(1) assms(2)
  show ?thesis by (simp add: connections_untouched_def list_all_update)
next
  case (body_read i evs s ev s' d')
  from untouched_body [OF untouched_at [OF assms(2) body_read(2,3)] body_read(4,5)] body_read(1) assms(2)
  show ?thesis by (simp add: connections_untouched_def list_all_update)
next
  case (response_written i evs s ev)
  with assms(2) show ?thesis by (simp add: connections_untouched_def list_all_update untouched_def)
qed

lemma process_run_invariant:
  assumes "process_run b dispatch (Running (new_server d)) xs = Running S"
  shows "server_inv S" and "connections_untouched S"
proof -
  have steps: "(server_step b dispatch)\<^sup>*\<^sup>* (new_server d) S" using assms by (rule process_run_server)
  then show "server_inv S" by (rule server_inv_reachable)
  have "connections_untouched S \<and> server_inv S"
    using steps
  proof (induction rule: rtranclp_induct)
    case base
    show ?case by (simp add: connections_untouched_def server_inv_def new_server_def start_accept_def)
  next
    case (step S S')
    then have "waiting S = new_session" by (simp add: server_inv_def)
    with step untouched_step [OF step.hyps(2)] server_inv_step [OF step.hyps(2)] show ?case by blast
  qed
  then show "connections_untouched S" ..
qed

section \<open>What ends a process\<close>

definition delivered_request :: "request \<Rightarrow> request" where
  \<comment> \<open>the request object as \<open>session::respond_to_request\<close> passes it on\<close>
  "delivered_request req =
     (if req_body req \<noteq> [] then req\<lparr>req_body := req_body req @ crlf2\<rparr> else req)"

definition bad_length :: "request_parser \<Rightarrow> exn \<Rightarrow> bool" where
  \<comment> \<open>a POST or PUT with a content length that is no number, or none that fits an \<open>int\<close>\<close>
  "bad_length p e \<longleftrightarrow> expects_body p \<and>
     get_header ''Content-Length'' p \<noteq> [] \<and> stoi (get_header ''Content-Length'' p) = Inl e"

definition parsed_start :: "string \<Rightarrow> request_parser \<Rightarrow> bool" where
  \<comment> \<open>the text begins with a header block, which parses\<close>
  "parsed_start t p \<longleftrightarrow> (\<exists>h rest. t = h @ rest \<and> header_block h \<and> parse_header h new_request_parser = (True, p))"

definition peer_gone :: "tcp_socket \<Rightarrow> event \<Rightarrow> bool" where
  "peer_gone sock ev \<longleftrightarrow>
     (case ev of Read r \<Rightarrow> remote_endpoint sock = None | Write w \<Rightarrow> w = Written \<and> \<not> can_shut_down sock)"

inductive fatal ::
    "beast \<Rightarrow> 'd dispatcher \<Rightarrow> tcp_socket \<Rightarrow> event list \<Rightarrow> event \<Rightarrow> 'd \<Rightarrow> exn \<Rightarrow> 'd \<Rightarrow> bool"
  for b dispatch sock evs ev d where
  peer_gone: "peer_gone sock ev \<Longrightarrow> fatal b dispatch sock evs ev d System_error d"
| bad_length: "parsed_start (received (evs @ [ev])) p \<Longrightarrow> bad_length p e \<Longrightarrow> fatal b dispatch sock evs ev d e d"
| request_fails: "read_request b (received (evs @ [ev])) = Some req \<Longrightarrow>
    dispatch (delivered_request req) fresh_response d = (Inl e, d') \<Longrightarrow> fatal b dispatch sock evs ev d e d'"

lemma respond_escapes:
  "respond_to_request b dispatch s d = (Inl e, d') \<Longrightarrow>
   \<exists>req. read_request b (request_header s @ request_body s) = Some req \<and>
     dispatch (delivered_request req) (response_of s) d = (Inl e, d')"
  by (auto simp: respond_to_request_def delivered_request_def Let_def
      split: option.splits prod.splits sum.splits if_splits)

lemma header_fatal:
  assumes "session_inv evs s" and "untouched s" and "pending s = Reading_header"
    and "socket_read_header b dispatch sock r s d = (Inl e, d')"
  shows "fatal b dispatch sock evs (Read r) d e d'"
proof (cases r)
  case Read_failed
  with assms(4) show ?thesis by (simp add: socket_read_header_def handle_read_header_def)
next
  case (Got c)
  let ?w = "request_string s @ c"
  from assms(1,3) have pre: "request_string s = received evs" "find_str crlf2 (request_string s) = None"
    by (auto simp: session_inv_def)
  from assms(2,3) have new: "parser s = new_request_parser" "content_length s = 0" "response_of s = fresh_response"
    by (simp_all add: untouched_def)
  have rec: "received (evs @ [Read r]) = ?w" by (simp add: Got pre(1))
  show ?thesis
  proof (cases "find_str crlf2 ?w")
    case None
    with assms(4) Got show ?thesis
      by (simp add: socket_read_header_def accepted_header_def handle_read_header_def Let_def)
  next
    case (Some pos)
    let ?h = "take (pos + 4) ?w"
    let ?body = "take (length c) (drop (pos + 4) ?w)"
    note split = header_split [OF Some pre(2)]
    obtain ok p where p: "parse_header ?h new_request_parser = (ok, p)"
      by (cases "parse_header ?h new_request_parser")
    show ?thesis
    proof (cases ok)
      case False
      with assms(4) Got Some p new(1) show ?thesis
        by (simp add: socket_read_header_def accepted_header_def handle_read_header_def Let_def)
    next
      case True
      have start: "parsed_start (received (evs @ [Read r])) p"
        unfolding parsed_start_def rec using split p True by metis
      have answer: "fatal b dispatch sock evs (Read r) d e d'"
        if run: "respond_to_request b dispatch t d = (Inl e, d')" and t: "request_header t = ?h" "request_body t = ?body"
          "response_of t = fresh_response" for t
      proof -
        from respond_escapes [OF run] obtain req where
          "read_request b (received (evs @ [Read r])) = Some req"
          "dispatch (delivered_request req) fresh_response d = (Inl e, d')"
          unfolding t rec split(2) by blast
        then show ?thesis by (rule fatal.request_fails)
      qed
      show ?thesis
      proof (cases "remote_endpoint sock")
        case None
        with assms(4) Got Some p new(1) True have "e = System_error" "d' = d"
          by (simp_all add: socket_read_header_def accepted_header_def get_remote_ip_def Let_def)
        with None show ?thesis by (simp add: fatal.peer_gone peer_gone_def)
      next
        case (Some ip)
        with assms(4) Got \<open>find_str crlf2 ?w = Some pos\<close> p new(1) True
        have h: "handle_read_header b dispatch (Got c) s d = (Inl e, d')"
          by (simp add: socket_read_header_def accepted_header_def get_remote_ip_def Let_def)
        show ?thesis
        proof (cases "expects_body p \<and> (\<exists>e. read_content_length p 0 = Inl e)")
          case True
          with h \<open>find_str crlf2 ?w = Some pos\<close> p new(1,2) \<open>ok\<close> have "read_content_length p 0 = Inl e" "d' = d"
            by (auto simp: handle_read_header_def Let_def)
          with True have "bad_length p e"
            by (auto simp: bad_length_def read_content_length_def Let_def split: if_splits)
          from fatal.bad_length [OF start this] \<open>d' = d\<close> show ?thesis by simp
        next
          case False
          with h \<open>find_str crlf2 ?w = Some pos\<close> p new \<open>ok\<close> show ?thesis
            by (cases "read_content_length p 0")
              (auto simp: handle_read_header_def Let_def intro!: answer split: if_splits)
        qed
      qed
    qed
  qed
qed

lemma body_fatal:
  assumes "session_inv evs s" and "untouched s" and "pending s = Reading_body"
    and "handle_read_body b dispatch r s d = (Inl e, d')"
  shows "fatal b dispatch sock evs (Read r) d e d'"
proof (cases r)
  case Read_failed
  with assms(4) show ?thesis by (simp add: handle_read_body_def)
next
  case (Got c)
  from assms(1,3) have "request_header s @ request_body s = received evs" by (auto simp: session_inv_def)
  then have rec: "received (evs @ [Read r]) = request_header s @ request_body s @ c" by (simp add: Got)
  from assms(2,3) have new: "response_of s = fresh_response" by (simp add: untouched_def)
  from assms(4) Got have "respond_to_request b dispatch (s\<lparr>request_body := request_body s @ c\<rparr>) d = (Inl e, d')"
    by (auto simp: handle_read_body_def Let_def split: if_splits)
  from respond_escapes [OF this] obtain req where
    "read_request b (received (evs @ [Read r])) = Some req"
    "dispatch (delivered_request req) fresh_response d = (Inl e, d')"
    by (auto simp: new rec simp del: received_append)
  then show ?thesis by (rule fatal.request_fails)
qed

lemma completion_fatal:
  assumes "server_inv S" and "connections_untouched S" and "possible i ev S"
    and "completed b dispatch i sock ev S = Ended (Escaped e) d'" and "connections S ! i = (evs, s)"
  shows "fatal b dispatch sock evs ev (shared S) e d'"
proof -
  note i = possibleD(1) [OF assms(3,5)]
  from assms(1) i assms(5) have inv: "session_inv evs s"
    by (auto simp: server_inv_def list_all_length connection_ok_def)
  note new = untouched_at [OF assms(2) i assms(5)]
  from assms(4,5) have h: "completion_handler b dispatch sock ev s (shared S) = (Inl e, d')"
    by (auto simp: completed_def split: prod.splits sum.splits)
  from possibleD(2) [OF assms(3,5)] consider r where "pending s = Reading_header" "ev = Read r"
    | r where "pending s = Reading_body" "ev = Read r" | w where "pending s = Writing" "ev = Write w"
    by blast
  then show ?thesis
  proof cases
    case (1 r)
    with h header_fatal [OF inv new 1(1)] show ?thesis by (simp add: completion_handler_def)
  next
    case (2 r)
    with h body_fatal [OF inv new 2(1)] show ?thesis by (simp add: completion_handler_def)
  next
    case (3 w)
    with h have "w = Written" "\<not> can_shut_down sock" "e = System_error" "d' = shared S"
      by (auto simp: completion_handler_def socket_handle_write_def socket_shutdown_def
          split: write_event.splits if_splits)
    with 3 show ?thesis by (auto intro: fatal.peer_gone simp: peer_gone_def)
  qed
qed

lemma process_ended:
  assumes "process_run b dispatch (Running S0) xs = Ended r d'"
  shows "\<exists>before x after S. xs = before @ x # after \<and>
    process_run b dispatch (Running S0) before = Running S \<and> process_next b dispatch (Running S) x = Ended r d'"
  using assms
proof (induction xs rule: rev_induct)
  case (snoc x xs)
  show ?case
  proof (cases "process_run b dispatch (Running S0) xs")
    case (Running S)
    with snoc.prems show ?thesis by (intro exI [of _ xs] exI [of _ x] exI [of _ "[]"] exI [of _ S]) simp
  next
    case (Ended r1 d1)
    with snoc.prems have "process_run b dispatch (Running S0) xs = Ended r d'" by simp
    from snoc.IH [OF this] show ?thesis by fastforce
  qed
qed simp

lemma escaped_next:
  assumes "process_next b dispatch (Running S) x = Ended (Escaped e) d'"
  obtains i sock ev where "x = Completion i sock ev" "possible i ev S"
    "completed b dispatch i sock ev S = Ended (Escaped e) d'"
  using assms by (cases x) (auto simp: interrupt_handler_def split: if_splits)

lemma run_fatal:
  assumes "process_run b dispatch (Running (new_server d)) xs = Ended (Escaped e) d'"
  shows "\<exists>before i sock ev after S evs s. xs = before @ Completion i sock ev # after \<and>
    process_run b dispatch (Running (new_server d)) before = Running S \<and>
    i < length (connections S) \<and> connections S ! i = (evs, s) \<and>
    fatal b dispatch sock evs ev (shared S) e d'"
proof -
  from process_ended [OF assms] obtain before x after S where
    x: "xs = before @ x # after" "process_run b dispatch (Running (new_server d)) before = Running S"
    and final: "process_next b dispatch (Running S) x = Ended (Escaped e) d'" by blast
  from final obtain i sock ev where c: "x = Completion i sock ev" "possible i ev S"
    "completed b dispatch i sock ev S = Ended (Escaped e) d'" by (rule escaped_next)
  obtain evs s where at: "connections S ! i = (evs, s)" by (cases "connections S ! i")
  note inv = process_run_invariant [OF x(2)]
  from completion_fatal [OF inv c(2,3) at] x c(1) at possibleD(1) [OF c(2) at] show ?thesis by blast
qed

section \<open>Dispatchers that always answer\<close>

locale steady =
  fixes valid :: bool and dispatch :: "'d dispatcher"
  assumes answered: "valid \<Longrightarrow> \<exists>res d'. dispatch req fresh_response d = (Inr res, d')"
begin

text \<open>What is left to end the process is a peer that is gone and a content length that is no number.\<close>

lemma fatal_cases:
  assumes "valid" and "fatal b dispatch sock evs ev d e d'"
  shows "e = System_error \<and> peer_gone sock ev \<or> (\<exists>p. parsed_start (received (evs @ [ev])) p \<and> bad_length p e)"
  using assms(2)
proof cases
  case (request_fails req)
  with answered [OF assms(1), of "delivered_request req" d] show ?thesis by auto
qed auto

lemma run_ends:
  assumes "valid" and "process_run b dispatch (Running (new_server d)) xs = Ended (Escaped e) d'"
  shows "\<exists>before i sock ev after S. xs = before @ Completion i sock ev # after \<and>
    process_run b dispatch (Running (new_server d)) before = Running S \<and>
    (e = System_error \<and> peer_gone sock ev \<or>
     (\<exists>p. parsed_start (received (fst (connections S ! i) @ [ev])) p \<and> bad_length p e))"
  using run_fatal [OF assms(2)] fatal_cases [OF assms(1)] by fastforce

end

definition simple_handler :: "factory_kind \<Rightarrow> config \<Rightarrow> bool" where
  \<comment> \<open>a service page, or files below a directory with a dot in its path\<close>
  "simple_handler kind cfg \<longleftrightarrow>
     (case kind of
        CrudHandlerFactory \<Rightarrow> False
      | MemeHandlerFactory \<Rightarrow> False
      | StaticHandlerFactory \<Rightarrow>
          (case configured_root cfg of None \<Rightarrow> False | Some dir \<Rightarrow> CHR ''.'' \<in> set (remove_trailing_slashes dir))
      | _ \<Rightarrow> True)"

definition simple_site :: "factories \<Rightarrow> arguments \<Rightarrow> bool" where
  "simple_site factories arguments \<longleftrightarrow>
     list_all (\<lambda>(l, kind). plain_name l \<and>
       (case map_get arguments l of None \<Rightarrow> False | Some cfg \<Rightarrow> simple_handler kind cfg)) factories"

lemma simple_static:
  assumes "configured_root cfg = Some dir" and "prefix location url" and "CHR ''.'' \<in> set (remove_trailing_slashes dir)"
  shows "static_harmless os w location url cfg"
proof -
  from configured_rootD [OF assms(1)] obtain ch ss where "statements cfg = Stmt [''root'', dir] ch # ss" by blast
  with assms(2) have "static_create location url cfg = Some (remove_trailing_slashes dir @ drop (length location) url)"
    by (auto simp: static_create_def prefix_def)
  with assms(3) show ?thesis by (simp add: static_harmless_def)
qed

lemma simple_harmless:
  assumes "simple_handler kind cfg" and "prefix location (req_target req)"
  shows "handler_harmless os P ch kind location cfg W req" and "needs_disk_laws kind os"
  using assms
  by (auto simp: simple_handler_def handler_harmless_def needs_disk_laws_def
      intro: simple_static split: factory_kind.splits option.splits)

lemma simple_site_answers:
  assumes "simple_site factories arguments"
  shows "\<exists>res W'. dispatch_request b os P ch factories arguments req fresh_response W = (Inr res, W')"
proof (rule dispatch_returns)
  have entry: "plain_name l \<and> (\<exists>cfg. map_get arguments l = Some cfg \<and> simple_handler kind cfg)"
    if "(l, kind) \<in> set factories" for l kind
    using assms that by (fastforce simp: simple_site_def list_all_iff split: option.splits)
  show "needs_disk_laws kind os" if "kind \<in> snd ` set factories" for kind
    using that entry by (fastforce simp: needs_disk_laws_def simple_handler_def)
  show "harmless os P ch factories arguments W req"
    unfolding harmless_def
  proof (intro conjI allI impI ballI)
    show "plain_name l" if "l \<in> fst ` set factories" for l using that entry by fastforce
  next
    fix location kind
    assume l: "longest_location (fst ` set factories) (req_target req) location" and k: "map_get factories location = Some kind"
    from k have "(location, kind) \<in> set factories" by (simp add: map_get_def map_of_SomeD)
    from entry [OF this] obtain cfg where "map_get arguments location = Some cfg" "simple_handler kind cfg" by blast
    with l simple_harmless(1) show "\<exists>cfg. map_get arguments location = Some cfg \<and> handler_harmless os P ch kind location cfg W req"
      unfolding longest_location_def by blast
  qed
qed

interpretation site: steady "simple_site factories arguments" "dispatch_request b os P ch factories arguments"
  by unfold_locales (rule simple_site_answers)

section \<open>Properties\<close>

text \<open>
  C6: whenever an exception ends the process, after whatever connections, reads and writes, one of
  three things has happened to one connection: the peer was gone when the request was to be logged or
  the connection shut down; the bytes received begin with a header whose content length is no
  number that fits; or the request that Boost.Beast reads from exactly the bytes received was given
  to the dispatcher and made it throw. Nothing else does, in any interleaving.
\<close>
theorem process_ends_for_a_cause:
  assumes "process_run b dispatch (Running (new_server d)) xs = Ended (Escaped e) d'"
  shows "\<exists>before i sock ev after S evs s. xs = before @ Completion i sock ev # after \<and>
    process_run b dispatch (Running (new_server d)) before = Running S \<and>
    i < length (connections S) \<and> connections S ! i = (evs, s) \<and>
    fatal b dispatch sock evs ev (shared S) e d'"
  using assms by (rule run_fatal)

definition live_socket :: tcp_socket where
  "live_socket = \<lparr>remote_endpoint = Some ''10.0.0.1'', can_shut_down = True\<rparr>"

definition bad_client :: "occurrence list" where
  "bad_client = [Connection False, Completion 0 live_socket (Read (Got (sample_header '' abc'')))]"

lemma bad_client_length: "bad_length (sample_parser '' abc'') Invalid_argument"
proof -
  have "stoi ('' abc'' @ [creturn]) = Inl Invalid_argument" by code_simp
  then show ?thesis by (simp add: bad_length_def sample_parser_facts)
qed

lemma client_ends:
  assumes "waiting S = new_session" and "header_block h" and "length h \<le> max_length"
    and "parse_header h new_request_parser = (True, p)"
    and "remote_endpoint sock = None \<or> (\<exists>e. bad_length p e)"
  shows "\<exists>e. process_run b dispatch (Running S) [Connection False, Completion (length (connections S)) sock (Read (Got h))] =
      Ended (Escaped e) (shared S) \<and> (remote_endpoint sock = None \<or> bad_length p e)"
proof -
  have f: "find_str crlf2 h = Some (length h - 4)" "length h - 4 + 4 = length h"
    using assms(2) by (simp_all add: header_block_def)
  have n: "pending new_session = Reading_header" "request_string new_session = []" "parser new_session = new_request_parser"
    "content_length new_session = 0"
    by (simp_all add: new_session_def)
  have p: "possible (length (connections S)) (Read (Got h)) (handle_accept False S)"
    using assms(1,3) n by (simp add: possible_def handle_accept_def asked_def async_read_some_def)
  have a: "accepted_header h new_session = Some p"
    using f n assms(4) by (simp add: accepted_header_def)
  show ?thesis
  proof (cases "remote_endpoint sock")
    case None
    with p a n assms(1) show ?thesis
      by (simp add: completed_def handle_accept_def completion_handler_def socket_read_header_def get_remote_ip_def)
  next
    case (Some ip)
    with assms(5) obtain e where e: "bad_length p e" by auto
    then have "expects_body p" "read_content_length p 0 = Inl e"
      by (simp_all add: bad_length_def read_content_length_def)
    with f n assms(4) have "handle_read_header b dispatch (Got h) new_session (shared S) = (Inl e, shared S)"
      by (simp add: handle_read_header_def Let_def)
    with p a n e Some assms(1) show ?thesis
      by (simp add: completed_def handle_accept_def completion_handler_def socket_read_header_def get_remote_ip_def)
  qed
qed

lemma bad_client_ends:
  assumes "waiting S = new_session" and "connections S = []"
  shows "process_run b dispatch (Running S) bad_client = Ended (Escaped Invalid_argument) (shared S)"
proof -
  have p: "parse_header (sample_header '' abc'') new_request_parser = (True, sample_parser '' abc'')"
    by (rule sample_header_parse) simp
  have "length (sample_header '' abc'') \<le> max_length" by code_simp
  with client_ends [OF assms(1) sample_header_block(3) _ p, of live_socket b dispatch] bad_client_length assms(2)
  show ?thesis by (auto simp: bad_client_def bad_length_def live_socket_def)
qed

theorem process_ends_for_a_cause_witness:
  "\<exists>before i sock ev after S evs s. bad_client = before @ Completion i sock ev # after \<and>
    process_run sample_beast count_dispatch (Running (new_server 0)) before = Running S \<and>
    i < length (connections S) \<and> connections S ! i = (evs, s) \<and>
    fatal sample_beast count_dispatch sock evs ev (shared S) Invalid_argument 0"
proof -
  have "process_run sample_beast count_dispatch (Running (new_server 0)) bad_client = Ended (Escaped Invalid_argument) 0"
    using bad_client_ends [of "new_server 0" sample_beast count_dispatch]
    by (simp add: bad_client_def new_server_def start_accept_def)
  then show ?thesis by (rule process_ends_for_a_cause)
qed

text \<open>
  C39: one client ends the server for everybody, at any moment of any run and whatever the dispatcher
  does: it is enough to connect and to send a header that announces a content length that is no
  number, or to be gone when the header (of any request that parses) has been read.
\<close>
theorem one_client_ends_the_server:
  assumes "process_run b dispatch (Running (new_server d)) xs = Running S"
    and "header_block h" and "length h \<le> max_length" and "parse_header h new_request_parser = (True, p)"
    and "remote_endpoint sock = None \<or> (\<exists>e. bad_length p e)"
  shows "\<exists>e. process_run b dispatch (Running (new_server d))
      (xs @ [Connection False, Completion (length (connections S)) sock (Read (Got h))]) = Ended (Escaped e) (shared S)"
proof -
  have "waiting S = new_session" using process_run_invariant(1) [OF assms(1)] by (simp add: server_inv_def)
  from client_ends [OF this assms(2-5), of b dispatch] show ?thesis
    unfolding process_run_simps(3) assms(1) by blast
qed

theorem one_client_ends_the_server_witness:
  "\<exists>e. process_run sample_beast count_dispatch (Running (new_server 0))
     ([Connection False, Connection True] @
      [Connection False, Completion 1 live_socket (Read (Got (sample_header '' abc'')))]) = Ended (Escaped e) 0"
proof -
  let ?S = "(new_server (0::nat))\<lparr>connections := [([], new_session)]\<rparr>"
  have run: "process_run sample_beast count_dispatch (Running (new_server 0)) [Connection False, Connection True] = Running ?S"
    by (simp add: handle_accept_def new_server_def start_accept_def)
  have p: "parse_header (sample_header '' abc'') new_request_parser = (True, sample_parser '' abc'')"
    by (rule sample_header_parse) simp
  have "length (sample_header '' abc'') \<le> max_length" by code_simp
  moreover have "remote_endpoint live_socket = None \<or> (\<exists>e. bad_length (sample_parser '' abc'') e)"
    using bad_client_length by blast
  ultimately have ends: "\<exists>e. process_run sample_beast count_dispatch (Running (new_server 0)) ([Connection False, Connection True] @
      [Connection False, Completion (length (connections ?S)) live_socket (Read (Got (sample_header '' abc'')))]) =
    Ended (Escaped e) (shared ?S)"
    by (intro one_client_ends_the_server [OF run sample_header_block(3) _ p])
  have "length (connections ?S) = 1" "shared ?S = 0" by (simp_all add: new_server_def)
  with ends show ?thesis by (simp only:)
qed

text \<open>
  C26: a site of service pages and of files below a directory with a dot in its path (\<open>./data\<close>,
  \<open>../www\<close>) keeps running whatever its clients request: an exception ends the process only if a
  peer is gone or a content length is no number.
\<close>
theorem simple_site_keeps_running:
  assumes "simple_site factories arguments"
    and "process_run b (dispatch_request b os P ch factories arguments) (Running (new_server W)) xs = Ended (Escaped e) W'"
  shows "\<exists>before i sock ev after S. xs = before @ Completion i sock ev # after \<and>
    process_run b (dispatch_request b os P ch factories arguments) (Running (new_server W)) before = Running S \<and>
    (e = System_error \<and> peer_gone sock ev \<or>
     (\<exists>p. parsed_start (received (fst (connections S ! i) @ [ev])) p \<and> bad_length p e))"
  using assms by (rule site.run_ends)

definition pages :: factories where
  "pages = [(''/files'', StaticHandlerFactory), (''/health'', HealthHandlerFactory)]"

definition page_arguments :: arguments where
  "page_arguments = [(''/files'', Config [Stmt [''root'', ''./data/''] None]), (''/health'', Config [])]"

theorem simple_site_keeps_running_witness:
  "\<exists>before i sock ev after S. bad_client = before @ Completion i sock ev # after \<and>
     process_run sample_beast (dispatch_request sample_beast sample_os sample_platform no_chance pages page_arguments)
       (Running (new_server shop)) before = Running S \<and>
     (\<exists>p. parsed_start (received (fst (connections S ! i) @ [ev])) p \<and> bad_length p Invalid_argument)"
proof -
  have "simple_site pages page_arguments"
    by code_simp
  moreover have "process_run sample_beast (dispatch_request sample_beast sample_os sample_platform no_chance pages page_arguments)
      (Running (new_server shop)) bad_client = Ended (Escaped Invalid_argument) shop"
    using bad_client_ends [of "new_server shop"] by (simp add: new_server_def start_accept_def del: process_next.simps)
  ultimately show ?thesis using simple_site_keeps_running by fastforce
qed

end
