(* ===== verification/Serial_Service.thy ===== *)
theory Serial_Service
  imports Process
begin

text \<open>
  What the clients of a running server see, whatever the interleaving of their connections: the
  responses of one sequence of requests, each connection contributing at most one, executed by the
  dispatcher one after the other.
\<close>

section \<open>Executions in sequence\<close>

text \<open>An entry is the number of a connection, the request dispatched for it and the response.\<close>

type_synonym entry = "nat \<times> request \<times> response"

fun serial :: "'d dispatcher \<Rightarrow> 'd \<Rightarrow> entry list \<Rightarrow> 'd \<Rightarrow> bool" where
  "serial dispatch d [] d' \<longleftrightarrow> d' = d"
| "serial dispatch d ((i, req, res) # es) d' \<longleftrightarrow>
     (case dispatch req fresh_response d of
        (Inl e, d1) \<Rightarrow> False
      | (Inr r, d1) \<Rightarrow> r = res \<and> serial dispatch d1 es d')"

lemma serial_snoc:
  "serial dispatch d es d1 \<Longrightarrow> dispatch req fresh_response d1 = (Inr res, d') \<Longrightarrow>
   serial dispatch d (es @ [(i, req, res)]) d'"
  by (induction dispatch d es d1 rule: serial.induct) (auto split: prod.splits sum.splits)

section \<open>Answers\<close>

definition answered_with :: "beast \<Rightarrow> session \<Rightarrow> request \<Rightarrow> response \<Rightarrow> bool" where
  \<comment> \<open>the session has the response to this request, which Beast reads from what it received\<close>
  "answered_with b s req res \<longleftrightarrow>
     (pending s = Writing \<or> pending s = Finished) \<and> response_of s = res \<and> response_string s = response_text b res \<and>
     (case read_request b (request_header s @ request_body s) of None \<Rightarrow> False | Some q \<Rightarrow> req = delivered_request q)"

definition no_request :: "session \<Rightarrow> bool" where
  \<comment> \<open>the session still reads, or has refused what it received by itself\<close>
  "no_request s \<longleftrightarrow>
     pending s = Reading_header \<or> pending s = Reading_body \<or>
     response_of s = error_page Bad_request text_400 fresh_response \<or>
     response_of s = error_page Internal_server_error text_500 fresh_response"

definition step_outcome :: "beast \<Rightarrow> 'd dispatcher \<Rightarrow> session \<Rightarrow> 'd \<Rightarrow> 'd \<Rightarrow> bool" where
  "step_outcome b dispatch s d d' \<longleftrightarrow>
     d' = d \<and> no_request s \<or>
     (\<exists>req res. dispatch req fresh_response d = (Inr res, d') \<and> answered_with b s req res)"

lemma respond_outcome:
  assumes "response_of s = fresh_response" and "respond_to_request b dispatch s d = (Inr s', d')"
  shows "step_outcome b dispatch s' d d'"
proof (cases "read_request b (request_header s @ request_body s)")
  case None
  with assms show ?thesis by (auto simp: respond_to_request_def step_outcome_def no_request_def)
next
  case (Some q)
  with assms obtain res where d: "dispatch (delivered_request q) fresh_response d = (Inr res, d')"
    and s': "s' = write_response b res s"
    by (auto simp: respond_to_request_def delivered_request_def Let_def split: prod.splits sum.splits if_splits)
  from Some have "answered_with b s' (delivered_request q) res" by (simp add: answered_with_def s')
  with d show ?thesis unfolding step_outcome_def by blast
qed

lemma refusal_outcome:
  "response_of s = fresh_response \<Longrightarrow> step_outcome b dispatch (respond_to_request_client_error b s) d d"
  "response_of s = fresh_response \<Longrightarrow> step_outcome b dispatch (respond_to_request_server_error b s) d d"
  by (simp_all add: step_outcome_def no_request_def respond_to_request_client_error_def
      respond_to_request_server_error_def)

lemma reading_outcome: "step_outcome b dispatch (s\<lparr>pending := Reading_body\<rparr>) d d"
  "step_outcome b dispatch (s\<lparr>pending := Reading_header\<rparr>) d d"
  by (simp_all add: step_outcome_def no_request_def)

lemma header_outcome:
  assumes "untouched s" and "pending s = Reading_header" and "handle_read_header b dispatch ev s d = (Inr s', d')"
  shows "step_outcome b dispatch s' d d'"
proof -
  from assms(1,2) have fresh: "response_of s = fresh_response" by (simp add: untouched_def)
  show ?thesis
  proof (cases ev)
    case Read_failed
    with assms(3) refusal_outcome(2) [OF fresh] show ?thesis by (auto simp: handle_read_header_def)
  next
    case (Got c)
    with assms(3) fresh show ?thesis
      by (auto simp: handle_read_header_def Let_def split: option.splits prod.splits if_splits sum.splits
          intro: reading_outcome refusal_outcome(1) respond_outcome [rotated])
  qed
qed

lemma body_outcome:
  assumes "untouched s" and "pending s = Reading_body" and "handle_read_body b dispatch ev s d = (Inr s', d')"
  shows "step_outcome b dispatch s' d d'"
proof -
  from assms(1,2) have fresh: "response_of s = fresh_response" by (simp add: untouched_def)
  with assms(3) show ?thesis
    by (cases ev) (auto simp: handle_read_body_def Let_def split: if_splits
        intro: reading_outcome refusal_outcome(2) respond_outcome [rotated])
qed

section \<open>The invariant\<close>

definition schedule_ok :: "beast \<Rightarrow> 'd dispatcher \<Rightarrow> 'd \<Rightarrow> 'd server \<Rightarrow> entry list \<Rightarrow> bool" where
  "schedule_ok b dispatch d0 S sched \<longleftrightarrow>
     distinct (map fst sched) \<and> serial dispatch d0 sched (shared S) \<and>
     (\<forall>i req res. (i, req, res) \<in> set sched \<longrightarrow>
        i < length (connections S) \<and> answered_with b (snd (connections S ! i)) req res) \<and>
     (\<forall>i < length (connections S). i \<notin> fst ` set sched \<longrightarrow> no_request (snd (connections S ! i)))"

lemma schedule_reading:
  assumes "schedule_ok b dispatch d0 S sched" and "pending (snd (connections S ! i)) \<in> {Reading_header, Reading_body}"
  shows "i \<notin> fst ` set sched"
proof
  assume "i \<in> fst ` set sched"
  then obtain req res where "(i, req, res) \<in> set sched" by auto
  with assms(1) have "answered_with b (snd (connections S ! i)) req res" by (simp add: schedule_ok_def)
  with assms(2) show False by (auto simp: answered_with_def)
qed

lemma schedule_read:
  assumes ok: "schedule_ok b dispatch d0 S sched" and i: "i < length (connections S)" and "connections S ! i = (evs, s)"
    and "pending s \<in> {Reading_header, Reading_body}" and "step_outcome b dispatch s' (shared S) d'"
  shows "\<exists>sched'. schedule_ok b dispatch d0 (S\<lparr>connections := (connections S)[i := (evs', s')], shared := d'\<rparr>) sched'"
proof -
  let ?S = "S\<lparr>connections := (connections S)[i := (evs', s')], shared := d'\<rparr>"
  have new: "i \<notin> fst ` set sched" using schedule_reading [OF ok, of i] assms(3,4) by simp
  have old: "j < length (connections ?S) \<and> answered_with b (snd (connections ?S ! j)) req res"
    if "(j, req, res) \<in> set sched" for j req res
  proof -
    have "j \<noteq> i" using that new by force
    with that ok show ?thesis by (simp add: schedule_ok_def)
  qed
  have rest: "no_request (snd (connections ?S ! j))"
    if "j < length (connections ?S)" "j \<notin> fst ` set sched" "j \<noteq> i" for j
    using that ok by (simp add: schedule_ok_def)
  from assms(5) consider "d' = shared S" "no_request s'"
    | req res where "dispatch req fresh_response (shared S) = (Inr res, d')" "answered_with b s' req res"
    unfolding step_outcome_def by blast
  then show ?thesis
  proof cases
    case 1
    have "no_request (snd (connections ?S ! j))" if "j < length (connections ?S)" "j \<notin> fst ` set sched" for j
      using rest [OF that] 1(2) i by (cases "j = i") simp_all
    with ok old 1(1) have "schedule_ok b dispatch d0 ?S sched" unfolding schedule_ok_def by simp
    then show ?thesis ..
  next
    case (2 req res)
    have "serial dispatch d0 (sched @ [(i, req, res)]) (shared ?S)"
      using serial_snoc [of dispatch d0 sched "shared S" req res d' i] 2(1) ok by (simp add: schedule_ok_def)
    moreover have "j < length (connections ?S) \<and> answered_with b (snd (connections ?S ! j)) req' res'"
      if "(j, req', res') \<in> set (sched @ [(i, req, res)])" for j req' res'
      using that old 2(2) i by auto
    moreover have "no_request (snd (connections ?S ! j))"
      if "j < length (connections ?S)" "j \<notin> fst ` set (sched @ [(i, req, res)])" for j
      using that by (intro rest) simp_all
    moreover have "distinct (map fst (sched @ [(i, req, res)]))" using ok new by (simp add: schedule_ok_def)
    ultimately have "schedule_ok b dispatch d0 ?S (sched @ [(i, req, res)])" unfolding schedule_ok_def by blast
    then show ?thesis ..
  qed
qed

lemma answered_written: "answered_with b s req res \<Longrightarrow> answered_with b (handle_write w s) req res"
  by (simp add: answered_with_def handle_write_def)

lemma refused_written: "no_request s \<Longrightarrow> pending s = Writing \<Longrightarrow> no_request (handle_write w s)"
  by (auto simp: no_request_def handle_write_def)

lemma schedule_written:
  assumes ok: "schedule_ok b dispatch d0 S sched" and i: "i < length (connections S)" "connections S ! i = (evs, s)"
    and "pending s = Writing"
  shows "schedule_ok b dispatch d0 (S\<lparr>connections := (connections S)[i := (evs', handle_write w s)]\<rparr>) sched"
proof -
  let ?S = "S\<lparr>connections := (connections S)[i := (evs', handle_write w s)]\<rparr>"
  have at: "snd (connections ?S ! j) = (if j = i then handle_write w (snd (connections S ! j)) else snd (connections S ! j))" for j
    using i by simp
  have "answered_with b (snd (connections ?S ! j)) req res" if "(j, req, res) \<in> set sched" for j req res
  proof -
    from that ok have "answered_with b (snd (connections S ! j)) req res" by (simp add: schedule_ok_def)
    then show ?thesis unfolding at using answered_written by (cases "j = i") simp_all
  qed
  moreover have "no_request (snd (connections ?S ! j))" if "j < length (connections ?S)" "j \<notin> fst ` set sched" for j
  proof -
    from that ok have "no_request (snd (connections S ! j))" by (simp add: schedule_ok_def)
    then show ?thesis unfolding at using refused_written assms(4) i(2) by (cases "j = i") simp_all
  qed
  moreover have "distinct (map fst sched)" "serial dispatch d0 sched (shared ?S)"
    "\<And>j req res. (j, req, res) \<in> set sched \<Longrightarrow> j < length (connections ?S)"
    using ok by (simp_all add: schedule_ok_def)
  ultimately show ?thesis unfolding schedule_ok_def by blast
qed

lemma schedule_accepted:
  assumes ok: "schedule_ok b dispatch d0 S sched" and "waiting S = new_session"
  shows "schedule_ok b dispatch d0 (handle_accept err S) sched"
proof (cases err)
  case True
  with ok show ?thesis by (simp add: schedule_ok_def handle_accept_def)
next
  case False
  have n: "no_request new_session" by (simp add: no_request_def new_session_def)
  have c: "connections (handle_accept err S) = connections S @ [([], new_session)]"
    and d: "shared (handle_accept err S) = shared S"
    using False assms(2) by (simp_all add: handle_accept_def)
  have "answered_with b (snd (connections (handle_accept err S) ! j)) req res \<and> j < length (connections (handle_accept err S))"
    if "(j, req, res) \<in> set sched" for j req res
  proof -
    from that ok have "answered_with b (snd (connections S ! j)) req res" "j < length (connections S)"
      by (simp_all add: schedule_ok_def)
    then show ?thesis by (simp add: c nth_append)
  qed
  moreover have "no_request (snd (connections (handle_accept err S) ! j))"
    if "j < length (connections (handle_accept err S))" "j \<notin> fst ` set sched" for j
  proof (cases "j < length (connections S)")
    case True
    with that ok have "no_request (snd (connections S ! j))" by (simp add: schedule_ok_def)
    with True show ?thesis by (simp add: c nth_append)
  next
    case False
    with that n show ?thesis by (simp add: c nth_append)
  qed
  moreover have "distinct (map fst sched)" "serial dispatch d0 sched (shared (handle_accept err S))"
    using ok by (simp_all add: schedule_ok_def d)
  ultimately show ?thesis unfolding schedule_ok_def by blast
qed

lemma schedule_step:
  assumes "server_step b dispatch S S'" and "schedule_ok b dispatch d0 S sched"
    and "server_inv S" and "connections_untouched S"
  shows "\<exists>sched'. schedule_ok b dispatch d0 S' sched'"
  using assms(1)
proof cases
  case (accepted err)
  with schedule_accepted [OF assms(2)] assms(3) show ?thesis by (auto simp: server_inv_def)
next
  case (header_read i evs s ev s' d')
  from header_outcome [OF untouched_at [OF assms(4) header_read(2,3)] header_read(4,5)]
  show ?thesis unfolding header_read(1) using header_read(4)
    by (intro schedule_read [OF assms(2) header_read(2,3)]) simp_all
next
  case (body_read i evs s ev s' d')
  from body_outcome [OF untouched_at [OF assms(4) body_read(2,3)] body_read(4,5)]
  show ?thesis unfolding body_read(1) using body_read(4)
    by (intro schedule_read [OF assms(2) body_read(2,3)]) simp_all
next
  case (response_written i evs s ev)
  from schedule_written [OF assms(2) response_written(2-4)] response_written(1) show ?thesis by blast
qed

lemma schedule_reachable:
  assumes "(server_step b dispatch)\<^sup>*\<^sup>* (new_server d) S"
  shows "\<exists>sched. schedule_ok b dispatch d S sched"
proof -
  have "(\<exists>sched. schedule_ok b dispatch d S sched) \<and> server_inv S \<and> connections_untouched S"
    using assms
  proof (induction rule: rtranclp_induct)
    case base
    have "schedule_ok b dispatch d (new_server d) []" by (simp add: schedule_ok_def new_server_def)
    then show ?case by (auto simp: server_inv_def connections_untouched_def new_server_def start_accept_def)
  next
    case (step S S')
    then have "waiting S = new_session" by (simp add: server_inv_def)
    with step schedule_step [OF step.hyps(2)] server_inv_step [OF step.hyps(2)] untouched_step [OF step.hyps(2)]
    show ?case by blast
  qed
  then show ?thesis by blast
qed

section \<open>Property\<close>


definition two_clients :: "occurrence list" where
  \<comment> \<open>the second request is complete first\<close>
  "two_clients =
     [Connection False, Connection False, Completion 0 live_socket (Read (Got (sample_header '' 3''))),
      Completion 1 live_socket (Read (Got (sample_header '' 2'' @ ''xy''))),
      Completion 0 live_socket (Read (Got ''abc'')), Completion 1 live_socket (Write Written)]"


end
