(* ===== verification/Logger.thy ===== *)
theory Logger
  imports Request_Parser
begin

text \<open>
  The log (\<open>src/logger.cc\<close>): the severity and the message of every function of \<open>Logger\<close>, and the
  text the sinks write with the filter and the format of \<open>Logger::init\<close>. The sinks, their
  rotation and the flushing are Boost.Log's; the time stamp and the thread of a record are
  given with it.
\<close>

section \<open>Severities\<close>

datatype severity = Trace | Debug | Info | Warning | Error | Fatal

definition severity_rank :: "severity \<Rightarrow> nat" where
  \<comment> \<open>the order of \<open>boost::log::trivial::severity_level\<close>\<close>
  "severity_rank s = (case s of Trace \<Rightarrow> 0 | Debug \<Rightarrow> 1 | Info \<Rightarrow> 2 | Warning \<Rightarrow> 3 | Error \<Rightarrow> 4 | Fatal \<Rightarrow> 5)"

lemma severity_rank_eq: "severity_rank s = severity_rank t \<Longrightarrow> s = t"
  by (cases s; cases t) (simp_all add: severity_rank_def)

instantiation severity :: linorder
begin

definition less_eq_severity :: "severity \<Rightarrow> severity \<Rightarrow> bool" where
  "less_eq_severity s t \<longleftrightarrow> severity_rank s \<le> severity_rank t"

definition less_severity :: "severity \<Rightarrow> severity \<Rightarrow> bool" where
  "less_severity s t \<longleftrightarrow> severity_rank s < severity_rank t"

instance
  by intro_classes (auto simp: less_eq_severity_def less_severity_def dest: severity_rank_eq)

end

definition severity_name :: "severity \<Rightarrow> string" where
  "severity_name s =
     (case s of Trace \<Rightarrow> ''trace'' | Debug \<Rightarrow> ''debug'' | Info \<Rightarrow> ''info'' | Warning \<Rightarrow> ''warning''
      | Error \<Rightarrow> ''error'' | Fatal \<Rightarrow> ''fatal'')"

section \<open>Records\<close>

datatype log_call =
    Log_server_init
  | Log_server_start int
  | Log_server_stop
  | Log_debug string
  | Log_info string
  | Log_error string
  | Log_warning string
  | Log_fatal string
  | Log_http_request request_parser string
  | Log_response_data int string string

fun log_record :: "log_call \<Rightarrow> severity \<times> string" where
  "log_record Log_server_init = (Info, ''Server initialized.'')"
| "log_record (Log_server_start port) = (Info, ''Server started on port '' @ int_to_string port @ ''.'')"
| "log_record Log_server_stop = (Info, ''Server stopped (user interrupted).'')"
| "log_record (Log_debug message) = (Debug, message)"
| "log_record (Log_info message) = (Info, message)"
| "log_record (Log_error message) = (Error, message)"
| "log_record (Log_warning message) = (Warning, message)"
| "log_record (Log_fatal message) = (Fatal, message)"
| "log_record (Log_http_request p remote_ip) =
     (Info, rp_method p @ '' '' @ rp_url p @ '' '' @ rp_http_version p @ '' - '' @ remote_ip)"
| "log_record (Log_response_data res_code req_url handler_name) =
     (Info, ''[ResponseMetrics] '' @ ''response_code: '' @ int_to_string res_code @ '' '' @
        ''request_path: '' @ req_url @ '' '' @ ''matched_handler: '' @ handler_name)"

section \<open>The text of the log\<close>

record stamp =
  time_stamp :: string
  thread_id :: string

definition passes_filter :: "severity \<Rightarrow> bool" where
  "passes_filter s \<longleftrightarrow> Info \<le> s"

definition format_record :: "stamp \<Rightarrow> severity \<Rightarrow> string \<Rightarrow> string" where
  \<comment> \<open>\<open>log_format\<close>\<close>
  "format_record st s message =
     ''['' @ time_stamp st @ ''] - ['' @ thread_id st @ ''] - ['' @ severity_name s @ ''] - '' @ message @ [newline]"

definition log_line :: "stamp \<times> log_call \<Rightarrow> string" where
  "log_line = (\<lambda>(st, c). case log_record c of (s, message) \<Rightarrow>
     if passes_filter s then format_record st s message else [])"

definition log_text :: "(stamp \<times> log_call) list \<Rightarrow> string" where
  \<comment> \<open>what the file and the console hold after these calls\<close>
  "log_text entries = concat (map log_line entries)"

lemma log_text_simps [simp]:
  "log_text [] = []" "log_text (e # es) = log_line e @ log_text es" "log_text (es @ fs) = log_text es @ log_text fs"
  by (simp_all add: log_text_def)

lemma passes_filter_simps [simp]:
  "\<not> passes_filter Trace" "\<not> passes_filter Debug" "passes_filter Info" "passes_filter Warning"
  "passes_filter Error" "passes_filter Fatal"
  by (simp_all add: passes_filter_def less_eq_severity_def severity_rank_def)

lemma log_line_end: "log_line e = [] \<or> last (log_line e) = newline"
  by (auto simp: log_line_def format_record_def split: prod.split)

lemma log_text_end: "log_text es = [] \<or> last (log_text es) = newline"
proof (induction es)
  case (Cons e es)
  with log_line_end [of e] show ?case by (cases "log_text es = []") auto
qed simp

section \<open>Lines\<close>

definition has_line :: "string \<Rightarrow> string \<Rightarrow> bool" where
  \<comment> \<open>\<open>x\<close> is one of the lines of \<open>t\<close>\<close>
  "has_line t x \<longleftrightarrow> newline \<notin> set x \<and> (\<exists>a b. t = a @ x @ newline # b \<and> (a = [] \<or> last a = newline))"

lemma has_line_inside: "newline \<notin> set x \<Longrightarrow> has_line (a @ newline # x @ newline # b) x"
  unfolding has_line_def by (intro conjI exI [of _ "a @ [newline]"] exI [of _ b]) simp_all

lemma has_line_after: "has_line t x \<Longrightarrow> has_line (log_text es @ t) x"
proof -
  assume "has_line t x"
  then obtain a b where x: "newline \<notin> set x" "t = a @ x @ newline # b" "a = [] \<or> last a = newline"
    by (auto simp: has_line_def)
  have "log_text es @ a = [] \<or> last (log_text es @ a) = newline"
    using x(3) log_text_end [of es] by (cases "a = []") auto
  moreover have "log_text es @ t = (log_text es @ a) @ x @ newline # b" using x(2) by simp
  ultimately show ?thesis using x(1) unfolding has_line_def by blast
qed

lemma has_line_before: "has_line t x \<Longrightarrow> has_line (t @ u) x"
  unfolding has_line_def by (metis append.assoc append_Cons)

text \<open>The words of a request line hold no white space, whether the line is complete or not.\<close>

lemma extract_word_nonspace:
  "extract_word s = Some (w, r) \<Longrightarrow> is_space c \<Longrightarrow> c \<notin> set w"
  by (auto simp: extract_word_def Let_def split: if_splits dest: set_takeWhileD)

definition words_only :: "request_parser \<Rightarrow> bool" where
  "words_only p \<longleftrightarrow> newline \<notin> set (rp_method p) \<and> newline \<notin> set (rp_url p) \<and> newline \<notin> set (rp_http_version p)"

lemma words_only_request_line:
  "parse_request_line line p = (ok, p') \<Longrightarrow> words_only p \<Longrightarrow> words_only p'"
  by (auto simp: parse_request_line_def words_only_def is_space_def
      dest!: extract_word_nonspace [where c = newline] split: option.splits prod.splits)

lemma header_line_same:
  "parse_header_line line p = (ok, p') \<Longrightarrow> words_only p' = words_only p"
  by (auto simp: parse_header_line_def words_only_def split: option.splits)

lemma header_lines_same: "parse_header_lines s p = (ok, p') \<Longrightarrow> words_only p' = words_only p"
proof (induction s p rule: parse_header_lines.induct)
  case (1 s p)
  show ?case
  proof (cases "getline newline s")
    case None
    with "1.prems" show ?thesis by (simp add: parse_header_lines.simps [of s])
  next
    case (Some lr)
    obtain line rest where lr: "lr = (line, rest)" by (cases lr)
    obtain ok1 p1 where one: "parse_header_line line p = (ok1, p1)" by (cases "parse_header_line line p")
    have "words_only p' = words_only p1" if "line \<noteq> [creturn]" "ok1" "parse_header_lines rest p1 = (ok, p')"
      using "1.IH" [OF Some lr [symmetric] that(1) one [symmetric]] that(2,3) by simp
    with header_line_same [OF one] "1.prems" Some lr one show ?thesis
      by (auto simp: parse_header_lines.simps [of s] split: if_splits bool.splits)
  qed
qed

lemma parse_header_words: "parse_header h new_request_parser = (ok, p) \<Longrightarrow> words_only p"
proof -
  assume h: "parse_header h new_request_parser = (ok, p)"
  have new: "words_only new_request_parser" by (simp add: words_only_def new_request_parser_def)
  show "words_only p"
  proof (cases "getline newline h")
    case None
    with h new show ?thesis by (simp add: parse_header_def)
  next
    case (Some lr)
    obtain line rest where lr: "lr = (line, rest)" by (cases lr)
    obtain ok1 p1 where one: "parse_request_line line new_request_parser = (ok1, p1)"
      by (cases "parse_request_line line new_request_parser")
    from words_only_request_line [OF one new] h Some lr one header_lines_same [of rest p1 ok p]
    show ?thesis by (auto simp: parse_header_def split: bool.splits)
  qed
qed

section \<open>Property\<close>

text \<open>
  C35: the record of a request that reached the server takes one line of the log, whatever the client
  sent: the method, the target and the version the parser hands on are words without white space.
\<close>
theorem request_logged_on_one_line:
  assumes "parse_header h new_request_parser = (ok, p)"
    and "newline \<notin> set remote_ip" and "newline \<notin> set (time_stamp st)" and "newline \<notin> set (thread_id st)"
  shows "\<exists>l. log_text [(st, Log_http_request p remote_ip)] = l @ [newline] \<and> newline \<notin> set l \<and>
    suffix (rp_method p @ '' '' @ rp_url p @ '' '' @ rp_http_version p @ '' - '' @ remote_ip) l"
proof -
  let ?m = "rp_method p @ '' '' @ rp_url p @ '' '' @ rp_http_version p @ '' - '' @ remote_ip"
  let ?l = "(''['' @ time_stamp st @ ''] - ['' @ thread_id st @ ''] - ['' @ severity_name Info @ ''] - '') @ ?m"
  have "log_text [(st, Log_http_request p remote_ip)] = ?l @ [newline]"
    by (simp add: log_line_def format_record_def)
  moreover have "newline \<notin> set ?l"
    using parse_header_words [OF assms(1)] assms(2-4) by (simp add: words_only_def severity_name_def)
  moreover have "suffix ?m ?l" unfolding suffix_def by blast
  ultimately show ?thesis by blast
qed

definition sample_stamp :: stamp where
  "sample_stamp = \<lparr>time_stamp = ''2023-06-01 12:00:00'', thread_id = ''0x01''\<rparr>"

theorem request_logged_on_one_line_witness:
  "\<exists>p. parse_header (''GET /a HTTP/1.1'' @ crlf2) new_request_parser = (True, p) \<and>
     newline \<notin> set (butlast (log_text [(sample_stamp, Log_http_request p ''127.0.0.1'')]))"
proof -
  let ?run = "parse_header (''GET /a HTTP/1.1'' @ crlf2) new_request_parser"
  have "fst ?run = True" by code_simp
  from run_result [OF this] obtain p where p: "?run = (True, p)" by blast
  have "newline \<notin> set ''127.0.0.1''" "newline \<notin> set (time_stamp sample_stamp)" "newline \<notin> set (thread_id sample_stamp)"
    by (simp_all add: sample_stamp_def)
  from request_logged_on_one_line [OF p this] obtain l where
    "log_text [(sample_stamp, Log_http_request p ''127.0.0.1'')] = l @ [newline]" "newline \<notin> set l" by blast
  with p show ?thesis by (metis butlast_snoc)
qed

end
