(* ===== verification/Crud_Log.thy ===== *)
theory Crud_Log
  imports Logger Handlers
begin

text \<open>
  What the CRUD handler, its factory (\<open>src/handler/crud_handler.cc\<close>,
  \<open>src/factory/crud_handler_factory.cc\<close>) and the handlers without state (\<open>src/handler/\<close>) write
  into the log. Each function lists the calls its namesake makes, in their order, on the same
  branches; a \<^emph>\<open>metric\<close> is the record of \<open>log_response_data\<close>.
\<close>

section \<open>Metrics\<close>

fun is_metric :: "log_call \<Rightarrow> bool" where
  "is_metric (Log_response_data c u n) = True"
| "is_metric _ = False"

definition metrics :: "log_call list \<Rightarrow> log_call list" where
  "metrics calls = filter is_metric calls"

lemma metrics_simps [simp]:
  "metrics [] = []" "metrics (c # cs) = (if is_metric c then c # metrics cs else metrics cs)"
  "metrics (cs @ ds) = metrics cs @ metrics ds"
  by (simp_all add: metrics_def)

fun status_number :: "status \<Rightarrow> int" where
  "status_number Continue = 100"
| "status_number Status_ok = 200"
| "status_number Created = 201"
| "status_number Bad_request = 400"
| "status_number Not_found = 404"
| "status_number Internal_server_error = 500"

definition counted :: "status result \<Rightarrow> request \<Rightarrow> string \<Rightarrow> log_call list \<Rightarrow> bool" where
  \<comment> \<open>one metric, with the status returned; none if an exception leaves the handler\<close>
  "counted r req name calls \<longleftrightarrow>
     metrics calls = (case r of Inl e \<Rightarrow> [] | Inr st \<Rightarrow> [Log_response_data (status_number st) (req_target req) name])"

lemma counted_simps [simp]:
  "counted (Inl e) req name calls \<longleftrightarrow> metrics calls = []"
  "counted (Inr st) req name calls \<longleftrightarrow> metrics calls = [Log_response_data (status_number st) (req_target req) name]"
  by (simp_all add: counted_def)

section \<open>Handlers without state\<close>

definition echo_log :: "request \<Rightarrow> log_call list" where
  "echo_log req = [Log_response_data 200 (req_target req) ''EchoHandler'']"

definition health_log :: "request \<Rightarrow> log_call list" where
  "health_log req = [Log_response_data 200 (req_target req) ''HealthHandler'']"

definition file_not_found_log :: "request \<Rightarrow> log_call list" where
  "file_not_found_log req = [Log_response_data 404 (req_target req) ''FileNotFoundHandler'']"

definition block_log :: "request \<Rightarrow> log_call list" where
  "block_log req = [Log_response_data 100 (req_target req) ''BlockHandler'']"

definition static_log :: "'w os \<Rightarrow> string \<Rightarrow> request \<Rightarrow> 'w \<Rightarrow> log_call list" where
  "static_log os file_name req w =
     Log_info (''Opening '' @ file_name) #
     (case os_read os w file_name of
        None \<Rightarrow>
          [Log_warning (''File '' @ file_name @ '' not found''),
           Log_response_data 404 (req_target req) ''StaticHandler'']
      | Some content \<Rightarrow>
          (case get_mime_type file_name of
             Inl e \<Rightarrow> []
           | Inr type \<Rightarrow> [Log_response_data 200 (req_target req) ''StaticHandler'']))"

lemma simple_counted:
  "counted (fst (echo_handle_request b req res s)) req ''EchoHandler'' (echo_log req)"
  "counted (fst (health_handle_request b req res s)) req ''HealthHandler'' (health_log req)"
  "counted (fst (file_not_found_handle_request b req res s)) req ''FileNotFoundHandler'' (file_not_found_log req)"
  "counted (fst (block_handle_request req res s)) req ''BlockHandler'' (block_log req)"
  "counted (fst (static_handle_request b os f req res w)) req ''StaticHandler'' (static_log os f req w)"
  by (auto simp: echo_handle_request_def echo_log_def health_handle_request_def health_log_def
      file_not_found_handle_request_def file_not_found_log_def block_handle_request_def block_log_def
      static_handle_request_def static_log_def split: option.split sum.split)

section \<open>CRUD requests\<close>

definition refused_log :: "int \<Rightarrow> string \<Rightarrow> request \<Rightarrow> log_call list" where
  \<comment> \<open>the two calls on every error branch\<close>
  "refused_log code reason req = [Log_info reason, Log_response_data code (req_target req) ''CrudHandler'']"

definition crud_metric :: "int \<Rightarrow> request \<Rightarrow> log_call" where
  "crud_metric code req = Log_response_data code (req_target req) ''CrudHandler''"

definition add_id_log :: "string \<Rightarrow> int \<Rightarrow> entity_ids \<Rightarrow> log_call list" where
  "add_id_log dir i ids =
     (case ids dir of
        None \<Rightarrow> []
      | Some xs \<Rightarrow>
          if i \<in> set xs
          then [Log_info (''Failed to add Entity ID: '' @ int_to_string i @ '' to Entity directory: '' @ dir @
                  '' ID already exists.'')]
          else [])"

definition remove_id_log :: "string \<Rightarrow> int \<Rightarrow> entity_ids \<Rightarrow> log_call list" where
  "remove_id_log dir i ids =
     (case ids dir of
        None \<Rightarrow> [Log_info ''Entity does not exist.'']
      | Some xs \<Rightarrow>
          if i \<in> set xs
          then [Log_info (''Entity named '' @ dir @ ''with ID: '' @ int_to_string i @
                  '' successfully deleted from entity map.'')]
          else [Log_info (''Entity with ID: '' @ int_to_string i @ '' was not found.'')])"

definition creation_log :: "'w os \<Rightarrow> string \<Rightarrow> request \<Rightarrow> 'w crud \<Rightarrow> log_call list" where
  "creation_log os root req s =
     (let target = req_target req in
      case rfind_char slash target of
        None \<Rightarrow> refused_log 400 ''Invalid path format for Create Entity request.'' req
      | Some last_slash \<Rightarrow>
          if \<not> last_slash + 1 < length target
          then refused_log 400 ''Invalid path format for Create Entity request.'' req
          else
            let target_dir = drop (last_slash + 1) target;
                path = root @ ''/'' @ target_dir;
                w = crud_disk s;
                made = (if \<not> os_exists os w path \<or> \<not> os_is_directory os w path
                        then os_create_directory os w path else Some w)
            in Log_info (''Creating Entity in directory: '' @ path) #
               (case made of
                  None \<Rightarrow> refused_log 400 ''Creation of directory for Entity failed.'' req
                | Some w1 \<Rightarrow>
                    let i = get_available_id (crud_ids s) target_dir;
                        file = path @ ''/'' @ int_to_string i
                    in case os_write os w1 file (req_body req) of
                         Some w2 \<Rightarrow>
                           add_id_log target_dir i (crud_ids s) @
                           [Log_info (''Entity created successfully at: '' @ file @ '' with id: '' @ int_to_string i @ ''.''),
                            crud_metric 201 req]
                       | None \<Rightarrow>
                           refused_log 400 (''Failed to write to file during Entity creation at : '' @ file) req))"

definition deletion_log :: "'w os \<Rightarrow> string \<Rightarrow> request \<Rightarrow> 'w crud \<Rightarrow> log_call list" where
  "deletion_log os root req s =
     (let target = req_target req;
          bad = refused_log 400 ''Invalid path format for Delete Entity request.'' req
      in case rfind_char slash target of
           None \<Rightarrow> bad
         | Some last_slash \<Rightarrow>
             if \<not> last_slash + 1 < length target then bad
             else (case rfind_char_from slash target (pred_pos last_slash) of
                     None \<Rightarrow> bad
                   | Some entity_slash \<Rightarrow>
                       if \<not> entity_slash + 1 < length target then bad
                       else
                         let target_entity_and_id = drop (entity_slash + 1) target;
                             target_entity =
                               (if entity_slash < last_slash
                                then take (last_slash - entity_slash - 1) target_entity_and_id
                                else target_entity_and_id);
                             path = root @ ''/'' @ target_entity_and_id;
                             w = crud_disk s
                         in if os_exists os w path \<and> \<not> os_is_directory os w path then
                              (case stoi (drop (last_slash + 1) target) of
                                 Inl e \<Rightarrow>
                                   if e = Invalid_argument
                                   then refused_log 400 ''Expected a number for Entity ID, did not get a number.'' req
                                   else []
                               | Inr i \<Rightarrow>
                                   remove_id_log target_entity i (crud_ids s) @
                                   (if fst (remove_id_from_entity target_entity i (crud_ids s)) then
                                      (case os_remove os w path of
                                         None \<Rightarrow>
                                           refused_log 500 ''Could not delete file assosciated with deleted Entity'' req
                                       | Some w' \<Rightarrow>
                                           [Log_info ''Respective entity file was deleted as well.'', crud_metric 200 req])
                                    else refused_log 400 (''Failed to Delete Entity at : '' @ path) req))
                            else refused_log 400 (''Failed to find file during Entity Deletion at : '' @ path) req))"

definition list_log :: "request \<Rightarrow> 'w crud \<Rightarrow> log_call list" where
  "list_log req s =
     (let dir = after_last slash (req_target req) in
      case crud_ids s dir of
        None \<Rightarrow> refused_log 400 (''Entity dir: '' @ dir @ '' does not exist.'') req
      | Some xs \<Rightarrow> [Log_info (''Entity list retrieved successfully for dir: '' @ dir), crud_metric 200 req])"

definition retrieve_log :: "'w os \<Rightarrow> string \<Rightarrow> request \<Rightarrow> 'w crud \<Rightarrow> log_call list" where
  "retrieve_log os root req s =
     (let target = req_target req;
          entity_id = after_last slash target;
          dir = entity_dir target
      in Log_info (''Retrieving entity with id: '' @ entity_id) #
         (case stoi entity_id of
            Inl e \<Rightarrow> []
          | Inr i \<Rightarrow>
              if \<not> entity_exists (crud_ids s) dir i then
                refused_log 400 (''Entity with id: '' @ entity_id @ '' does not exist in dir '' @ dir) req
              else
                let full_path = root @ ''/'' @ dir @ ''/'' @ entity_id in
                Log_info (''Found entity with id: '' @ entity_id @ '' in directory: '' @ dir) #
                (case os_read os (crud_disk s) full_path of
                   None \<Rightarrow> refused_log 400 (''Failed to open entity file at: '' @ full_path) req
                 | Some contents \<Rightarrow>
                     [Log_info (''Successfully retrieved entity with id: '' @ entity_id @ '' from directory: '' @ dir),
                      crud_metric 200 req])))"

definition crud_get_log :: "'w os \<Rightarrow> string \<Rightarrow> request \<Rightarrow> 'w crud \<Rightarrow> log_call list" where
  "crud_get_log os root req s =
     (case ends_with_id (req_target req) of
        Inl e \<Rightarrow> []
      | Inr False \<Rightarrow> list_log req s
      | Inr True \<Rightarrow> retrieve_log os root req s)"

definition write_log :: "'w os \<Rightarrow> string \<Rightarrow> request \<Rightarrow> 'w \<Rightarrow> log_call list \<Rightarrow> log_call list" where
  "write_log os path req w written =
     (case os_write os w path (req_body req) of
        Some w' \<Rightarrow> written
      | None \<Rightarrow> refused_log 400 (''Failed to overwrite the file at : '' @ path) req)"

definition update_log :: "'w os \<Rightarrow> string \<Rightarrow> request \<Rightarrow> 'w crud \<Rightarrow> log_call list" where
  "update_log os root req s =
     (let target = req_target req;
          bad = refused_log 400 ''Invalid path format for Create Entity request.'' req
      in case rfind_char slash target of
           None \<Rightarrow> bad
         | Some last_slash \<Rightarrow>
             if \<not> last_slash + 1 < length target then bad
             else (case stoi (drop (last_slash + 1) target) of
                     Inl e \<Rightarrow>
                       if e = Invalid_argument
                       then refused_log 400 ''Expected a number for Entity ID, did not get a number.'' req
                       else []
                   | Inr target_id \<Rightarrow>
                       (case update_dir target target_id of
                          None \<Rightarrow> bad
                        | Some target_dir \<Rightarrow>
                            let dir = root @ ''/'' @ target_dir;
                                path = dir @ ''/'' @ int_to_string target_id;
                                w = crud_disk s;
                                updated = Log_info (''Entity updated successfully at: '' @ path)
                            in if \<not> os_exists os w path \<or> \<not> os_exists os w dir \<or>
                                  (os_exists os w dir \<and> \<not> os_is_directory os w dir) then
                                 Log_info ''Update a non-exist file, creating a new entity.'' #
                                 (case os_create_directory os w dir of
                                    None \<Rightarrow> refused_log 400 ''Creation of directory for Entity failed.'' req
                                  | Some w1 \<Rightarrow>
                                      write_log os path req w1
                                        (add_id_log target_dir target_id (crud_ids s) @ [updated, crud_metric 201 req]))
                               else write_log os path req w [updated, crud_metric 200 req])))"

definition crud_log :: "'w os \<Rightarrow> string \<Rightarrow> request \<Rightarrow> 'w crud \<Rightarrow> log_call list" where
  "crud_log os root req s =
     Log_info ''Starting CRUD handler'' #
     (case req_method req of
        Verb_post \<Rightarrow> creation_log os root req s
      | Verb_get \<Rightarrow> crud_get_log os root req s
      | Verb_put \<Rightarrow> update_log os root req s
      | Verb_delete \<Rightarrow> deletion_log os root req s
      | Verb_other m \<Rightarrow> [Log_debug ''Unknown HTTP method.'', crud_metric 400 req])"

text \<open>Every request a CRUD handler answers leaves one metric, with the status it is answered with.\<close>

named_theorems crud_log_defs

declare refused_log_def [crud_log_defs] crud_metric_def [crud_log_defs] bad_request_def [crud_log_defs]
  Let_def [crud_log_defs]

lemma id_logs_metrics [simp]:
  "metrics (add_id_log dir i ids) = []" "metrics (remove_id_log dir i ids) = []"
  by (simp_all add: add_id_log_def remove_id_log_def split: option.split)

lemma creation_counted:
  "counted (fst (handle_creation b os dir0 req res s)) req ''CrudHandler'' (creation_log os dir0 req s)"
  by (simp add: handle_creation_def creation_log_def crud_log_defs split: option.split)

lemma deletion_counted:
  "counted (fst (handle_deletion b os dir0 req res s)) req ''CrudHandler'' (deletion_log os dir0 req s)"
  by (simp add: handle_deletion_def deletion_log_def crud_log_defs case_prod_beta
      split: option.split sum.split bool.split)

lemma get_counted:
  "counted (fst (crud_handle_get b os dir0 req res s)) req ''CrudHandler'' (crud_get_log os dir0 req s)"
  by (simp add: crud_handle_get_def crud_get_log_def list_entities_def list_log_def retrieve_entity_def retrieve_log_def
      crud_log_defs split: option.split sum.split bool.split)

lemma update_counted:
  "counted (fst (handle_update b os dir0 req res s)) req ''CrudHandler'' (update_log os dir0 req s)"
  by (simp add: handle_update_def update_log_def write_entity_def write_log_def crud_log_defs
      split: option.split sum.split)

lemma crud_counted:
  "counted (fst (crud_handle_request b os dir0 req res s)) req ''CrudHandler'' (crud_log os dir0 req s)"
  using creation_counted get_counted update_counted deletion_counted
  by (cases "req_method req") (simp_all add: crud_handle_request_def crud_log_def crud_metric_def counted_def)

section \<open>The CRUD factory\<close>

fun scan_entities_log :: "(string \<times> string) list \<Rightarrow> log_call list" where
  "scan_entities_log [] = []"
| "scan_entities_log ((_, name) # es) =
     (case stoi name of
        Inr i \<Rightarrow> scan_entities_log es
      | Inl e \<Rightarrow>
          if e = Invalid_argument
          then Log_warning ''Unexpected file name, not a number.'' # scan_entities_log es else [])"

fun scan_types_log :: "'w os \<Rightarrow> 'w \<Rightarrow> (string \<times> string) list \<Rightarrow> log_call list" where
  "scan_types_log os w [] = []"
| "scan_types_log os w ((path, name) # ds) =
     (if os_is_directory os w path then
        scan_entities_log (os_entries os w path) @
        (case fst (scan_entities 0 name (os_entries os w path) (\<lambda>_. None)) of
           Some e \<Rightarrow> []
         | None \<Rightarrow> scan_types_log os w ds)
      else scan_types_log os w ds)"

definition initialize_log :: "'w os \<Rightarrow> 'w \<Rightarrow> string \<Rightarrow> log_call list" where
  \<comment> \<open>an exception ends the scan whatever the table holds\<close>
  "initialize_log os w root =
     (if \<not> os_exists os w root \<or> \<not> os_is_directory os w root
      then [Log_info ''Could not find root directory for CRUD handler.'']
      else Log_info ''Filling entity map with current entities.'' # scan_types_log os w (os_entries os w root) @
        (case fst (scan_types os w 0 (os_entries os w root) (\<lambda>_. None)) of
           Some e \<Rightarrow> []
         | None \<Rightarrow> [Log_info ''Entity map initialized.'']))"

definition crud_create_log :: "'w os \<Rightarrow> 'w \<Rightarrow> config \<Rightarrow> log_call list" where
  "crud_create_log os w cfg =
     (case statements cfg of
        [] \<Rightarrow> []
      | Stmt toks _ # _ \<Rightarrow>
          if length toks \<noteq> 2 then []
          else if toks ! 0 \<noteq> ''root'' then []
          else initialize_log os w (remove_trailing_slashes (toks ! 1)))"

lemma scan_entities_metrics [simp]: "metrics (scan_entities_log es) = []"
  by (induction es rule: scan_entities_log.induct) (simp_all split: sum.split)

lemma scan_types_metrics [simp]: "metrics (scan_types_log os w ds) = []"
  by (induction os w ds rule: scan_types_log.induct) (simp_all split: option.split)

lemma crud_create_metrics [simp]: "metrics (crud_create_log os w cfg) = []"
  by (auto simp: crud_create_log_def initialize_log_def split: list.split stmt.split option.split)

end
