(* ===== verification/Meme_Log.thy ===== *)
theory Meme_Log
  imports Crud_Log Meme_Handler
begin

text \<open>
  What the meme service writes into the log: the module (\<open>src/meme_module.cc\<close>), the handler
  (\<open>src/handler/meme_handler.cc\<close>) and the loading of a module. Each function lists the calls
  its namesake makes, in their order, on the same branches.
\<close>

section \<open>The module\<close>

definition id_text :: "meme_id \<Rightarrow> string" where
  "id_text i = nat_to_string (unat i)"

definition generate_id_log :: "('w, 'f) meme_module \<Rightarrow> log_call list" where
  "generate_id_log m = [Log_info (''Generate id: '' @ id_text (id_count m + 1))]"

definition create_meme_log :: "'w os \<Rightarrow> string \<Rightarrow> ('w, 'f) meme_module \<Rightarrow> log_call list" where
  "create_meme_log os content m =
     generate_id_log m @
     (case generate_id m of
        (new_id, m1) \<Rightarrow>
          let dir_path = meme_path m1 new_id;
              failed = [Log_error (''Can't create meme: '' @ id_text new_id)]
          in (case create_directory os dir_path (store m1) of
                (st, fs1) \<Rightarrow>
                  if st \<noteq> Success then failed
                  else if fst (write_file os (dir_path @ ''/content'') content fs1) \<noteq> Success then failed
                  else [Log_info (''Create meme: '' @ id_text new_id)]))"

definition get_content_log :: "'w os \<Rightarrow> meme_id \<Rightarrow> ('w, 'f) meme_module \<Rightarrow> log_call list" where
  "get_content_log os i m =
     (if fst (read_file os (meme_path m i @ ''/content'') [] (store m)) \<noteq> Success
      then [Log_error (''Can't read file: '' @ id_text i)] else [])"

definition update_failed_log :: "meme_id \<Rightarrow> status_f \<Rightarrow> log_call list" where
  \<comment> \<open>the same text after a write of views, of ratings and of a comment\<close>
  "update_failed_log i st = (if st \<noteq> Success then [Log_error (''Can't update views: '' @ id_text i)] else [])"

definition increment_log :: "'w os \<Rightarrow> meme_id \<Rightarrow> ('w, 'f) meme_module \<Rightarrow> log_call list" where
  "increment_log os i m =
     (let views = (case view_counts m (sint i) of Some c \<Rightarrow> c + 1 | None \<Rightarrow> 1) in
      if \<not> in_int_range views then []
      else update_failed_log i (fst (write_file os (meme_path m i @ ''/views'') (int_to_string views) (store m))))"

definition get_meme_log :: "'w os \<Rightarrow> 'f platform \<Rightarrow> meme_id \<Rightarrow> ('w, 'f) meme_module \<Rightarrow> log_call list" where
  "get_meme_log os P i m =
     Log_info (''Get meme: '' @ id_text i) #
     (if \<not> exist os (meme_path m i) (store m) \<or> \<not> os_is_directory os (disk_of (store m)) (meme_path m i)
      then [Log_error (''Id does not exist: '' @ id_text i)]
      else increment_log os i m @
        (case increment_view_count os i m of
           (Inl e, m1) \<Rightarrow> []
         | (Inr _, m1) \<Rightarrow>
             get_content_log os i m1 @
             (case get_content os i m1 of
                (content, m2) \<Rightarrow>
                  if content = [] then []
                  else (case make_meme P content (get_view_count i m2) (get_rating P i m2) of
                          Inl e \<Rightarrow> []
                        | Inr x \<Rightarrow> [Log_info (''Get meme content: '' @ content)]))))"

definition remove_meme_log :: "'w os \<Rightarrow> meme_id \<Rightarrow> ('w, 'f) meme_module \<Rightarrow> log_call list" where
  "remove_meme_log os i m =
     (if fst (delete_directory os (meme_path m i) (store m)) \<noteq> Success
      then [Log_error (''Can't delete file: '' @ id_text i)] else [])"

definition add_comment_log ::
    "'w os \<Rightarrow> string \<Rightarrow> meme_id \<Rightarrow> comment \<Rightarrow> ('w, 'f) meme_module \<Rightarrow> log_call list" where
  "add_comment_log os uuid i c m =
     (if \<not> exist os (meme_path m i) (store m) then [Log_error (''Invalid id: '' @ id_text i)]
      else
        let comment_path = meme_path m i @ ''/comments'';
            (st, fs1) = (if \<not> exist os comment_path (store m)
                   then create_directory os comment_path (store m) else (Success, store m))
        in (if st \<noteq> Success then [Log_error (''Can't create comment dir: '' @ id_text i)] else []) @
           update_failed_log i (fst (write_file os (comment_path @ ''/'' @ uuid) (comment_content c) fs1)))"

fun read_comments_log ::
    "'w os \<Rightarrow> 'f platform \<Rightarrow> (string \<times> string) list \<Rightarrow> 'w file_system \<Rightarrow> log_call list" where
  "read_comments_log os P [] fs = []"
| "read_comments_log os P ((path, _) # es) fs =
     (case read_file os path [] fs of
        (st, content, fs1) \<Rightarrow>
          if st = Success then
            (case make_comment P content of
               Inl e \<Rightarrow> []
             | Inr c \<Rightarrow> read_comments_log os P es fs1)
          else Log_error (''Can't open file: '' @ path) # read_comments_log os P es fs1)"

definition get_comments_log ::
    "'w os \<Rightarrow> 'f platform \<Rightarrow> meme_id \<Rightarrow> ('w, 'f) meme_module \<Rightarrow> log_call list" where
  "get_comments_log os P i m =
     (let comment_path = meme_path m i @ ''/comments''; w = disk_of (store m) in
      if \<not> exist os (meme_path m i) (store m) then [Log_error (''Invalid id: '' @ id_text i)]
      else if \<not> exist os comment_path (store m) \<or> \<not> os_is_directory os w comment_path
      then [Log_info (''No comment: '' @ id_text i)]
      else read_comments_log os P (os_entries os w comment_path) (store m))"

definition add_rating_log ::
    "'w os \<Rightarrow> 'f platform \<Rightarrow> meme_id \<Rightarrow> int \<Rightarrow> ('w, 'f) meme_module \<Rightarrow> log_call list" where
  "add_rating_log os P i r m =
     (case next_rating P (ratings m (sint i)) r of
        (new_count, new_rating) \<Rightarrow>
          if \<not> in_int_range new_count then []
          else update_failed_log i (fst (write_file os (meme_path m i @ ''/ratings'')
                 (int_to_string new_count @ '','' @ float_to_string P new_rating) (store m))))"

section \<open>Loading\<close>

definition load_entry_log ::
    "'w os \<Rightarrow> 'f platform \<Rightarrow> meme_id \<Rightarrow> string \<Rightarrow> ('w, 'f) meme_module \<Rightarrow> log_call list" where
  "load_entry_log os P junk path m =
     (if \<not> os_is_directory os (disk_of (store m)) path then []
      else (case substr path (length (root_dir m) + 1) None of
              Inl e \<Rightarrow> []
            | Inr name \<Rightarrow>
                [Log_debug name] @
                (case stoul name of Inr v \<Rightarrow> [] | Inl e \<Rightarrow> [Log_error (''Can't parse id: '' @ path)]) @
                (case load_entry os P junk path m of
                   Inl e \<Rightarrow> []
                 | Inr m1 \<Rightarrow>
                     [Log_info (''Loaded meta data for '' @
                        id_text (case stoul name of Inr v \<Rightarrow> v | Inl e \<Rightarrow> junk))])))"

fun load_entries_log ::
    "'w os \<Rightarrow> 'f platform \<Rightarrow> meme_id \<Rightarrow> (string \<times> string) list \<Rightarrow> ('w, 'f) meme_module \<Rightarrow> log_call list"
where
  "load_entries_log os P junk [] m = []"
| "load_entries_log os P junk ((path, _) # es) m =
     load_entry_log os P junk path m @
     (case load_entry os P junk path m of
        Inl e \<Rightarrow> []
      | Inr m1 \<Rightarrow> load_entries_log os P junk es m1)"

definition new_module_log ::
    "'w os \<Rightarrow> 'f platform \<Rightarrow> meme_id \<Rightarrow> string \<Rightarrow> 'w file_system \<Rightarrow> log_call list" where
  "new_module_log os P junk root fs =
     (let m = \<lparr>root_dir = root, id_count = 0, view_counts = (\<lambda>_. None), ratings = (\<lambda>_. None), store = fs\<rparr>;
          w = disk_of fs
      in if os_exists os w root \<and> os_is_directory os w root
         then load_entries_log os P junk (os_entries os w root) m
         else [])"

definition meme_create_log ::
    "'w os \<Rightarrow> 'f platform \<Rightarrow> meme_id \<Rightarrow> 'w \<Rightarrow> config \<Rightarrow> ('w, 'f) meme_modules \<Rightarrow> log_call list" where
  "meme_create_log os P junk w cfg modules =
     (case statements cfg of
        [] \<Rightarrow> []
      | Stmt toks _ # _ \<Rightarrow>
          if length toks \<noteq> 2 then []
          else if toks ! 0 \<noteq> ''root'' then []
          else
            let root = remove_trailing_slashes (toks ! 1) in
            (case modules root of
               Some _ \<Rightarrow> []
             | None \<Rightarrow> new_module_log os P junk root (get_file_system w)))"

section \<open>The handler\<close>

definition meme_metric :: "int \<Rightarrow> request \<Rightarrow> log_call" where
  "meme_metric code req = Log_response_data code (req_target req) ''MemeHandler''"

definition post_meme_log :: "'w os \<Rightarrow> 'f platform \<Rightarrow> request \<Rightarrow> ('w, 'f) meme_module \<Rightarrow> log_call list" where
  "post_meme_log os P req m =
     Log_info ''Creating meme'' #
     (case make_meme P (req_body req) 0 (float_of_int P 0) of
        Inl e \<Rightarrow> []
      | Inr x \<Rightarrow>
          create_meme_log os (meme_content x) m @
          (case fst (create_meme os (meme_content x) m) of
             None \<Rightarrow> [Log_error ''Error creating meme'', meme_metric 500 req]
           | Some i \<Rightarrow> [Log_info (''Meme created with id '' @ id_text i), meme_metric 201 req]))"

definition post_comment_log ::
    "'w os \<Rightarrow> 'f platform \<Rightarrow> string \<Rightarrow> request \<Rightarrow> ('w, 'f) meme_module \<Rightarrow> log_call list" where
  "post_comment_log os P uuid req m =
     Log_info ''Adding comment to meme'' #
     (case make_comment P (req_body req) of
        Inl e \<Rightarrow> []
      | Inr c \<Rightarrow>
          (case and_then (stoi (comment_id c)) (\<lambda>i.
                  and_then (stoi (comment_rating c)) (\<lambda>r. Inr (i, r))) of
             Inl e \<Rightarrow> if e = Invalid_argument then [meme_metric 404 req] else []
           | Inr (i, r) \<Rightarrow>
               add_rating_log os P (word_of_int i) r m @
               (case add_rating os P (word_of_int i) r m of
                  (Inl e, m1) \<Rightarrow> []
                | (Inr _, m1) \<Rightarrow> add_comment_log os uuid (word_of_int i) c m1 @ [meme_metric 201 req])))"

definition post_log ::
    "'w os \<Rightarrow> 'f platform \<Rightarrow> string \<Rightarrow> string \<Rightarrow> request \<Rightarrow> ('w, 'f) meme_module \<Rightarrow> log_call list" where
  "post_log os P uuid location req m =
     (if find_str location (req_target req) = None then []
      else Log_info (''Handling POST request to '' @ location) #
        (if req_target req = location @ ''/comment'' then post_comment_log os P uuid req m
         else if req_target req = location then post_meme_log os P req m
         else [meme_metric 404 req]))"

definition form_log :: "string \<Rightarrow> string \<Rightarrow> request \<Rightarrow> log_call list" where
  \<comment> \<open>\<open>handle_creation_form\<close> and \<open>handle_post_comment_form\<close>\<close>
  "form_log page message req =
     (if req_target req \<noteq> page then [] else [Log_info message, meme_metric 200 req])"

definition shown_log :: "'f meme option result \<Rightarrow> request \<Rightarrow> log_call list \<Rightarrow> log_call list" where
  \<comment> \<open>what follows \<open>memes_->get\<close>\<close>
  "shown_log r req details =
     (case r of
        Inl e \<Rightarrow> []
      | Inr None \<Rightarrow> [Log_error ''Error getting meme'', meme_metric 500 req]
      | Inr (Some x) \<Rightarrow> details @ [meme_metric 200 req])"

definition random_meme_log ::
    "'w os \<Rightarrow> 'f platform \<Rightarrow> int \<Rightarrow> request \<Rightarrow> ('w, 'f) meme_module \<Rightarrow> log_call list" where
  "random_meme_log os P rnd req m =
     (let count = get_meme_count m in
      Log_info (''Getting random meme from '' @ int_to_string count @ '' memes'') #
      (if count = 0 then [Log_error ''No memes to get'', meme_metric 400 req]
       else
         let i = rnd mod \<bar>count\<bar> + 1 in
         Log_info (''Random id: '' @ int_to_string i) # get_meme_log os P (word_of_int i) m @
         shown_log (fst (get_meme os P (word_of_int i) m)) req []))"

definition meme_details_log :: "'f meme option result \<Rightarrow> log_call list" where
  "meme_details_log r =
     (case r of
        Inr (Some x) \<Rightarrow>
          [Log_info (''Meme template: '' @ template x), Log_info (''Meme top text: '' @ top x),
           Log_info (''Meme bottom text: '' @ bottom x)]
      | _ \<Rightarrow> [])"

definition meme_by_id_log ::
    "'w os \<Rightarrow> 'f platform \<Rightarrow> request \<Rightarrow> ('w, 'f) meme_module \<Rightarrow> log_call list" where
  "meme_by_id_log os P req m =
     (case stoi (after_last slash (req_target req)) of
        Inl e \<Rightarrow> []
      | Inr i \<Rightarrow>
          let r = fst (get_meme os P (word_of_int i) m) in
          Log_info (''Getting meme with id '' @ int_to_string i) # get_meme_log os P (word_of_int i) m @
          shown_log r req (meme_details_log r))"

definition listing_log :: "'a result \<Rightarrow> request \<Rightarrow> log_call list" where
  \<comment> \<open>the listing handlers, on the number they read from the target\<close>
  "listing_log number req = (case number of Inl e \<Rightarrow> [] | Inr n \<Rightarrow> [meme_metric 200 req])"

definition other_info_log ::
    "'w os \<Rightarrow> 'f platform \<Rightarrow> request \<Rightarrow> ('w, 'f) meme_module \<Rightarrow> log_call list" where
  "other_info_log os P req m =
     (case stoi (after_last slash (req_target req)) of
        Inl e \<Rightarrow> []
      | Inr i \<Rightarrow>
          Log_info (''Getting info for meme with id '' @ int_to_string i) # get_comments_log os P (word_of_int i) m @
          (case fst (get_comments os P (word_of_int i) m) of
             Inl e \<Rightarrow> []
           | Inr comments \<Rightarrow> [meme_metric 200 req]))"

fun first_log :: "(bool result \<times> log_call list) list \<Rightarrow> log_call list" where
  "first_log [] = []"
| "first_log ((Inl e, calls) # bs) = []"
| "first_log ((Inr True, calls) # bs) = calls"
| "first_log ((Inr False, calls) # bs) = first_log bs"

definition get_log ::
    "'w os \<Rightarrow> 'f platform \<Rightarrow> int \<Rightarrow> string \<Rightarrow> request \<Rightarrow> ('w, 'f) meme_module \<Rightarrow> log_call list" where
  "get_log os P rnd location req m =
     (let target = req_target req; number = stoi (after_last slash target) in
      first_log
        [(Inr (target = location @ ''/creation_form''), form_log (location @ ''/creation_form'') ''Generating new form'' req),
         (Inr (target = location @ ''/random''), random_meme_log os P rnd req m),
         (Inr (target = location @ ''/all''), listing_log (Inr ()) req),
         (check_format target (location @ ''/''), meme_by_id_log os P req m),
         (check_format target (location @ ''/info/''), other_info_log os P req m),
         (Inr (target = location @ ''/comment_form''),
          form_log (location @ ''/comment_form'') ''Generating new comment form'' req),
         (check_format target (location @ ''/get_by_views/''), listing_log number req),
         (check_format_floating P target (location @ ''/get_by_rating/''),
          listing_log (stof P (after_last slash target)) req)])"

definition meme_log ::
    "'w os \<Rightarrow> 'f platform \<Rightarrow> int \<Rightarrow> string \<Rightarrow> string \<Rightarrow> request \<Rightarrow> ('w, 'f) meme_module \<Rightarrow> log_call list" where
  "meme_log os P rnd uuid location req m =
     Log_info ''Starting Meme Handler'' #
     (case req_method req of
        Verb_post \<Rightarrow> Log_info ''Handling POST request'' # post_log os P uuid location req m
      | Verb_get \<Rightarrow> Log_info ''Handling GET request'' # get_log os P rnd location req m
      | _ \<Rightarrow> [])"

section \<open>Metrics\<close>

text \<open>Only the handler writes metrics.\<close>

lemma module_metrics [simp]:
  "metrics (generate_id_log m) = []" "metrics (create_meme_log os content m) = []"
  "metrics (get_content_log os i m) = []" "metrics (update_failed_log i st) = []" "metrics (increment_log os i m) = []"
  by (simp_all add: generate_id_log_def create_meme_log_def get_content_log_def update_failed_log_def increment_log_def
      Let_def split: prod.split)

lemma get_meme_metrics [simp]: "metrics (get_meme_log os P i m) = []"
  by (simp add: get_meme_log_def split: prod.split sum.split)

lemma comment_metrics [simp]:
  "metrics (add_comment_log os uuid i c m) = []" "metrics (add_rating_log os P i r m) = []"
  by (simp_all add: add_comment_log_def add_rating_log_def Let_def split: prod.split)

lemma read_comments_metrics [simp]: "metrics (read_comments_log os P es fs) = []"
  by (induction os P es fs rule: read_comments_log.induct) (simp_all split: prod.split sum.split)

lemma get_comments_metrics [simp]: "metrics (get_comments_log os P i m) = []"
  by (simp add: get_comments_log_def Let_def)

lemma load_entry_metrics [simp]: "metrics (load_entry_log os P junk path m) = []"
  by (simp add: load_entry_log_def split: sum.split)

lemma load_entries_metrics [simp]: "metrics (load_entries_log os P junk es m) = []"
  by (induction os P junk es m rule: load_entries_log.induct) (simp_all split: sum.split)

lemma meme_create_metrics [simp]: "metrics (meme_create_log os P junk w cfg modules) = []"
  by (simp add: meme_create_log_def new_module_log_def Let_def split: list.split stmt.split option.split)

lemma details_metrics [simp]: "metrics (meme_details_log r) = []"
  by (simp add: meme_details_log_def split: sum.split option.split)

text \<open>
  A metric for each request the handler answers, with the status; but a request that no branch
  takes is answered 404 without one.
\<close>

definition routes :: "'f platform \<Rightarrow> string \<Rightarrow> string \<Rightarrow> bool result list" where
  \<comment> \<open>the conditions of \<open>handle_get\<close>\<close>
  "routes P location target =
     [Inr (target = location @ ''/creation_form''), Inr (target = location @ ''/random''),
      Inr (target = location @ ''/all''), check_format target (location @ ''/''),
      check_format target (location @ ''/info/''), Inr (target = location @ ''/comment_form''),
      check_format target (location @ ''/get_by_views/''),
      check_format_floating P target (location @ ''/get_by_rating/'')]"

definition unrouted :: "'f platform \<Rightarrow> string \<Rightarrow> request \<Rightarrow> bool" where
  "unrouted P location req \<longleftrightarrow>
     (case req_method req of
        Verb_get \<Rightarrow> list_all (\<lambda>c. c = Inr False) (routes P location (req_target req))
      | Verb_post \<Rightarrow> find_str location (req_target req) = None
      | _ \<Rightarrow> True)"

abbreviation meme_counted :: "status result \<Rightarrow> request \<Rightarrow> log_call list \<Rightarrow> bool" where
  "meme_counted r req calls \<equiv> counted r req ''MemeHandler'' calls"

lemma first_counted:
  assumes "list_all2 (\<lambda>(c, h) (c', calls). c = c' \<and> (c = Inr True \<longrightarrow> meme_counted (fst (h req res s)) req calls)) bs cs"
  shows "if list_all (\<lambda>(c, h). c = Inr False) bs
    then first_match bs req res s = (Inr Not_found, res, s) \<and> metrics (first_log cs) = []
    else meme_counted (fst (first_match bs req res s)) req (first_log cs)"
  using assms
proof (induction bs cs rule: list_all2_induct)
  case (Cons e bs e' cs)
  obtain c h calls where e: "e = (c, h)" "e' = (c, calls)" "c = Inr True \<Longrightarrow> meme_counted (fst (h req res s)) req calls"
    using Cons.hyps(1) by (cases e; cases e') auto
  show ?case
  proof (cases c)
    case (Inr v)
    with e Cons.IH show ?thesis by (cases v) simp_all
  qed (simp add: e)
qed simp

lemma form_counted:
  "req_target req = location @ ''/creation_form'' \<Longrightarrow>
     meme_counted (fst (handle_creation_form b location req res s)) req (form_log (location @ ''/creation_form'') t req)"
  "req_target req = location @ ''/comment_form'' \<Longrightarrow>
     meme_counted (fst (handle_post_comment_form b location req res s)) req (form_log (location @ ''/comment_form'') t req)"
  by (simp_all add: handle_creation_form_def handle_post_comment_form_def form_log_def meme_metric_def)

lemma shown_counted:
  "meme_counted (fst (handle_get_random_meme b os P rnd req res m)) req (random_meme_log os P rnd req m)"
  "meme_counted (fst (handle_get_meme_by_id b os P location req res m)) req (meme_by_id_log os P req m)"
  by (auto simp: handle_get_random_meme_def random_meme_log_def handle_get_meme_by_id_def
      meme_by_id_log_def shown_log_def meme_metric_def Let_def split: prod.split sum.split option.split)

lemma listing_counted:
  "meme_counted (fst (handle_get_all_memes b location req res m)) req (listing_log (Inr ()) req)"
  "meme_counted (fst (handle_get_meme_by_views b location req res m)) req
     (listing_log (stoi (after_last slash (req_target req))) req)"
  "meme_counted (fst (handle_get_meme_by_rating b P location req res m)) req
     (listing_log (stof P (after_last slash (req_target req))) req)"
  "meme_counted (fst (handle_get_other_info_by_id b os P req res m)) req (other_info_log os P req m)"
  by (auto simp: handle_get_all_memes_def handle_get_meme_by_views_def handle_get_meme_by_rating_def
      handle_get_other_info_by_id_def listing_log_def other_info_log_def meme_metric_def split: prod.split sum.split)

lemma meme_get_counted:
  "if list_all (\<lambda>c. c = Inr False) (routes P location (req_target req))
   then handle_get b os P rnd location req res m = (Inr Not_found, res, m) \<and> metrics (get_log os P rnd location req m) = []
   else meme_counted (fst (handle_get b os P rnd location req res m)) req (get_log os P rnd location req m)"
proof -
  let ?target = "req_target req"
  let ?bs = "[(Inr (?target = location @ ''/creation_form''), handle_creation_form b location),
         (Inr (?target = location @ ''/random''), handle_get_random_meme b os P rnd),
         (Inr (?target = location @ ''/all''), handle_get_all_memes b location),
         (check_format ?target (location @ ''/''), handle_get_meme_by_id b os P location),
         (check_format ?target (location @ ''/info/''), handle_get_other_info_by_id b os P),
         (Inr (?target = location @ ''/comment_form''), handle_post_comment_form b location),
         (check_format ?target (location @ ''/get_by_views/''), handle_get_meme_by_views b location),
         (check_format_floating P ?target (location @ ''/get_by_rating/''), handle_get_meme_by_rating b P location)]"
  have r: "list_all (\<lambda>c. c = Inr False) (routes P location ?target) = list_all (\<lambda>(c, h). c = Inr False) ?bs"
    by (simp add: routes_def)
  show ?thesis
    unfolding r handle_get_def get_log_def Let_def
    by (rule first_counted) (simp add: form_counted shown_counted listing_counted)
qed

lemma meme_post_counted:
  assumes "find_str location (req_target req) \<noteq> None"
  shows "meme_counted (fst (handle_post b os P uuid location req res m)) req (post_log os P uuid location req m)"
  using assms
  by (auto simp: handle_post_def post_log_def handle_post_meme_def post_meme_log_def
      handle_post_comment_def post_comment_log_def meme_metric_def split: prod.split sum.split option.split)

lemma meme_request_counted:
  "if unrouted P location req
   then meme_handle_request b os P rnd uuid location req res m = (Inr Not_found, res, m) \<and>
     metrics (meme_log os P rnd uuid location req m) = []
   else meme_counted (fst (meme_handle_request b os P rnd uuid location req res m)) req
     (meme_log os P rnd uuid location req m)"
proof (cases "req_method req")
  case Verb_get
  with meme_get_counted [of P location req b os rnd res m] show ?thesis
    by (simp add: meme_handle_request_def meme_log_def unrouted_def counted_def split: if_split_asm)
next
  case Verb_post
  then show ?thesis
  proof (cases "find_str location (req_target req) = None")
    case True
    with Verb_post show ?thesis
      by (simp add: meme_handle_request_def meme_log_def unrouted_def handle_post_def post_log_def)
  next
    case False
    from Verb_post False meme_post_counted [OF False, of b os P uuid res m] show ?thesis
      by (auto simp: meme_handle_request_def meme_log_def unrouted_def counted_def)
  qed
qed (simp_all add: meme_handle_request_def meme_log_def unrouted_def)

end
