(* ===== verification/Activity_Log.thy ===== *)
theory Activity_Log
  imports Server Logger
begin

text \<open>
  What the program writes into its log: \<open>main\<close> while it starts (\<open>src/server_main.cc\<close>) and a
  session while it serves (\<open>src/session.cc\<close>). The calls are those of the log's functions, in
  their order; what the dispatcher and the handlers log for a request is an argument here and is
  given in \<open>Request_Log\<close>.
\<close>

section \<open>Start-up\<close>

text \<open>
  The errors of \<open>getArguments\<close> and \<open>getFactories\<close> (\<open>src/config_parser.cc\<close>): each reports the
  location statements it leaves out.
\<close>

fun arguments_log :: "stmt list \<Rightarrow> log_call list" where
  "arguments_log [] = []"
| "arguments_log (Stmt toks ch # ss) =
     (if toks \<noteq> [] \<and> toks ! 0 = ''location'' \<and> \<not> (length toks = 3 \<and> ch \<noteq> None)
      then [Log_error ''Bad location statement inside the config file.''] else []) @ arguments_log ss"

fun factories_log :: "stmt list \<Rightarrow> log_call list" where
  "factories_log [] = []"
| "factories_log (Stmt toks ch # ss) =
     (if toks \<noteq> [] \<and> toks ! 0 = ''location'' then
        if length toks = 3 \<and> ch \<noteq> None then
          case create_handler_factory (toks ! 2) of
            None \<Rightarrow> [Log_error (''Incorrect handler type in config file: '' @ toks ! 2)]
          | Some f \<Rightarrow> []
        else [Log_error ''Bad location statement inside the config file.'']
      else []) @ factories_log ss"

definition main_log :: "'w os \<Rightarrow> 'w \<Rightarrow> (nat \<Rightarrow> bool) \<Rightarrow> string list \<Rightarrow> log_call list" where
  \<comment> \<open>the log of \<open>main\<close> before it serves or returns; the two records that report the start come after
    the constructor of \<open>server\<close>, which returns only when serving has ended\<close>
  "main_log os w bind args =
     (case args of
        [file_name] \<Rightarrow>
          Log_info ''Parsing the config file.'' #
          (case parse_file os w file_name of
             (False, _) \<Rightarrow> [Log_error ''Failed to parse the config file.'']
           | (True, cfg) \<Rightarrow>
               let portno = get_port_num (statements cfg) in
               Log_info ''Grabbing the port number from the config file.'' #
               (if portno = - 1 then [Log_error ''Config file has invalid port number.'']
                else Log_info ''Parsing completed.'' #
                  arguments_log (statements cfg) @ factories_log (statements cfg) @
                  (case (get_arguments (statements cfg) [], get_factories (statements cfg) []) of
                     (Inr args_of, Inr factories) \<Rightarrow>
                       if args_of = [] then [Log_error ''No path in config file.'']
                       else map (\<lambda>(location, _). Log_info (''Found route: '' @ location)) factories @
                         (if bind (endpoint_port (short_port portno)) then []
                          else [Log_error (''An exception has occurred'' @ [newline])])
                   | _ \<Rightarrow> [])))
      | _ \<Rightarrow> [Log_error ''Wrong usage of the server.''])"

definition is_error :: "log_call \<Rightarrow> bool" where
  "is_error c \<longleftrightarrow> Error \<le> fst (log_record c)"

lemma is_error_simps [simp]: "is_error (Log_error m)" "\<not> is_error (Log_info m)"
  by (simp_all add: is_error_def less_eq_severity_def severity_rank_def)

fun location_ok :: "stmt \<Rightarrow> bool" where
  \<comment> \<open>the statement is no location, or one that gives its location a handler\<close>
  "location_ok (Stmt toks ch) = (toks \<noteq> [] \<and> toks ! 0 = ''location'' \<longrightarrow>
     length toks = 3 \<and> ch \<noteq> None \<and> create_handler_factory (toks ! 2) \<noteq> None)"

lemma location_errors:
  "list_ex is_error (arguments_log ss @ factories_log ss) \<longleftrightarrow> \<not> list_all location_ok ss"
proof (induction ss)
  case (Cons s ss)
  obtain toks ch where s: "s = Stmt toks ch" by (cases s)
  have "list_ex is_error (arguments_log (s # ss) @ factories_log (s # ss)) \<longleftrightarrow>
      \<not> location_ok s \<or> list_ex is_error (arguments_log ss @ factories_log ss)"
    unfolding s by (cases "create_handler_factory (toks ! 2)") auto
  with Cons.IH show ?case by simp
qed simp

section \<open>Sessions\<close>

type_synonym 'd inner_log = "request \<Rightarrow> response \<Rightarrow> 'd \<Rightarrow> log_call list"

definition respond_log :: "beast \<Rightarrow> 'd dispatcher \<Rightarrow> 'd inner_log \<Rightarrow> session \<Rightarrow> 'd \<Rightarrow> log_call list" where
  "respond_log b dispatch inner s d =
     [Log_info ''Respond to request'', Log_info ''Parse request''] @
     (case read_request b (request_header s @ request_body s) of
        None \<Rightarrow>
          [Log_warning ''Request parsing error'', Log_response_data 400 (request_string s) ''N/A'',
           Log_info ''Write response back to client'']
      | Some req \<Rightarrow>
          let req' = (if req_body req \<noteq> [] then req\<lparr>req_body := req_body req @ crlf2\<rparr> else req) in
          Log_info ''Generate response'' # inner req' (response_of s) d @
          (case fst (dispatch req' (response_of s) d) of
             Inl e \<Rightarrow> []
           | Inr res \<Rightarrow> [Log_info ''Write response back to client'']))"

definition client_error_log :: "string \<Rightarrow> log_call list" where
  "client_error_log header = [Log_warning (''Bad Request: '' @ header), Log_response_data 400 header ''N/A'']"

definition server_error_log :: "string \<Rightarrow> log_call list" where
  "server_error_log header =
     [Log_warning (''Server error handling: '' @ header), Log_response_data 500 header ''N/A'']"

definition read_header_log ::
    "beast \<Rightarrow> 'd dispatcher \<Rightarrow> 'd inner_log \<Rightarrow> string \<Rightarrow> read_event \<Rightarrow> session \<Rightarrow> 'd \<Rightarrow> log_call list" where
  "read_header_log b dispatch inner remote_ip ev s d =
     (case ev of
        Read_failed \<Rightarrow> server_error_log (request_header s)
      | Got str \<Rightarrow>
          let s = s\<lparr>request_string := request_string s @ str\<rparr> in
          (case find_str crlf2 (request_string s) of
             None \<Rightarrow> []
           | Some header_pos \<Rightarrow>
               let s = s\<lparr>request_header := take (header_pos + 4) (request_string s),
                        request_body := take (length str) (drop (header_pos + 4) (request_string s))\<rparr>;
                   (ok, p) = parse_header (request_header s) (parser s)
               in if \<not> ok then client_error_log (request_header s)
                  else [Log_info ''process header'', Log_http_request p remote_ip] @
                    (if expects_body p then
                       Log_info ''read body'' #
                       (case read_content_length p (content_length s) of
                          Inl e \<Rightarrow> []
                        | Inr n \<Rightarrow>
                            if body_complete (request_body s) n
                            then Log_info ''finish reading body'' # respond_log b dispatch inner s d else [])
                     else respond_log b dispatch inner s d)))"

definition read_body_log ::
    "beast \<Rightarrow> 'd dispatcher \<Rightarrow> 'd inner_log \<Rightarrow> read_event \<Rightarrow> session \<Rightarrow> 'd \<Rightarrow> log_call list" where
  "read_body_log b dispatch inner ev s d =
     (case ev of
        Read_failed \<Rightarrow> server_error_log (request_header s)
      | Got str \<Rightarrow>
          let s = s\<lparr>request_body := request_body s @ str\<rparr> in
          if body_complete (request_body s) (content_length s)
          then Log_info ''Finished reading body'' # respond_log b dispatch inner s d else [])"

fun feed_log ::
    "beast \<Rightarrow> 'd dispatcher \<Rightarrow> 'd inner_log \<Rightarrow> string \<Rightarrow> session \<Rightarrow> 'd \<Rightarrow> string list \<Rightarrow> log_call list" where
  \<comment> \<open>the calls of a session while it is fed\<close>
  "feed_log b dispatch inner remote_ip s d [] = []"
| "feed_log b dispatch inner remote_ip s d (c # cs) =
     (case pending s of
        Reading_header \<Rightarrow>
          read_header_log b dispatch inner remote_ip (Got c) s d @
          (case handle_read_header b dispatch (Got c) s d of
             (Inl e, d') \<Rightarrow> []
           | (Inr s', d') \<Rightarrow> feed_log b dispatch inner remote_ip s' d' cs)
      | Reading_body \<Rightarrow>
          read_body_log b dispatch inner (Got c) s d @
          (case handle_read_body b dispatch (Got c) s d of
             (Inl e, d') \<Rightarrow> []
           | (Inr s', d') \<Rightarrow> feed_log b dispatch inner remote_ip s' d' cs)
      | _ \<Rightarrow> [])"

lemma feed_log_finished: "pending s = Writing \<Longrightarrow> feed_log b dispatch inner ip s d cs = []"
  by (cases cs) simp_all

text \<open>A header the parser rejects is logged twice as it came, however it was cut.\<close>

lemma feed_log_rejected:
  assumes h: "header_block h" and p: "parse_header h (parser s) = (False, p)"
    and s: "pending s = Reading_header" "find_str crlf2 (request_string s) = None"
    and cs: "request_string s @ concat cs = h @ rest"
  shows "feed_log b dispatch inner ip s d cs = client_error_log h"
  using s cs p
proof (induction cs arbitrary: s)
  case Nil
  then have "request_string s = h @ rest" by simp
  moreover have "find_str crlf2 (h @ rest) = Some (length h - 4)"
    using h by (intro find_str_append) (simp add: header_block_def)
  ultimately show ?case using Nil.prems(2) by simp
next
  case (Cons c cs)
  let ?t = "request_string s @ c"
  show ?case
  proof (cases "find_str crlf2 ?t")
    case None
    let ?s = "s\<lparr>request_string := ?t, pending := Reading_header\<rparr>"
    have "feed_log b dispatch inner ip ?s d cs = client_error_log h"
      using Cons.prems None by (intro Cons.IH) simp_all
    with Cons.prems(1) None show ?thesis by (simp add: read_header_log_def handle_read_header_def Let_def)
  next
    case (Some pos)
    have whole: "?t @ concat cs = h @ rest" using Cons.prems(3) by simp
    have found: "pos + 4 = length h" "length h \<le> length ?t"
      using header_found [OF h Some _ Cons.prems(2), of "concat cs" rest] Cons.prems(3) by simp_all
    have "take (length h) (?t @ concat cs) = take (length h) (h @ rest)" using whole by simp
    with found have hdr: "take (pos + 4) ?t = h" by simp
    let ?s = "s\<lparr>request_string := ?t, request_header := h,
      request_body := take (length c) (drop (pos + 4) ?t), parser := p\<rparr>"
    have "handle_read_header b dispatch (Got c) s d = (Inr (respond_to_request_client_error b ?s), d)"
      using Cons.prems(4) Some hdr by (simp add: handle_read_header_def Let_def)
    moreover have "read_header_log b dispatch inner ip (Got c) s d = client_error_log h"
      using Cons.prems(4) Some hdr by (simp add: read_header_log_def Let_def)
    ultimately show ?thesis
      using Cons.prems(1) by (simp add: respond_to_request_client_error_def feed_log_finished)
  qed
qed

section \<open>Properties\<close>

definition route_record :: "string \<Rightarrow> log_call" where
  "route_record location = Log_info (''Found route: '' @ location)"

text \<open>
  C29: on every command line, configuration file and port: a program that fails to start says so in
  the last record of its log, which is an error; one that serves ends its log with the locations that
  have a handler, in the order of the table, and the log holds an error exactly if a location
  statement of the file was left out, because it is malformed or names no handler.
\<close>
theorem start_is_logged:
  "case start_up os w bind args of
     Exit n \<Rightarrow> main_log os w bind args \<noteq> [] \<and> is_error (last (main_log os w bind args))
   | Serve port arguments factories \<Rightarrow>
       suffix (map (route_record \<circ> fst) factories) (main_log os w bind args) \<and>
       (list_ex is_error (main_log os w bind args) \<longleftrightarrow>
          \<not> list_all location_ok (statements (snd (parse_file os w (hd args)))))
   | Meaningless \<Rightarrow> False"
proof (cases "\<exists>f. args = [f]")
  case False
  then show ?thesis by (cases args; cases "tl args") (auto simp: start_up_def main_log_def)
next
  case True
  then obtain f where f: "args = [f]" by blast
  obtain ok cfg where p: "parse_file os w f = (ok, cfg)" by (cases "parse_file os w f")
  note wf = parse_file_wf [OF p]
  let ?ss = "statements cfg"
  let ?routes = "map (route_record \<circ> fst) (factory_table cfg)"
  have routes: "map (\<lambda>(location, _). Log_info (''Found route: '' @ location)) (factory_table cfg) = ?routes"
    by (simp add: route_record_def case_prod_beta)
  have "\<not> list_ex is_error ?routes" by (simp add: route_record_def list_ex_iff)
  with location_errors [of ?ss] have errors:
    "list_ex is_error (arguments_log ?ss @ factories_log ?ss @ ?routes) \<longleftrightarrow> \<not> list_all location_ok ?ss"
    by simp
  show ?thesis
  proof (cases "ok \<and> get_port_num ?ss \<noteq> - 1")
    case True
    let ?pre = "Log_info ''Parsing the config file.'' #
      Log_info ''Grabbing the port number from the config file.'' # Log_info ''Parsing completed.'' #
      arguments_log ?ss @ factories_log ?ss"
    have "main_log os w bind args = ?pre @
        (if argument_table cfg = [] then [Log_error ''No path in config file.'']
         else ?routes @ (if bind (endpoint_port (short_port (get_port_num ?ss))) then []
           else [Log_error (''An exception has occurred'' @ [newline])]))"
      using True routes by (simp add: f main_log_def p Let_def get_arguments_blocks [OF wf] get_factories_blocks [OF wf])
    moreover have "start_up os w bind args =
        (if argument_table cfg = [] then Exit 1
         else if bind (endpoint_port (short_port (get_port_num ?ss)))
         then Serve (endpoint_port (short_port (get_port_num ?ss))) (argument_table cfg) (factory_table cfg)
         else Exit 0)"
      using True by (simp add: f start_up_def p Let_def get_arguments_blocks [OF wf] get_factories_blocks [OF wf])
    moreover have "suffix ?routes (?pre @ ?routes)" unfolding suffix_def by blast
    moreover have "list_ex is_error (?pre @ ?routes) \<longleftrightarrow> \<not> list_all location_ok ?ss"
      using errors by simp
    ultimately show ?thesis by (simp add: f p)
  next
    case False
    then show ?thesis by (cases ok) (simp_all add: f start_up_def main_log_def p Let_def)
  qed
qed

text \<open>
  C40: a client writes lines of its choice into the log: any line of a header block that the parser
  rejects, with the line before and the line after, stands in the log as a line of its own, word
  for word, however the network cut the block. A line that looks like a record is one.
\<close>
theorem rejected_header_forges_lines:
  assumes "header_block h" and "parse_header h new_request_parser = (False, p)"
    and "h = a @ newline # x @ newline # c" and "newline \<notin> set x" and "concat cs = h @ rest"
    and "map snd entries = feed_log b dispatch inner remote_ip new_session d cs"
  shows "has_line (log_text (before @ entries @ after)) x"
proof -
  have "find_str crlf2 [] = None" by simp
  with feed_log_rejected [of h new_session p cs rest b dispatch inner remote_ip d] assms(1,2,5)
  have "feed_log b dispatch inner remote_ip new_session d cs = client_error_log h"
    by (simp add: new_session_def)
  with assms(6) obtain st more where e: "entries = (st, Log_warning (''Bad Request: '' @ h)) # more"
    by (cases entries) (auto simp: client_error_log_def)
  let ?pre = "''['' @ time_stamp st @ ''] - ['' @ thread_id st @ ''] - ['' @ severity_name Warning @ ''] - Bad Request: '' @ a"
  have "log_line (st, Log_warning (''Bad Request: '' @ h)) = ?pre @ newline # x @ newline # c @ [newline]"
    by (simp add: log_line_def format_record_def assms(3))
  with has_line_inside [OF assms(4), of ?pre "c @ [newline]"]
  have "has_line (log_line (st, Log_warning (''Bad Request: '' @ h))) x" by metis
  from has_line_after [OF has_line_before [OF this, of "log_text more @ log_text after"], of before]
  show ?thesis by (simp add: e)
qed

definition forged_line :: string where
  "forged_line = ''[2023-06-01 12:00:00] - [0x01] - [info] - [ResponseMetrics] response_code: 200 request_path: /health matched_handler: HealthHandler''"

definition forging_header :: string where
  "forging_header = ''GET / HTTP/1.1'' @ newline # forged_line @ newline # ''-'' @ crlf2"

theorem rejected_header_forges_lines_witness:
  "log_line (sample_stamp, Log_response_data 200 ''/health'' ''HealthHandler'') = forged_line @ [newline] \<and>
   has_line (log_text (map (Pair sample_stamp)
     (feed_log sample_beast count_dispatch (\<lambda>req res d. []) ''127.0.0.1'' new_session 0
        [take 20 forging_header, drop 20 forging_header]))) forged_line"
proof
  show "log_line (sample_stamp, Log_response_data 200 ''/health'' ''HealthHandler'') = forged_line @ [newline]"
    by code_simp
  let ?calls = "feed_log sample_beast count_dispatch (\<lambda>req res d. []) ''127.0.0.1'' new_session 0
        [take 20 forging_header, drop 20 forging_header]"
  have h: "header_block forging_header" by code_simp
  have "fst (parse_header forging_header new_request_parser) = False" by code_simp
  from run_result [OF this] obtain p where p: "parse_header forging_header new_request_parser = (False, p)"
    by blast
  have n: "newline \<notin> set forged_line" by code_simp
  have c: "concat [take 20 forging_header, drop 20 forging_header] = forging_header @ []" by simp
  have e: "map snd (map (Pair sample_stamp) ?calls) = ?calls" by (simp add: comp_def)
  from rejected_header_forges_lines [OF h p forging_header_def n c e, of "[]" "[]"]
  show "has_line (log_text (map (Pair sample_stamp) ?calls)) forged_line" by simp
qed

end
