(* ===== verification/Request_Log.thy ===== *)
theory Request_Log
  imports Meme_Log Activity_Log Process
begin

text \<open>
  What a request leaves in the log on its way: the dispatcher (\<open>src/request_dispatcher.cc\<close>), the
  factory and the handler it calls, and the session around them; and which of the requests are
  counted, that is, have a record of \<open>log_response_data\<close>.
\<close>

section \<open>The dispatcher\<close>

definition handler_name :: "factory_kind \<Rightarrow> string" where
  \<comment> \<open>the name in the metrics\<close>
  "handler_name kind =
     (case kind of
        StaticHandlerFactory \<Rightarrow> ''StaticHandler''
      | EchoHandlerFactory \<Rightarrow> ''EchoHandler''
      | FileNotFoundHandlerFactory \<Rightarrow> ''FileNotFoundHandler''
      | CrudHandlerFactory \<Rightarrow> ''CrudHandler''
      | HealthHandlerFactory \<Rightarrow> ''HealthHandler''
      | BlockHandlerFactory \<Rightarrow> ''BlockHandler''
      | MemeHandlerFactory \<Rightarrow> ''MemeHandler'')"

definition run_crud_log ::
    "'w os \<Rightarrow> chance \<Rightarrow> string \<Rightarrow> config \<Rightarrow> request \<Rightarrow> ('w, 'f) world \<Rightarrow> log_call list" where
  "run_crud_log os ch location cfg req W =
     crud_create_log os (world_disk W) cfg @
     (case crud_create os (world_disk W) (junk_entity ch) cfg (crud_tables W location) of
        (Inr (Some dir), ids) \<Rightarrow> crud_log os dir req \<lparr>crud_ids = ids, crud_disk = world_disk W\<rparr>
      | _ \<Rightarrow> [])"

definition run_meme_log ::
    "'w os \<Rightarrow> 'f platform \<Rightarrow> chance \<Rightarrow> string \<Rightarrow> config \<Rightarrow> request \<Rightarrow> ('w, 'f) world \<Rightarrow> log_call list" where
  "run_meme_log os P ch location cfg req W =
     meme_create_log os P (junk_meme ch) (world_disk W) cfg (meme_tables W location) @
     (case meme_create os P (junk_meme ch) (world_disk W) cfg (meme_tables W location) of
        (Inr (Some dir), ms) \<Rightarrow>
          (case ms dir of
             None \<Rightarrow> []
           | Some m0 \<Rightarrow>
               meme_log os P (rand_value ch) (uuid_value ch) location req
                 (m0\<lparr>store := (store m0)\<lparr>disk_of := world_disk W\<rparr>\<rparr>))
      | _ \<Rightarrow> [])"

definition run_static_log :: "'w os \<Rightarrow> string \<Rightarrow> string \<Rightarrow> config \<Rightarrow> request \<Rightarrow> ('w, 'f) world \<Rightarrow> log_call list" where
  "run_static_log os location url cfg req W =
     (case static_create location url cfg of
        None \<Rightarrow> []
      | Some file_name \<Rightarrow> static_log os file_name req (world_disk W))"

definition handler_log ::
    "'w os \<Rightarrow> 'f platform \<Rightarrow> chance \<Rightarrow> factory_kind \<Rightarrow> string \<Rightarrow> string \<Rightarrow> config \<Rightarrow> request \<Rightarrow> ('w, 'f) world \<Rightarrow>
     log_call list" where
  "handler_log os P ch kind location url cfg req W =
     (case kind of
        EchoHandlerFactory \<Rightarrow> echo_log req
      | FileNotFoundHandlerFactory \<Rightarrow> file_not_found_log req
      | HealthHandlerFactory \<Rightarrow> health_log req
      | BlockHandlerFactory \<Rightarrow> block_log req
      | StaticHandlerFactory \<Rightarrow> run_static_log os location url cfg req W
      | CrudHandlerFactory \<Rightarrow> run_crud_log os ch location cfg req W
      | MemeHandlerFactory \<Rightarrow> run_meme_log os P ch location cfg req W)"

definition dispatch_log ::
    "beast \<Rightarrow> 'w os \<Rightarrow> 'f platform \<Rightarrow> chance \<Rightarrow> factories \<Rightarrow> arguments \<Rightarrow> ('w, 'f) world inner_log" where
  "dispatch_log b os P ch factories arguments req res W =
     (let url = req_target req in
      case match factories url of
        Inl e \<Rightarrow> []
      | Inr None \<Rightarrow> [Log_response_data 404 url ''N/A'']
      | Inr (Some location) \<Rightarrow>
          Log_info (''Dispatch '' @ url @ '' to '' @ location) #
          (case (map_get arguments location, map_get factories location) of
             (Some cfg, Some kind) \<Rightarrow>
               handler_log os P ch kind location url cfg req W @
               (case fst (create_and_handle b os P ch kind location url cfg req res W) of
                  Inl e \<Rightarrow> []
                | Inr st \<Rightarrow> [Log_info (''Handler returned status '' @ int_to_string (status_number st))])
           | _ \<Rightarrow> []))"

text \<open>Each kind of handler counts the request it answers, unless the meme handler has no branch for it.\<close>

lemma crud_run_counted:
  "counted (fst (run_crud b os ch location cfg req res W)) req ''CrudHandler'' (run_crud_log os ch location cfg req W)"
proof -
  obtain r ids where c: "crud_create os (world_disk W) (junk_entity ch) cfg (crud_tables W location) = (r, ids)"
    by (cases "crud_create os (world_disk W) (junk_entity ch) cfg (crud_tables W location)")
  have "counted (fst (crud_handle_request b os dir req res s)) req ''CrudHandler'' (crud_log os dir req s)" for dir s
    by (rule crud_counted)
  with c show ?thesis
    by (cases r) (auto simp: run_crud_def run_crud_log_def counted_def split: option.split prod.split)
qed

lemma static_run_counted:
  "counted (fst (run_static b os location url cfg req res W)) req ''StaticHandler''
     (run_static_log os location url cfg req W)"
  using simple_counted(5) [of b os _ req res "world_disk W"]
  by (auto simp: run_static_def run_static_log_def counted_def split: option.split prod.split)

lemma meme_run_counted:
  "if unrouted P location req
   then metrics (run_meme_log os P ch location cfg req W) = [] \<and>
     (\<forall>st. fst (run_meme b os P ch location cfg req res W) = Inr st \<longrightarrow> st = Not_found)
   else counted (fst (run_meme b os P ch location cfg req res W)) req ''MemeHandler''
     (run_meme_log os P ch location cfg req W)"
proof -
  obtain r ms where c: "meme_create os P (junk_meme ch) (world_disk W) cfg (meme_tables W location) = (r, ms)"
    by (cases "meme_create os P (junk_meme ch) (world_disk W) cfg (meme_tables W location)")
  show ?thesis
  proof (cases "\<exists>dir m0. r = Inr (Some dir) \<and> ms dir = Some m0")
    case True
    then obtain dir m0 where m: "r = Inr (Some dir)" "ms dir = Some m0" by blast
    let ?m = "m0\<lparr>store := (store m0)\<lparr>disk_of := world_disk W\<rparr>\<rparr>"
    have "run_meme_log os P ch location cfg req W =
        meme_create_log os P (junk_meme ch) (world_disk W) cfg (meme_tables W location) @
        meme_log os P (rand_value ch) (uuid_value ch) location req ?m"
      using c m by (simp add: run_meme_log_def)
    moreover have "fst (run_meme b os P ch location cfg req res W) =
        fst (meme_handle_request b os P (rand_value ch) (uuid_value ch) location req res ?m)"
      using c m by (simp add: run_meme_def split: prod.split)
    ultimately show ?thesis
      using meme_request_counted [of P location req b os "rand_value ch" "uuid_value ch" res ?m]
      by (simp add: counted_def split: if_split_asm)
  next
    case False
    then have "run_meme_log os P ch location cfg req W =
        meme_create_log os P (junk_meme ch) (world_disk W) cfg (meme_tables W location)"
      "\<exists>e. fst (run_meme b os P ch location cfg req res W) = Inl e"
      using c by (auto simp: run_meme_log_def run_meme_def split: sum.splits option.splits)
    then show ?thesis by auto
  qed
qed

lemma handler_counted:
  assumes "kind = MemeHandlerFactory \<Longrightarrow> \<not> unrouted P location req"
  shows "counted (fst (create_and_handle b os P ch kind location url cfg req res W)) req (handler_name kind)
    (handler_log os P ch kind location url cfg req W)"
  using assms simple_counted crud_run_counted static_run_counted
    meme_run_counted [of P location req os ch cfg W b res]
  by (cases kind) (simp_all add: create_and_handle_def handler_log_def handler_name_def)

text \<open>What \<open>main\<close> logs when serving has ended (only then), and when it is interrupted.\<close>

definition served_log :: "int \<Rightarrow> log_call list" where
  "served_log portno = [Log_server_init, Log_server_start portno]"

definition interrupt_log :: "log_call list" where
  "interrupt_log = [Log_server_stop]"

section \<open>Sessions whose dispatcher counts\<close>

text \<open>A dispatcher that leaves exactly one metric for every response, with the result of the response.\<close>

definition one_metric :: "log_call list \<Rightarrow> response \<Rightarrow> bool" where
  "one_metric calls res \<longleftrightarrow>
     (\<exists>path name. metrics calls = [Log_response_data (status_number (res_result res)) path name])"

lemma one_metricI:
  "metrics calls = [Log_response_data (status_number (res_result res)) path name] \<Longrightarrow> one_metric calls res"
  unfolding one_metric_def by blast

lemma respond_log_cong:
  assumes "request_header s = request_header t" and "request_body s = request_body t"
    and "request_string s = request_string t" and "response_of s = response_of t"
  shows "respond_log b dispatch inner s d = respond_log b dispatch inner t d"
  unfolding respond_log_def assms ..

lemma header_pending: "handle_read_header b dispatch (Got c) s d = (Inr t, e) \<Longrightarrow> pending t \<noteq> Finished"
  by (auto simp: handle_read_header_def Let_def respond_to_request_client_error_def
      dest!: respond_writes split: option.splits prod.splits if_splits sum.splits)

lemma body_pending: "handle_read_body b dispatch (Got c) s d = (Inr t, e) \<Longrightarrow> pending t \<noteq> Finished"
  by (auto simp: handle_read_body_def Let_def dest!: respond_writes split: if_splits)

locale metered =
  fixes valid :: bool and dispatch :: "'d dispatcher" and inner :: "'d inner_log"
  assumes dispatch_counted: "valid \<Longrightarrow> dispatch req fresh_response d = (Inr res, d') \<Longrightarrow> one_metric (inner req fresh_response d) res"
begin

lemma respond_counted:
  assumes "valid" and "response_of s = fresh_response" and "respond_to_request b dispatch s d = (Inr s', d')"
  shows "one_metric (respond_log b dispatch inner s d) (response_of s')"
proof (cases "read_request b (request_header s @ request_body s)")
  case None
  with assms(3) show ?thesis
    by (auto simp: respond_to_request_def respond_log_def error_page_def set_field_def one_metric_def)
next
  case (Some req)
  let ?req = "delivered_request req"
  from assms(2,3) Some obtain res where d: "dispatch ?req fresh_response d = (Inr res, d')" "response_of s' = res"
    by (auto simp: respond_to_request_def delivered_request_def Let_def split: prod.splits sum.splits if_splits)
  have "respond_log b dispatch inner s d = [Log_info ''Respond to request'', Log_info ''Parse request''] @
      Log_info ''Generate response'' # inner ?req fresh_response d @ [Log_info ''Write response back to client'']"
    using Some d(1) assms(2)
    by (simp add: respond_log_def delivered_request_def Let_def split: if_splits)
  then have "metrics (respond_log b dispatch inner s d) = metrics (inner ?req fresh_response d)" by simp
  with dispatch_counted [OF assms(1) d(1)] d(2) show ?thesis by (simp add: one_metric_def)
qed

definition counted_so_far :: "session \<Rightarrow> log_call list \<Rightarrow> bool" where
  "counted_so_far s calls \<longleftrightarrow>
     (if pending s = Writing then one_metric calls (response_of s) else metrics calls = [])"

lemma header_counted:
  assumes "valid" and "untouched s" and "pending s = Reading_header"
    and "handle_read_header b dispatch (Got c) s d = (Inr s', d')"
  shows "counted_so_far s' (read_header_log b dispatch inner ip (Got c) s d)"
proof -
  from assms(2,3) have fresh: "response_of s = fresh_response" by (simp add: untouched_def)
  show ?thesis
  proof (cases "find_str crlf2 (request_string s @ c)")
    case None
    with assms(4) show ?thesis by (auto simp: handle_read_header_def read_header_log_def counted_so_far_def)
  next
    case (Some pos)
    let ?h = "take (pos + 4) (request_string s @ c)"
    obtain ok p where p: "parse_header ?h (parser s) = (ok, p)" by (cases "parse_header ?h (parser s)")
    let ?s = "s\<lparr>request_string := request_string s @ c, request_header := ?h,
      request_body := take (length c) (drop (pos + 4) (request_string s @ c))\<rparr>"
    have answer: "pending s' = Writing \<and> one_metric (respond_log b dispatch inner ?s d) (response_of s')"
      if run: "respond_to_request b dispatch t d = (Inr s', d')" and
        t: "request_header t = ?h" "request_body t = request_body ?s" "request_string t = request_string ?s"
          "response_of t = response_of s" for t
    proof -
      have "respond_log b dispatch inner t d = respond_log b dispatch inner ?s d"
        using t by (intro respond_log_cong) simp_all
      with respond_counted [OF assms(1) _ run] respond_writes [OF run] t(4) fresh show ?thesis by simp
    qed
    show ?thesis
    proof (cases "ok \<and> expects_body p")
      case True
      with assms(4) Some p obtain n where n: "read_content_length p (content_length s) = Inr n"
        by (auto simp: handle_read_header_def Let_def split: sum.splits)
      let ?t = "?s\<lparr>parser := p, content_length := n\<rparr>"
      have run: "(if body_complete (request_body ?s) n then respond_to_request b dispatch ?t d
          else (Inr (?t\<lparr>pending := Reading_body\<rparr>), d)) = (Inr s', d')"
        using assms(4) Some p True n by (simp add: handle_read_header_def Let_def del: take_append drop_append)
      have calls: "read_header_log b dispatch inner ip (Got c) s d =
          [Log_info ''process header'', Log_http_request p ip, Log_info ''read body''] @
          (if body_complete (request_body ?s) n
           then Log_info ''finish reading body'' # respond_log b dispatch inner ?s d else [])"
        using Some p True n by (simp add: read_header_log_def Let_def del: take_append drop_append)
      show ?thesis
      proof (cases "body_complete (request_body ?s) n")
        case True
        with run have "respond_to_request b dispatch ?t d = (Inr s', d')" by (simp only: if_True)
        from answer [OF this] True calls show ?thesis
          by (simp add: counted_so_far_def one_metric_def del: take_append drop_append)
      next
        case False
        with run have "pending s' = Reading_body" by auto
        with False calls show ?thesis by (simp add: counted_so_far_def del: take_append drop_append)
      qed
    next
      case no_body: False
      show ?thesis
      proof (cases ok)
        case True
        with no_body have e: "\<not> expects_body p" by simp
        with True assms(4) Some p have "respond_to_request b dispatch (?s\<lparr>parser := p\<rparr>) d = (Inr s', d')"
          by (simp add: handle_read_header_def Let_def del: take_append drop_append)
        from answer [OF this] have a: "pending s' = Writing" "one_metric (respond_log b dispatch inner ?s d) (response_of s')"
          by simp_all
        have "read_header_log b dispatch inner ip (Got c) s d =
            [Log_info ''process header'', Log_http_request p ip] @ respond_log b dispatch inner ?s d"
          using True e Some p by (simp add: read_header_log_def Let_def del: take_append drop_append)
        with a show ?thesis by (simp add: counted_so_far_def one_metric_def del: take_append drop_append)
      next
        case False
        with assms(4) Some p show ?thesis
          by (auto simp: handle_read_header_def read_header_log_def respond_to_request_client_error_def
              client_error_log_def counted_so_far_def one_metric_def error_page_def set_field_def Let_def)
      qed
    qed
  qed
qed

lemma body_counted:
  assumes "valid" and "untouched s" and "pending s = Reading_body"
    and "handle_read_body b dispatch (Got c) s d = (Inr s', d')"
  shows "counted_so_far s' (read_body_log b dispatch inner (Got c) s d)"
proof (cases "body_complete (request_body s @ c) (content_length s)")
  case True
  let ?s = "s\<lparr>request_body := request_body s @ c\<rparr>"
  from True assms(4) have run: "respond_to_request b dispatch ?s d = (Inr s', d')"
    by (simp add: handle_read_body_def Let_def)
  have "response_of ?s = fresh_response" using assms(2,3) by (simp add: untouched_def)
  from respond_counted [OF assms(1) this run] respond_writes [OF run] True show ?thesis
    by (simp add: read_body_log_def counted_so_far_def one_metric_def)
next
  case False
  with assms(4) show ?thesis by (auto simp: handle_read_body_def read_body_log_def counted_so_far_def)
qed

lemma feed_counted:
  assumes "valid" and "untouched s" and "pending s = Reading_header \<or> pending s = Reading_body"
    and "feed b dispatch s d cs = (Inr s', d')"
  shows "counted_so_far s' (feed_log b dispatch inner ip s d cs)"
  using assms(2-4)
proof (induction cs arbitrary: s d)
  case Nil
  then show ?case by (auto simp: counted_so_far_def)
next
  case (Cons c cs)
  have rest: "counted_so_far s' (calls @ feed_log b dispatch inner ip t e cs)"
    if t: "counted_so_far t calls" "untouched t" "pending t \<noteq> Finished" and f: "feed b dispatch t e cs = (Inr s', d')"
    for t e calls
  proof (cases "pending t = Writing")
    case True
    with f have "s' = t" by (cases cs) simp_all
    with t(1) True show ?thesis by (simp add: feed_log_finished)
  next
    case False
    with t(3) have "pending t = Reading_header \<or> pending t = Reading_body" by (cases "pending t") simp_all
    from Cons.IH [OF t(2) this f] t(1) False show ?thesis
      by (simp add: counted_so_far_def one_metric_def split: if_split_asm)
  qed
  show ?case
  proof (cases "pending s = Reading_header")
    case True
    with Cons.prems(3) obtain t e where h: "handle_read_header b dispatch (Got c) s d = (Inr t, e)"
      and f: "feed b dispatch t e cs = (Inr s', d')"
      by (auto split: prod.splits sum.splits)
    from header_counted [OF assms(1) Cons.prems(1) True h] untouched_header [OF Cons.prems(1) True h]
      header_pending [OF h] f True h rest show ?thesis by simp
  next
    case False
    with Cons.prems(2) have body: "pending s = Reading_body" by simp
    with Cons.prems(3) obtain t e where h: "handle_read_body b dispatch (Got c) s d = (Inr t, e)"
      and f: "feed b dispatch t e cs = (Inr s', d')"
      by (auto split: prod.splits sum.splits)
    from body_counted [OF assms(1) Cons.prems(1) body h] untouched_body [OF Cons.prems(1) body h]
      body_pending [OF h] f body h rest show ?thesis by simp
  qed
qed

end

section \<open>Counting sites\<close>

definition counting_site :: "factories \<Rightarrow> bool" where
  \<comment> \<open>no location for the meme handler, which does not count every request, and none for the block
    handler, which counts 100 for a response that says 200\<close>
  "counting_site factories \<longleftrightarrow>
     list_all (\<lambda>(l, kind). kind \<noteq> MemeHandlerFactory \<and> kind \<noteq> BlockHandlerFactory) factories"

lemma crud_not_continue: "crud_handle_request b os dir0 req res s = (Inr st, res', s') \<Longrightarrow> st \<noteq> Continue"
  by (auto simp: crud_handle_request_def handle_creation_def crud_handle_get_def list_entities_def retrieve_entity_def
      handle_update_def write_entity_def handle_deletion_def bad_request_def Let_def
      split: verb.splits option.splits sum.splits bool.splits if_splits prod.splits)

lemma handler_not_continue:
  assumes "create_and_handle b os P ch kind location url cfg req res W = (Inr st, res', W')"
    and "kind \<noteq> MemeHandlerFactory" and "kind \<noteq> BlockHandlerFactory"
  shows "st \<noteq> Continue"
proof (cases kind)
  case StaticHandlerFactory
  with assms(1) have "run_static b os location url cfg req res W = (Inr st, res', W')"
    by (simp add: create_and_handle_def)
  then obtain f w where "static_handle_request b os f req res (world_disk W) = (Inr st, res', w)"
    by (rule run_static_cases)
  then show ?thesis by (auto simp: static_handle_request_def split: option.splits sum.splits)
next
  case CrudHandlerFactory
  with assms(1) have "run_crud b os ch location cfg req res W = (Inr st, res', W')"
    by (simp add: create_and_handle_def)
  then obtain root_path ids s where
    "crud_handle_request b os root_path req res \<lparr>crud_ids = ids, crud_disk = world_disk W\<rparr> = (Inr st, res', s)"
    by (rule run_crud_cases)
  then show ?thesis by (rule crud_not_continue)
qed (use assms in \<open>auto simp: create_and_handle_def echo_handle_request_def health_handle_request_def
    file_not_found_handle_request_def\<close>)

lemma dispatch_metric:
  assumes "payload_law b" and "counting_site factories"
    and "dispatch_request b os P ch factories arguments req fresh_response W = (Inr sent, W')"
  shows "one_metric (dispatch_log b os P ch factories arguments req fresh_response W) sent"
proof -
  let ?url = "req_target req"
  from assms(3) consider "match factories ?url = Inr None"
    | l cfg kind st res' where "match factories ?url = Inr (Some l)" "map_get arguments l = Some cfg"
      "map_get factories l = Some kind" "sent = finish_response st res'"
      "create_and_handle b os P ch kind l ?url cfg req fresh_response W = (Inr st, res', W')"
    by (auto simp: dispatch_request_def Let_def split: sum.splits option.splits prod.splits)
  then show ?thesis
  proof cases
    case 1
    with assms(1,3) show ?thesis
      by (intro one_metricI [where path = ?url and name = "''N/A''"])
        (auto simp: dispatch_log_def dispatch_request_def payload_law_def plain_response_def)
  next
    case (2 l cfg kind st res')
    from 2(3) have "(l, kind) \<in> set factories" by (simp add: map_get_def map_of_SomeD)
    with assms(2) have k: "kind \<noteq> MemeHandlerFactory" "kind \<noteq> BlockHandlerFactory"
      by (auto simp: counting_site_def list_all_iff)
    have "res_result sent = st"
      unfolding 2(4) using assms(1) _ 2(5) handler_not_continue [OF 2(5) k]
      by (rule create_and_handle_result) (simp add: fresh_response_def)
    with handler_counted [of kind P l req b os ch ?url cfg fresh_response W] k(1) 2 show ?thesis
      by (intro one_metricI [where path = ?url and name = "handler_name kind"])
        (simp add: dispatch_log_def Let_def)
  qed
qed

interpretation metered_site: metered "payload_law b \<and> counting_site factories"
  "dispatch_request b os P ch factories arguments" "dispatch_log b os P ch factories arguments"
  by unfold_locales (blast intro: dispatch_metric)

section \<open>Properties\<close>

text \<open>
  C27: the metrics in the log are the responses: on a site without meme and block locations, a
  session has logged one response metric when its response is ready, none before, whatever the
  client sent and however it was cut; and the code of the metric is the result of the response, for
  bad requests, unknown locations and errors of the handlers too.
\<close>
theorem responses_are_counted:
  assumes "payload_law b" and "counting_site factories"
    and "feed b (dispatch_request b os P ch factories arguments) new_session W cs = (Inr s, W')"
  shows "\<exists>path name.
    metrics (feed_log b (dispatch_request b os P ch factories arguments) (dispatch_log b os P ch factories arguments)
        remote_ip new_session W cs) =
    (if pending s = Writing then [Log_response_data (status_number (res_result (response_of s))) path name] else [])"
proof -
  have n: "untouched new_session" "pending new_session = Reading_header"
    by (simp_all add: untouched_def new_session_def)
  from assms(1,2) have v: "payload_law b \<and> counting_site factories" ..
  from metered_site.feed_counted [OF v n(1) _ assms(3), of remote_ip] n(2) show ?thesis
    by (simp add: metered_site.counted_so_far_def one_metric_def split: if_split_asm)
qed

definition reader_beast :: beast where
  \<comment> \<open>a reader that finds the request for one entity in any text\<close>
  "reader_beast = sample_beast\<lparr>read_request := \<lambda>t. Some (crud_request Verb_get ''/api/Shoes/1'' [])\<rparr>"

theorem responses_are_counted_witness:
  "\<exists>s W' path name. feed reader_beast (dispatch_request reader_beast sample_os sample_platform no_chance shop_factories shop_arguments)
      new_session shop [sample_header '' 3'', ''abc''] = (Inr s, W') \<and>
    metrics (feed_log reader_beast
        (dispatch_request reader_beast sample_os sample_platform no_chance shop_factories shop_arguments)
        (dispatch_log reader_beast sample_os sample_platform no_chance shop_factories shop_arguments)
        ''10.0.0.1'' new_session shop [sample_header '' 3'', ''abc'']) = [Log_response_data 200 path name]"
proof -
  let ?run = "feed reader_beast (dispatch_request reader_beast sample_os sample_platform no_chance shop_factories shop_arguments)
      new_session shop [sample_header '' 3'', ''abc'']"
  have "map_sum id (\<lambda>s. (pending s, res_result (response_of s))) (fst ?run) = Inr (Writing, Status_ok)"
    by code_simp
  then obtain s W' where s: "?run = (Inr s, W')" "pending s = Writing" "res_result (response_of s) = Status_ok"
    by (cases ?run; cases "fst ?run") auto
  have law: "payload_law reader_beast" using sample_beast_payload by (simp add: reader_beast_def payload_law_def)
  have "counting_site shop_factories" by (simp add: counting_site_def shop_factories_def)
  from responses_are_counted [OF law this s(1), of "''10.0.0.1''"] s show ?thesis by auto
qed

text \<open>
  The meme handler leaves a response out of the metrics: a request that it has no branch for
  (any method but GET and POST, or a target that is none of its pages and does not end in a
  number) is answered 404 without a response metric.
\<close>
lemma unrouted_memes_not_counted:
  assumes "match factories (req_target req) = Inr (Some location)"
    and "map_get arguments location = Some cfg" and "map_get factories location = Some MemeHandlerFactory"
    and "unrouted P location req"
    and "dispatch_request b os P ch factories arguments req res W = (Inr sent, W')"
  shows "res_result sent = Not_found \<and> metrics (dispatch_log b os P ch factories arguments req res W) = []"
proof -
  from assms(1-3,5) obtain st res' where
    "run_meme b os P ch location cfg req res W = (Inr st, res', W')" and sent: "sent = finish_response st res'"
    by (auto simp: dispatch_request_def create_and_handle_def split: prod.splits sum.splits)
  with meme_run_counted [of P location req os ch cfg W b res] assms(4)
  have "st = Not_found" "metrics (run_meme_log os P ch location cfg req W) = []" by auto
  with assms(1-3) sent show ?thesis
    by (simp add: dispatch_log_def handler_log_def Let_def split: sum.split)
qed

definition meme_world :: "(disk, int) world" where
  "meme_world = \<lparr>world_disk = memes_disk, crud_tables = (\<lambda>_ _. None), meme_tables = (\<lambda>_ _. None)\<rparr>"

definition meme_factories :: factories where
  "meme_factories = [(''/memes'', MemeHandlerFactory)]"

definition meme_arguments :: arguments where
  "meme_arguments = [(''/memes'', Config [Stmt [''root'', ''/memes''] None])]"

end
