(* ===== verification/Spec2Isabelle.thy ===== *)
theory Spec2Isabelle
  imports Config_Query Config_Trace Session Crud_Served File_Locks Meme_History Meme_Restart Handler_Objects Serial_Service Request_Log
begin

text \<open>
  A model of the web server in this repository: a C++ program that reads an nginx-like
  configuration, listens on a port and answers HTTP requests with static files, a store of JSON
  entities (CRUD), a meme board, and small service pages.

  \<^bold>\<open>How the program's parts interact.\<close>
  \<open>server_main.cc\<close> parses the configuration, builds the table of arguments and the table of
  handler factories, constructs the dispatcher and a \<open>server\<close>.  The server starts one \<open>session\<close>
  for every accepted connection.  A session collects the header and the body of one request from as many
  reads as the network needs, gives the request to the dispatcher and writes the response.  The
  dispatcher finds the longest configured location that the target starts with, lets that location's
  factory create a handler, runs the handler once and sets the result of the response from the status
  that comes back.  The handlers reach the disk through \<open>std::filesystem\<close> (static, CRUD) or
  through \<open>BoostFileSystem\<close>, which locks one mutex per path (memes).

  \<^bold>\<open>Theories and what they model.\<close>
  Under \<open>src/src\<close> and \<open>src/include\<close> of the repository:

  \<^item> \<open>Prelude\<close>: exceptions as values (\<open>exn\<close>, \<open>result\<close>, \<open>and_then\<close>), character names.
  \<^item> \<open>Cpp_Std\<close>: what the code uses of \<open>std::string\<close>, \<open>stoi\<close>, \<open>atoi\<close>,
    \<open>getline\<close> and stream extraction; \<open>std::string::npos\<close> is \<open>None\<close>.
  \<^item> \<open>Std_Map\<close>: \<open>std::map\<close> as an association list in key order, and the locale
    \<open>keyed_store\<close> with the laws its clients use, interpreted on it.
  \<^item> \<open>Config_Lexer\<close>, \<open>Config_Parser\<close>, \<open>Config_Query\<close>: \<open>config_parser.cc\<close> and the
    factory of factories.  A statement is a list of tokens with an optional child block; the stack of
    pointers in \<open>Parse\<close> is a list of unfinished blocks, innermost first, and \<open>unwind\<close> is the
    tree that those pointers reach.
    \<open>Config_Trace\<close> is what the parser prints.
  \<^item> \<open>Http\<close>: \<open>http_response.cc\<close>, \<open>get_response.cc\<close>, \<open>mime.cc\<close>, the part of
    Boost.Beast's messages that the code reads and writes, and the record \<open>beast\<close> of Beast's parser
    and serialiser, which are parameters.
  \<^item> \<open>Request_Parser\<close>: \<open>http_request_parser.cc\<close>.
  \<^item> \<open>Session\<close>: \<open>session.cc\<close> as a state
    machine whose events are completed reads and writes.
  \<^item> \<open>Os\<close>: the file system of the operating system, a record of functions over a state of the
    disk (a parameter; \<open>sample_os\<close> is an instance), with its documented laws in \<open>os_laws\<close>.
  \<^item> \<open>Crud\<close>, \<open>Crud_Facts\<close>, \<open>Crud_Properties\<close>, \<open>Crud_Refinement\<close>,
    \<open>Crud_Restart\<close>: \<open>handler/crud_handler.cc\<close> and \<open>factory/crud_handler_factory.cc\<close>.
    \<open>entity_to_id\<close> is a map from types to lists of ids.  The locale \<open>id_pool\<close> states what
    allocation of ids needs.  \<open>Crud_Refinement\<close> states the store of texts the handler implements,
    \<open>Crud_Restart\<close> what the scan of a new factory makes of the disk.
  \<^item> \<open>Handlers\<close>: echo, health, file-not-found, block and static handlers, and the locale
    \<open>status_contract\<close>: what every handler promises about the response it is handed.  It is
    interpreted on all seven handlers.
  \<^item> \<open>File_System\<close>, \<open>File_Locks\<close>: \<open>file_system.cc\<close>, \<open>boost_file_system.cc\<close>; the
    locale \<open>file_store\<close> states the store's interface, and \<open>lock_step\<close> interleaves the
    operations of threads.
  \<^item> \<open>Meme_Module\<close>, \<open>Meme_Pages\<close>, \<open>Meme_Handler\<close>, \<open>Meme_Properties\<close>:
    \<open>meme_module.cc\<close>, \<open>meme_classes\<close>, \<open>handler/meme_handler.cc\<close>,
    \<open>factory/meme_handler_factory.cc\<close>.  Meme ids are \<open>32 word\<close>.
  \<^item> \<open>Meme_Board\<close>: the abstract board the meme service implements, and \<open>board_of\<close>, which reads
    a board off the tables of the module and the disk.
  \<^item> \<open>Meme_Threads\<close>: requests to one meme module at the same time, as the interleavings
    \<open>thread_step\<close> of steps of the size of one mutex, one file operation or one reading of a table:
    posting, showing, commenting, the information page and the list pages.  \<open>Meme_History\<close>: the
    board after an interleaving as the history of its changes, and a request alone as the operation
    of \<open>Meme_Module\<close>.
  \<^item> \<open>Meme_Restart\<close>: the constructor of the module on the disk that the requests have left.
  \<^item> \<open>Dispatcher\<close>: \<open>request_dispatcher.cc\<close> with the handlers and factories it calls; \<open>world\<close>
    holds the disk and the state of every factory.  \<open>Handler_Objects\<close> takes the call of a factory and
    the call of the handler it makes apart.
  \<^item> \<open>Crud_Served\<close>: CRUD requests through the dispatcher, which has a handler made, and the disk
    scanned, for each of them.
  \<^item> \<open>Server\<close>: \<open>server.cc\<close>, and \<open>server_main.cc\<close> up to the construction of the server.
  \<^item> \<open>Harmless\<close>: the condition under which no exception leaves the dispatcher, for every kind of
    handler; \<open>Meme_Service\<close> carries it over whole sequences of requests to a meme module.
  \<^item> \<open>Process\<close>: \<open>tcp_socket.cc\<close>, the completion handlers on a socket, the threads of \<open>server\<close> and
    the signal handler of \<open>server_main.cc\<close>. \<open>process_next\<close> is one occurrence (a connection, a completed read
    or write, an interrupt); an exception that leaves a completion handler ends the process.  The locale
    \<open>steady\<close> states what a dispatcher must promise for its requests not to end it.
    \<open>Serial_Service\<close>: what the clients see together, as one sequence of requests.
  \<^item> \<open>Logger\<close>, \<open>Activity_Log\<close>: \<open>logger.cc\<close>, and what \<open>main\<close> and a session log.
  \<^item> \<open>Crud_Log\<close>, \<open>Meme_Log\<close>, \<open>Request_Log\<close>: what the handlers, their factories, the meme module and
    the dispatcher log for a request, call for call, and the locale \<open>metered\<close>: a dispatcher that leaves one
    response metric for each response.
  \<^item> This theory joins configuration, session, dispatcher and handler.

  \<^bold>\<open>What the lemmas show.\<close>
  Configuration: printing and parsing are inverse on every well-formed tree, what a parsed file may
  contain, the termination of the parser's loop, the port and the tables that are read from the tree,
  in closed form.  Requests: a rendered header is read back; a body is delivered whole however the
  network cuts it; every run of a session keeps an invariant that ties its state to the bytes
  received, writes at most one response and ends.  Entities: a created entity reads back, ids are
  fresh, least and distinct, the table stays well formed under every sequence of requests, deletion
  removes exactly one entity, the handler refines an abstract store of texts, and a restart finds
  that store again on the disk.  Files: no two operations hold the mutex of one path, and a waiting
  operation can always go on.  Memes: creation and reading, distinct numbers, counted views, ratings
  that are the mean of the votes, bounded numbers after a restart, routing of the targets, the
  refinement of the board, by requests one after another and at the same time, that no post, view,
  vote or comment is lost among concurrent requests, that a list page is right in spite of them, and
  that the board survives a restart.
  Dispatch: longest match, the result of the response, the start of the server and the set of its
  sessions, and the whole way from the configuration file to the answer a client gets.  Process:
  which requests are answered without an exception, that harmless requests stay harmless together, what
  can end the process (a peer that is gone, a content length that is no number, a request whose
  handler throws, and nothing else), that a site of service pages and files cannot be ended by a
  request, and that the connections of a server are answered as by one sequence of requests.  Log: a start that fails ends the log with an error, a request takes one line, and the response
  metrics are the responses, one for one.  Where the code does not do
  what its comments or its names promise, the theorem states what it does (the names say so:
  \<open>parse_accepts_unclosed\<close>, \<open>negative_length_never_answered\<close>, \<open>posts_overwrite_entity_two\<close>,
  \<open>rejected_header_forges_lines\<close>, \<open>stored_text_gains_line_ends\<close>, \<open>one_client_ends_the_server\<close>,
  \<open>unrouted_memes_not_counted\<close> and others).

  \<^bold>\<open>Recursion and bounds.\<close>
  No definition uses fuel.  Loops over a stream are recursive functions with a measure, the length of
  the text that is left; \<open>available_from\<close> recurses over the list of ids.  The loops of the
  meme pages test every number below the next id, as the code does.  \<open>int\<close> is a
  HOL integer with the range checks of the library function that makes it (\<open>stoi\<close> fails, \<open>atoi\<close>
  wraps), \<open>uint32_t\<close> is \<open>32 word\<close>, and the port is \<open>16 word\<close>.

  \<^bold>\<open>Parameters.\<close>
  The record \<open>beast\<close> (Boost.Beast's parser, serialiser and \<open>prepare_payload\<close>), the record
  \<open>os\<close> (file system calls), the record \<open>platform\<close> (JSON reading and floating-point
  arithmetic), \<open>chance\<close> (\<open>rand\<close>, UUIDs and the values of uninitialised variables), and \<open>tcp_socket\<close> (what
  Boost.Asio answers for a socket when it is asked for the peer or to shut down).
  What a theorem needs of them is a named hypothesis (\<open>payload_law\<close>, \<open>os_laws\<close>,
  \<open>entity_frame\<close>, \<open>write_frame\<close>, \<open>path_frame\<close>: a change of one path leaves the others
  alone; \<open>kind_frame\<close>: nor does it change their kind; \<open>listing_law\<close>, \<open>names_law\<close>: a directory lists
  what is in it; \<open>disk_takes\<close>: the disk has room; \<open>printing_law\<close>: a printed \<open>float\<close> can be read;
  \<open>exact\<close>).  A name in a path (\<open>name_part\<close>) has no slash and is neither of the two dot names.

  \<^bold>\<open>Not modelled.\<close>
  Boost.Log's sinks; \<open>session_factory.cc\<close> (a \<open>new\<close>, whose effect is in \<open>start_accept\<close>); the build
  files, the containers and the tests.  Requests are
  handled one after another except in \<open>File_Locks\<close>, \<open>Meme_Threads\<close>, \<open>Meme_History\<close>, \<open>Server\<close> and
  \<open>Process\<close>, where a step is a completion handler or smaller.  The scan of the CRUD factory writes,
  and a GET reads, the table of ids without the mutex that the other requests hold: by the C++
  standard such a program has no meaning when the server runs on several threads, so that there is
  no interleaving to model.  The readings of the tables of a meme module without a lock are taken to
  be atomic.  \<open>MemeModule::remove\<close>, which nothing calls, has no step among the concurrent
  requests.  What other threads still do while the process is being ended is left out.
\<close>

section \<open>From the network to the handler\<close>

lemma respond_dispatches:
  assumes "read_request b (request_header s @ request_body s) = Some req"
    and "dispatch (delivered_request req) (response_of s) d = (Inr res, d')"
  shows "respond_to_request b dispatch s d = (Inr (write_response b res s), d')"
  using assms by (simp add: respond_to_request_def delivered_request_def Let_def split: if_splits)

lemma visible_Inr:
  "visible r = visible (Inr t, d) \<Longrightarrow>
   \<exists>s. r = (Inr s, d) \<and> response_of s = response_of t \<and> response_string s = response_string t"
  by (cases r; cases "fst r") (auto simp: visible_def)

lemma served:
  assumes "header_block h" and "parse_header h new_request_parser = (True, p)" 
    and "announces p 0 (length body)" and "[] \<notin> set cs" and "concat cs = h @ body"
    and "read_request b (h @ body) = Some req"
    and "dispatch (delivered_request req) fresh_response d = (Inr res, d')"
  shows "\<exists>s. feed b dispatch new_session d cs = (Inr s, d') \<and> response_of s = res \<and>
    response_string s = response_text b res"
proof -
  let ?s = "new_session\<lparr>request_header := h, request_body := body\<rparr>"
  have "visible (feed b dispatch new_session d cs) = visible (respond_to_request b dispatch ?s d)"
    using feed_header [of h new_session p body cs b dispatch d] assms(1-5) by (simp add: new_session_def)
  also have "respond_to_request b dispatch ?s d = (Inr (write_response b res ?s), d')"
    using assms(6,7) by (intro respond_dispatches [of _ _ req]) (simp_all add: new_session_def)
  finally show ?thesis by (auto dest: visible_Inr)
qed

text \<open>
  A request, with a body or without, however the network cuts it, reaches the handler of the
  longest matching location once, with its whole body, and the client gets a response whose result
  is the status that handler returned.
\<close>
lemma request_served:
  assumes "payload_law b" and "header_block h" and "parse_header h new_request_parser = (True, p)"
    and "announces p 0 (length body)"
    and "[] \<notin> set cs" and "concat cs = h @ body" and "read_request b (h @ body) = Some req"
    and "\<forall>l \<in> fst ` set factories. plain_name l"
    and "longest_location (fst ` set factories) (req_target req) location"
    and "map_get arguments location = Some cfg" and "map_get factories location = Some kind"
    and "create_and_handle b os P ch kind location (req_target req) cfg (delivered_request req) fresh_response W =
      (Inr st, res', W')"
    and "st \<noteq> Continue"
  shows "\<exists>s. feed b (dispatch_request b os P ch factories arguments) new_session W cs = (Inr s, W') \<and>
    res_result (response_of s) = st \<and> response_string s = response_text b (response_of s)"
proof -
  have t: "req_target (delivered_request req) = req_target req" by (simp add: delivered_request_def)
  have "\<not> (\<forall>l \<in> fst ` set factories. \<not> prefix l (req_target req))"
    using assms(9) by (auto simp: longest_location_def)
  with match_result [OF assms(8), of "req_target req"] obtain l where
    m: "match factories (req_target req) = Inr (Some l)" "longest_location (fst ` set factories) (req_target req) l"
    by blast
  have "l = location" using m(2) assms(9) by (rule longest_unique)
  with m(1) have "match factories (req_target req) = Inr (Some location)" by simp
  then have d: "dispatch_request b os P ch factories arguments (delivered_request req) fresh_response W =
      (Inr (finish_response st res'), W')"
    by (simp add: dispatch_request_def Let_def t assms(10-12))
  have "res_result (finish_response st res') = st"
    using assms(1) _ assms(12,13) by (rule create_and_handle_result) (simp add: fresh_response_def)
  with served [of h p body cs b req "dispatch_request b os P ch factories arguments" W, OF assms(2-7) d]
  show ?thesis by auto
qed

section \<open>From the configuration file to the tables\<close>

definition serves :: "config \<Rightarrow> string \<Rightarrow> factory_kind \<Rightarrow> config \<Rightarrow> bool" where
  \<comment> \<open>a location block gives \<open>location\<close> this handler and these arguments, and no later block names it\<close>
  "serves cfg location kind block \<longleftrightarrow>
     (\<exists>before name later. location_blocks (statements cfg) = before @ (location, name, block) # later \<and>
        create_handler_factory name = Some kind \<and> location \<notin> fst ` set later)"

definition known_locations :: "config \<Rightarrow> string set" where
  "known_locations cfg =
     {l. \<exists>name block. (l, name, block) \<in> set (location_blocks (statements cfg)) \<and>
        create_handler_factory name \<noteq> None}"

lemma factory_entries_append: "factory_entries (bs @ cs) = factory_entries bs @ factory_entries cs"
  by (simp add: factory_entries_def)

lemma factory_entries_Cons: "factory_entries ((l, name, block) # bs) =
    (case create_handler_factory name of None \<Rightarrow> [] | Some f \<Rightarrow> [(l, f)]) @ factory_entries bs"
  by (simp add: factory_entries_def)

lemma factory_entries_key: "l \<in> fst ` set (factory_entries bs) \<longleftrightarrow>
    (\<exists>name block. (l, name, block) \<in> set bs \<and> create_handler_factory name \<noteq> None)"
proof (induction bs)
  case Nil
  then show ?case by (simp add: factory_entries_def)
next
  case (Cons e bs)
  obtain l' name' block' where e: "e = (l', name', block')" by (cases e)
  have "l \<in> fst ` set (factory_entries (e # bs)) \<longleftrightarrow>
      l = l' \<and> create_handler_factory name' \<noteq> None \<or> l \<in> fst ` set (factory_entries bs)"
    unfolding e factory_entries_Cons by (cases "create_handler_factory name'") simp_all
  then show ?case unfolding Cons.IH e by auto
qed

lemma factory_keys: "fst ` set (factory_table cfg) = known_locations cfg"
proof -
  have "l \<in> fst ` set (factory_table cfg) \<longleftrightarrow>
      l \<in> fst ` set (factory_entries (location_blocks (statements cfg)))" for l
    using std_map.stored_iff [of "factory_entries (location_blocks (statements cfg))" l] map_get_None_iff by metis
  then show ?thesis unfolding factory_entries_key known_locations_def by blast
qed

lemma serves_tables:
  assumes "serves cfg location kind block"
  shows "map_get (argument_table cfg) location = Some block" and "map_get (factory_table cfg) location = Some kind"
    and "location \<in> known_locations cfg"
proof -
  from assms obtain bs name cs where
    b: "location_blocks (statements cfg) = bs @ (location, name, block) # cs"
    and k: "create_handler_factory name = Some kind" and n: "location \<notin> fst ` set cs"
    by (auto simp: serves_def)
  have "location \<notin> fst ` set (argument_entries cs)" using n by (force simp: argument_entries_def)
  then have "map_of (rev (argument_entries cs)) location = None" by (simp add: map_of_eq_None_iff)
  with b show "map_get (argument_table cfg) location = Some block"
    by (simp add: map_get_put_all argument_entries_def map_add_def)
  have "location \<notin> fst ` set (factory_entries cs)"
    using n factory_entries_keys [of cs] by (force simp: argument_entries_def)
  then have "map_of (rev (factory_entries cs)) location = None" by (simp add: map_of_eq_None_iff)
  with b k show "map_get (factory_table cfg) location = Some kind"
    by (simp add: map_get_put_all factory_entries_append map_add_def)
      (simp add: factory_entries_def map_add_def)
  from b k show "location \<in> known_locations cfg" by (auto simp: known_locations_def)
qed

lemma started_tables:
  assumes "parse_file os w f = (ok, cfg)" and "start_up os w bind [f] = Serve port arguments factories"
  shows "arguments = argument_table cfg \<and> factories = factory_table cfg \<and> bind port"
  using assms(2) unfolding start_up_file [OF assms(1)] by (auto simp: Let_def split: if_splits)

section \<open>Properties\<close>


definition shop_beast :: beast where
  \<comment> \<open>a reader that finds the request to create an entity in any text\<close>
  "shop_beast = sample_beast\<lparr>read_request := \<lambda>t. Some (crud_request Verb_post ''/api/Shoes'' ''abc'')\<rparr>"

definition shop_config :: config where
  "shop_config = Config
     [Stmt [''port'', ''8080''] None,
      Stmt [''location'', ''/api/'', ''CrudHandler''] (Some data_config),
      Stmt [''location'', ''/echo'', ''EchoHandler''] (Some (Config []))]"

definition shop_disk :: disk where
  "shop_disk = (''/conf'', Some (to_string shop_config 0)) # world_disk shop"

lemma shop_locations: "location_blocks (statements shop_config) =
    [(''/api'', ''CrudHandler'', data_config), (''/echo'', ''EchoHandler'', Config [])]"
  by code_simp

lemma shop_started:
  "parse_file sample_os shop_disk ''/conf'' = (True, shop_config)"
  "start_up sample_os shop_disk (\<lambda>p. 0 < p) [''/conf''] =
     Serve 8080 (argument_table shop_config) (factory_table shop_config)"
proof -
  have wf: "wf_config shop_config"
    by (simp add: shop_config_def data_config_def wf_config_def wf_token_def token_start_def delimiter_def)
  have "os_read sample_os shop_disk ''/conf'' = Some (to_string shop_config 0)"
    by (simp add: sample_os_def shop_disk_def)
  then show p: "parse_file sample_os shop_disk ''/conf'' = (True, shop_config)"
    by (simp add: parse_file_def parse_print [OF wf])
  have "the_port (port_values (statements shop_config)) = 8080" by code_simp
  then show "start_up sample_os shop_disk (\<lambda>p. 0 < p) [''/conf''] =
     Serve 8080 (argument_table shop_config) (factory_table shop_config)"
    by (simp add: start_up_file [OF p] shop_locations)
qed

lemma shop_serves: "serves shop_config ''/api'' CrudHandlerFactory data_config"
  unfolding serves_def
  by (rule exI [of _ "[]"], rule exI [of _ "''CrudHandler''"],
      rule exI [of _ "[(''/echo'', ''EchoHandler'', Config [])]"])
    (simp add: shop_locations create_handler_factory_def)

lemma shop_known: "known_locations shop_config = {''/api'', ''/echo''}"
proof -
  have "create_handler_factory ''CrudHandler'' \<noteq> None" "create_handler_factory ''EchoHandler'' \<noteq> None"
    by code_simp+
  then show ?thesis by (auto simp: known_locations_def shop_locations)
qed


text \<open>
  C36: the session appends two line ends to every body it passes on, so an entity that is created
  through the server holds the posted text followed by them, not the posted text.
\<close>
theorem stored_text_gains_line_ends:
  assumes "os_laws os" and "header_block h" and "parse_header h new_request_parser = (True, p)"
    and "announces p 0 (length body)"
    and "[] \<notin> set cs" and "concat cs = h @ body" and "read_request b (h @ body) = Some req"
    and "req_method req = Verb_post" and "req_body req \<noteq> []"
    and "req_target req = base @ slash # d" and "name_part d"
    and "match factories (req_target req) = Inr (Some location)"
    and "map_get arguments location = Some cfg" and "map_get factories location = Some CrudHandlerFactory"
    and "run_crud b os ch location cfg (delivered_request req) fresh_response W = (Inr Created, res', W')"
  shows "\<exists>s dir i. feed b (dispatch_request b os P ch factories arguments) new_session W cs = (Inr s, W') \<and>
    os_read os (world_disk W') (entity_path dir d i) = Some (req_body req @ crlf2)"
proof -
  have t: "req_target (delivered_request req) = base @ slash # d" "req_method (delivered_request req) = Verb_post"
    "req_body (delivered_request req) = req_body req @ crlf2"
    using assms(8-10) by (simp_all add: delivered_request_def)
  have d: "dispatch_request b os P ch factories arguments (delivered_request req) fresh_response W =
      (Inr (finish_response Created res'), W')"
    using assms(12-15) t(1) assms(10)
    by (simp add: dispatch_request_def Let_def create_and_handle_def)
  obtain root_path ids s where
    run: "crud_handle_request b os root_path (delivered_request req) fresh_response
        \<lparr>crud_ids = ids, crud_disk = world_disk W\<rparr> = (Inr Created, res', s)"
    and W': "W' = W\<lparr>world_disk := crud_disk s, crud_tables := (crud_tables W)(location := crud_ids s)\<rparr>"
    using assms(15) by (rule run_crud_cases)
  from run t(2) have "handle_creation b os root_path (delivered_request req) fresh_response
      \<lparr>crud_ids = ids, crud_disk = world_disk W\<rparr> = (Inr Created, res', s)"
    by (simp add: crud_handle_request_def)
  from creation_target(3) [OF t(1) assms(11) this] obtain w where
    "os_write os w (entity_path root_path d (get_available_id ids d)) (req_body req @ crlf2) = Some (crud_disk s)"
    by (auto simp: entity_path_def t(3))
  then have "os_read os (world_disk W') (entity_path root_path d (get_available_id ids d)) = Some (req_body req @ crlf2)"
    using os_lawsD(1) [OF assms(1)] by (simp add: W')
  moreover obtain s where "feed b (dispatch_request b os P ch factories arguments) new_session W cs = (Inr s, W')"
    using served [of h p body cs b req "dispatch_request b os P ch factories arguments" W, OF assms(2-7) d] by blast
  ultimately show ?thesis by blast
qed

theorem stored_text_gains_line_ends_witness:
  "\<exists>s W' dir i. feed shop_beast (dispatch_request shop_beast sample_os sample_platform no_chance shop_factories shop_arguments)
      new_session shop [sample_header '' 3'' @ ''abc''] = (Inr s, W') \<and>
    os_read sample_os (world_disk W') (entity_path dir ''Shoes'' i) = Some (''abc'' @ crlf2)"
proof -
  let ?h = "sample_header '' 3''"
  let ?req = "crud_request Verb_post ''/api/Shoes'' ''abc''"
  let ?run = "run_crud shop_beast sample_os no_chance ''/api'' data_config (delivered_request ?req)
    fresh_response shop"
  have "stoi ('' 3'' @ [creturn]) = Inr (int (length ''abc''))" by code_simp
  note n = sample_length [OF this]
  have cs: "[] \<notin> set [?h @ ''abc'']" "concat [?h @ ''abc''] = ?h @ ''abc''" by simp_all
  have r: "read_request shop_beast (?h @ ''abc'') = Some ?req" by (simp add: shop_beast_def)
  have q: "req_method ?req = Verb_post" "req_body ?req \<noteq> []" by simp_all
  have m: "match shop_factories (req_target ?req) = Inr (Some ''/api'')" by code_simp
  have a: "map_get shop_arguments ''/api'' = Some data_config"
    and k: "map_get shop_factories ''/api'' = Some CrudHandlerFactory"
    by (simp_all add: shop_arguments_def shop_factories_def map_get_def)
  have "fst ?run = Inr Created" by code_simp
  from status_run [OF this] obtain res' W' where run: "?run = (Inr Created, res', W')" by blast
  have p: "parse_header ?h new_request_parser = (True, sample_parser '' 3'')"
    by (rule sample_header_parse) simp
  have body: "req_body ?req = ''abc''" by simp
  from stored_text_gains_line_ends [OF sample_os_laws sample_header_block(1) p announcesI [OF sample_parser_facts(1) n] cs r q
      shoes_target(1) shoes_facts(1) m a k run]
  show ?thesis unfolding body by blast
qed

end
